theory Spec2Isabelle
  imports Complex_Main
begin

section \<open>Numbers, rounding and units\<close>

text \<open>
  The program computes with double-precision floats wrapped in pint quantities. The
  embedding idealises a float as a \<^typ>\<open>real\<close> and represents a quantity by its magnitude
  in one fixed unit per kind: metres, seconds, metres per second, newtons, radians, and
  for the fuel the units the code itself carries (mg/s for the flow, mg for a step's
  burn, g for the accumulated burn). Where pint converts between units on an in-place
  addition, the conversion is written out with a named function.

  \<open>np.round(x, d)\<close> scales by \<open>10 ** d\<close>, rounds to the nearest integer with ties going to
  the even neighbour, and scales back.
\<close>

definition rint :: "real \<Rightarrow> int" where
  "rint x = (let f = \<lfloor>x\<rfloor>; r = x - of_int f in
     if r < 1 / 2 then f else if 1 / 2 < r then f + 1 else if even f then f else f + 1)"

definition np_round :: "nat \<Rightarrow> real \<Rightarrow> real" where
  "np_round d x = of_int (rint (x * 10 ^ d)) / 10 ^ d"

definition kN_to_N :: "real \<Rightarrow> real" where
  "kN_to_N f = 1000 * f"

definition mg_to_g :: "real \<Rightarrow> real" where
  "mg_to_g m = m / 1000"

definition mg_m_per_s2_to_N :: "real \<Rightarrow> real" where
  "mg_m_per_s2_to_N f = f / 1000000"

section \<open>External collaborators\<close>

text \<open>
  \<open>ambiance.Atmosphere\<close> is a library outside the repository: a lookup from the altitude
  in metres to density, pressure, temperature and speed of sound. It is a parameter of
  every function that consults it.
\<close>

record atmosphere =
  density :: "real \<Rightarrow> real"
  pressure :: "real \<Rightarrow> real"
  temperature :: "real \<Rightarrow> real"
  speed_of_sound :: "real \<Rightarrow> real"

text \<open>
  The lookup \<open>Atmosphere(h)\<close> accepts the geometric altitudes from -5004 m to 81020 m, both
  included, and raises \<open>ValueError\<close> for any other altitude. The sea-level lookups
  \<open>Atmosphere(0)\<close> are within the range. The conversions and models below compute with
  the values of the lookup; the simulations, which step the altitude, test the range at
  the first lookup of every new altitude.
\<close>

definition Atmosphere_accepts :: "real \<Rightarrow> bool" where
  "Atmosphere_accepts h \<longleftrightarrow> - 5004 \<le> h \<and> h \<le> 81020"

text \<open>
  The exceptions of a call, as values: the \<open>KeyError\<close> of a missing keyword, the
  \<open>ValueError\<close> that the code raises with a message, a \<open>TypeError\<close>, and the \<open>ValueError\<close>
  of \<open>Atmosphere(h)\<close> for an altitude \<open>h\<close> outside its range (the message is the
  library's; the value keeps the altitude).
\<close>

datatype py_error =
  KeyError string | ValueError string | TypeError | Atmosphere_ValueError real

text \<open>
  The module \<open>aerodynamic_char\<close> is imported by \<open>simulation.py\<close> but is not among the
  sources. Its three functions are parameters as well, with the argument order of their
  call sites: \<open>aoa_steady_staight(v_ias, h, w, S)\<close>, \<open>drag(v_ias, h, c_l, S)\<close> and
  \<open>gamma_steady_straight(thrust, drag, w)\<close>.
\<close>

record aerodynamic_char =
  aoa_steady_staight :: "real \<Rightarrow> real \<Rightarrow> real \<Rightarrow> real \<Rightarrow> real"
  drag :: "real \<Rightarrow> real \<Rightarrow> real \<Rightarrow> real \<Rightarrow> real"
  gamma_steady_straight :: "real \<Rightarrow> real \<Rightarrow> real \<Rightarrow> real"

section \<open>Constants (\<open>const.py\<close>)\<close>

definition Grav_const :: real where
  "Grav_const = 9.80665"

definition S :: real where
  "S = 500"

definition MTOW :: real where
  "MTOW = 3600000"

definition W_fuel :: real where
  "W_fuel = 1600000"

text \<open>\<open>Max_Thrust_SE_SL\<close> is \<open>ureg("270kN")\<close>: its magnitude is in kilonewtons.\<close>

definition Max_Thrust_SE_SL :: real where
  "Max_Thrust_SE_SL = 270"

definition BPR :: real where
  "BPR = 5"

section \<open>Airspeed conversions (\<open>helpers/airspeed.py\<close>)\<close>

definition cas2tas :: "atmosphere \<Rightarrow> real \<Rightarrow> real \<Rightarrow> real" where
  "cas2tas A v_cas h =
    (let rho_at_h = density A h;
         rho_at_sl = density A 0;
         p_at_h = pressure A h;
         p_at_sl = pressure A 0;
         gamma = 1.4;
         g_r = gamma / (gamma - 1);
         p1 = 1 + ((2 * g_r) powr (- 1)) * (rho_at_sl / p_at_sl) * v_cas ^ 2;
         p2 = p1 powr g_r;
         p3 = (1 + (p_at_sl / p_at_h) * (p2 - 1)) powr (1 / g_r);
         v_tas = sqrt (2 * g_r * (p_at_h / rho_at_h) * (p3 - 1))
     in np_round 2 v_tas)"

definition cas2mach :: "atmosphere \<Rightarrow> real \<Rightarrow> real \<Rightarrow> real" where
  "cas2mach A v_cas h =
    (let v_tas = cas2tas A v_cas h;
         v_sound = speed_of_sound A h;
         mach = v_tas / v_sound
     in np_round 3 mach)"

definition tas2cas :: "atmosphere \<Rightarrow> real \<Rightarrow> real \<Rightarrow> real" where
  "tas2cas A v_tas h =
    (let rho_at_h = density A h;
         rho_at_sl = density A 0;
         p_at_h = pressure A h;
         p_at_sl = pressure A 0;
         gamma = 1.4;
         g_r = gamma / (gamma - 1);
         p1 = 1 + ((2 * g_r) powr (- 1)) * (rho_at_h / p_at_h) * v_tas ^ 2;
         p2 = p1 powr g_r - 1;
         p3 = ((p_at_h / p_at_sl) * p2 + 1) powr (1 / g_r);
         p4 = p3 - 1;
         v_cas = sqrt (2 * g_r * (p_at_sl / rho_at_sl) * p4)
     in np_round 2 v_cas)"

definition tas2mach :: "atmosphere \<Rightarrow> real \<Rightarrow> real \<Rightarrow> real" where
  "tas2mach A v_tas h =
    (let v_sound = speed_of_sound A h;
         mach = v_tas / v_sound
     in np_round 3 mach)"

section \<open>Steady lift coefficient (\<open>helpers/aerodynamics.py\<close>)\<close>

definition c_l_steady :: "atmosphere \<Rightarrow> real \<Rightarrow> real \<Rightarrow> real \<Rightarrow> real \<Rightarrow> real" where
  "c_l_steady A v_cas altitude weight wing_area =
    (let rho_at_h = density A altitude;
         v_tas = cas2tas A v_cas altitude;
         lift = weight;
         lift_coeff = (2 * lift) / (rho_at_h * wing_area * v_tas ^ 2)
     in np_round 4 lift_coeff)"

section \<open>Propulsion (\<open>sim_climb_descent/thrust_model.py\<close>)\<close>

text \<open>
  \<open>max_thrust_model\<close> works on the magnitude of \<open>thrust_max_sl\<close> in whatever unit it
  carries and returns a magnitude in the same unit.
\<close>

definition max_thrust_model :: "atmosphere \<Rightarrow> real \<Rightarrow> real \<Rightarrow> real \<Rightarrow> real \<Rightarrow> real" where
  "max_thrust_model A thrust_max_sl bpr h mach =
    (let g_0 = 0.6375 + (0.0604 * bpr);
         p_h = pressure A h;
         p_sl = pressure A 0;
         a = (- 0.4327 * (p_h / p_sl) ^ 2) + (1.3855 * (p_h / p_sl)) + 0.0472;
         x = (0.9106 * (p_h / p_sl) ^ 3) - (1.7736 * (p_h / p_sl) ^ 2)
               + (1.8697 * (p_h / p_sl));
         z = (0.1377 * (p_h / p_sl) ^ 3) - (0.4374 * (p_h / p_sl) ^ 2)
               + (1.3003 * (p_h / p_sl));
         temp_term_1 = z * mach * (0.377 * (1 + bpr)) / sqrt (g_0 * (1 + (0.82 * bpr)));
         temp_term_2 = (0.23 + (0.19 * sqrt bpr)) * x * mach ^ 2;
         thrust_max_h = (a - temp_term_1 + temp_term_2) * thrust_max_sl
     in np_round 4 thrust_max_h)"

text \<open>
  \<open>fuel_flow\<close> takes the thrust in newtons and returns the flow in mg/s: the product of
  \<open>c_t\<close> (mg/s per N) and the thrust, reduced to mg/s and rounded there.
\<close>

definition fuel_flow :: "atmosphere \<Rightarrow> real \<Rightarrow> real \<Rightarrow> real \<Rightarrow> real" where
  "fuel_flow A thrust mach h =
    (let temp_h = temperature A h;
         temp_sl = temperature A 0;
         theta = temp_h / temp_sl;
         c_t = 11 * (1 + mach) * sqrt theta
     in np_round 4 (c_t * thrust))"

section \<open>Pilot control law (\<open>sim_climb_descent/pilot_control.py\<close>)\<close>

definition pilot_pitch_control ::
  "atmosphere \<Rightarrow> real \<Rightarrow> real \<Rightarrow> real \<Rightarrow> real \<Rightarrow> real \<Rightarrow> real \<Rightarrow> string \<Rightarrow> real" where
  "pilot_pitch_control A k_p theta_trim v_ref v_ias h cruise_mach phase =
    (let v_sound = speed_of_sound A h;
         v_error =
           (if phase = ''climb'' then
              (if np_round 2 (cas2mach A v_ias h) < cruise_mach
               then v_ias - v_ref
               else v_ias - tas2cas A (cruise_mach * v_sound) h)
            else
              (if np_round 0 v_ias < v_ref
               then v_ias - tas2cas A (cruise_mach * v_sound) h
               else v_ias - v_ref))
     in ((v_error * k_p) * 1) + theta_trim)"

section \<open>Equations of motion (\<open>sim_climb_descent/eom.py\<close>)\<close>

definition inst_dv_dt :: "real \<Rightarrow> real \<Rightarrow> real \<Rightarrow> real \<Rightarrow> real" where
  "inst_dv_dt thrust drg w gamma =
     np_round 4 ((Grav_const / w) * (thrust - drg - (w * sin gamma)))"

definition inst_dgamma_dt :: "real \<Rightarrow> real \<Rightarrow> real \<Rightarrow> real" where
  "inst_dgamma_dt lift w v_tas = (Grav_const / w) * (1 / v_tas) * (lift - w)"

section \<open>Trajectory integrator (\<open>sim_climb_descent/simulation.py\<close>)\<close>

text \<open>
  \<open>ics\<close> is the dictionary of initial conditions with the keys \<open>x\<close>, \<open>h\<close>, \<open>w\<close> and
  \<open>v_ias\<close>.
\<close>

record ics =
  ics_x :: real
  ics_h :: real
  ics_w :: real
  ics_v_ias :: real

text \<open>
  The local variables that the stepping loops mutate: \<open>t\<close>, \<open>x\<close>, \<open>h\<close>, \<open>w\<close>,
  \<open>m_f_burnt\<close>, \<open>v_ias\<close>, \<open>v_tas\<close>, \<open>mach\<close> and \<open>gamma\<close>.
\<close>

record sim_state =
  st_t :: real
  st_x :: real
  st_h :: real
  st_w :: real
  st_m_f_burnt :: real
  st_v_ias :: real
  st_v_tas :: real
  st_mach :: real
  st_gamma :: real

text \<open>
  The locals of \<open>simulation_euler\<close> that are fixed once the loop starts: the arguments
  \<open>time_step\<close>, \<open>pilot_control_model\<close>, \<open>k_p\<close>, \<open>v_ref\<close>, \<open>cruise_mach\<close>, \<open>phase\<close> and the
  derived \<open>theta_trim\<close> and \<open>thrust_app_perc\<close>.
\<close>

record euler_frame =
  ef_dt :: real
  ef_pilot_control_model ::
    "real \<Rightarrow> real \<Rightarrow> real \<Rightarrow> real \<Rightarrow> real \<Rightarrow> real \<Rightarrow> string \<Rightarrow> real"
  ef_k_p :: real
  ef_v_ref :: real
  ef_cruise_mach :: real
  ef_phase :: string
  ef_theta_trim :: real
  ef_thrust_app_perc :: real

text \<open>
  The result dictionary \<open>res\<close> of \<open>simulation_euler\<close>, one list per key: \<open>t\<close>, \<open>x\<close>, \<open>h\<close>,
  \<open>v_tas\<close>, \<open>v_ias\<close>, \<open>mach\<close>, \<open>gamma\<close>, \<open>fuel_burn\<close>, \<open>aoa\<close>, \<open>theta\<close>.
\<close>

record euler_res =
  res_t :: "real list"
  res_x :: "real list"
  res_h :: "real list"
  res_v_tas :: "real list"
  res_v_ias :: "real list"
  res_mach :: "real list"
  res_gamma :: "real list"
  res_fuel_burn :: "real list"
  res_aoa :: "real list"
  res_theta :: "real list"

text \<open>Line 115: the thrust percentage is 0.95 for \<open>"climb"\<close> and 0.05 for anything else.\<close>

definition thrust_app_perc :: "string \<Rightarrow> real" where
  "thrust_app_perc phase = (if phase = ''climb'' then 0.95 else 0.05)"

text \<open>
  The thrust of the four engines that a step of \<open>simulation_euler\<close> applies, in newtons
  (\<open>max_thrust_model\<close> is called with the sea-level thrust in kilonewtons).
\<close>

definition euler_inst_thrust :: "atmosphere \<Rightarrow> euler_frame \<Rightarrow> sim_state \<Rightarrow> real" where
  "euler_inst_thrust A F s =
     kN_to_N (4 * max_thrust_model A Max_Thrust_SE_SL BPR (st_h s) (st_mach s)
                * ef_thrust_app_perc F)"

text \<open>
  One pass through the body of the \<open>while True\<close> loop of \<open>simulation_euler\<close> up to the
  updates of the state (lines 142 to 184). It returns the new state together with the
  \<open>aoa\<close> and \<open>theta\<close> of the step.
\<close>

definition euler_step ::
  "atmosphere \<Rightarrow> aerodynamic_char \<Rightarrow> euler_frame \<Rightarrow> sim_state \<Rightarrow> sim_state \<times> real \<times> real" where
  "euler_step A C F s =
    (let dt = ef_dt F;
         theta = ef_pilot_control_model F (ef_k_p F) (ef_theta_trim F) (ef_v_ref F)
                   (st_v_ias s) (st_h s) (ef_cruise_mach F) (ef_phase F);
         aoa = theta - st_gamma s;
         c_l = 0.03 + (4.4 * aoa);
         inst_lift = (1 / 2) * c_l * density A (st_h s) * S * (st_v_tas s) ^ 2;
         inst_thrust = euler_inst_thrust A F s;
         inst_drag = drag C (st_v_ias s) (st_h s) c_l S;
         dh = st_v_tas s * sin (st_gamma s) * dt;
         dv_tas = inst_dv_dt inst_thrust inst_drag (st_w s) (st_gamma s) * dt;
         dgamma = inst_dgamma_dt inst_lift (st_w s) (st_v_tas s) * dt;
         dm = - fuel_flow A inst_thrust (st_mach s) (st_h s) * dt;
         dw = dm * Grav_const;
         dx = st_v_tas s * cos (st_gamma s) * dt;
         x' = st_x s + dx;
         h' = st_h s + dh;
         v_tas' = st_v_tas s + dv_tas;
         v_ias' = tas2cas A v_tas' h';
         mach' = cas2mach A v_ias' h';
         gamma' = st_gamma s + dgamma;
         m_f_burnt' = st_m_f_burnt s + mg_to_g \<bar>dm\<bar>;
         w' = st_w s + mg_m_per_s2_to_N dw;
         t' = st_t s + dt
     in (\<lparr>st_t = t', st_x = x', st_h = h', st_w = w', st_m_f_burnt = m_f_burnt',
          st_v_ias = v_ias', st_v_tas = v_tas', st_mach = mach', st_gamma = gamma'\<rparr>,
         aoa, theta))"

text \<open>Lines 187 to 196: the new state is appended to every list of \<open>res\<close>.\<close>

definition euler_append :: "euler_res \<Rightarrow> sim_state \<Rightarrow> real \<Rightarrow> real \<Rightarrow> euler_res" where
  "euler_append r s aoa theta =
     \<lparr>res_t = res_t r @ [st_t s], res_x = res_x r @ [st_x s], res_h = res_h r @ [st_h s],
      res_v_tas = res_v_tas r @ [st_v_tas s], res_v_ias = res_v_ias r @ [st_v_ias s],
      res_mach = res_mach r @ [st_mach s], res_gamma = res_gamma r @ [st_gamma s],
      res_fuel_burn = res_fuel_burn r @ [st_m_f_burnt s],
      res_aoa = res_aoa r @ [aoa], res_theta = res_theta r @ [theta]\<rparr>"

text \<open>
  Lines 199 to 205: the \<open>match phase\<close> statement. It has a case for \<open>"climb"\<close> and one for
  \<open>"descent"\<close>, and no default case.
\<close>

definition euler_break :: "string \<Rightarrow> real \<Rightarrow> bool" where
  "euler_break phase h =
     (if phase = ''climb'' then 10000 \<le> h
      else if phase = ''descent'' then h \<le> 1000
      else False)"

text \<open>
  The \<open>while True\<close> loop. It has no bound on the number of passes, so it is a partial
  function: \<open>None\<close> stands for a loop that never ends. A pass looks the atmosphere up at
  the altitude it starts with, which the previous pass or the initialisation has looked
  up already, and then at the new altitude (\<open>tas2cas(v_tas, h)\<close> on line 179): when the
  new altitude is outside the range of the lookup the pass raises there, before it
  appends anything and before the \<open>match\<close> statement. The loop ends with \<open>Inl\<close> of the
  exception or with \<open>Inr\<close> of the dictionary.
\<close>

partial_function (option) euler_loop ::
  "atmosphere \<Rightarrow> aerodynamic_char \<Rightarrow> euler_frame \<Rightarrow> sim_state \<Rightarrow> euler_res
     \<Rightarrow> (py_error + euler_res) option" where
  "euler_loop A C F s r =
    (case euler_step A C F s of (s', aoa, theta) \<Rightarrow>
       if \<not> Atmosphere_accepts (st_h s') then Some (Inl (Atmosphere_ValueError (st_h s')))
       else
         (let r' = euler_append r s' aoa theta
          in if euler_break (ef_phase F) (st_h s') then Some (Inr r')
             else euler_loop A C F s' r'))"

text \<open>Lines 102 to 123: the state at \<open>t = 0\<close>, with \<open>gamma\<close> from the steady trim.\<close>

definition euler_init_state ::
  "atmosphere \<Rightarrow> aerodynamic_char \<Rightarrow> ics \<Rightarrow> string \<Rightarrow> sim_state" where
  "euler_init_state A C i phase =
    (let x = ics_x i;
         h = ics_h i;
         w = ics_w i;
         v_ias = ics_v_ias i;
         v_tas = cas2tas A v_ias h;
         mach = cas2mach A v_ias h;
         gamma = gamma_steady_straight C
                   (kN_to_N (4 * max_thrust_model A Max_Thrust_SE_SL BPR h mach
                               * thrust_app_perc phase))
                   (drag C v_ias h (c_l_steady A v_ias h w S) S)
                   w
     in \<lparr>st_t = 0, st_x = x, st_h = h, st_w = w, st_m_f_burnt = 0, st_v_ias = v_ias,
         st_v_tas = v_tas, st_mach = mach, st_gamma = gamma\<rparr>)"

definition euler_frame_of ::
  "aerodynamic_char \<Rightarrow> ics \<Rightarrow> real
     \<Rightarrow> (real \<Rightarrow> real \<Rightarrow> real \<Rightarrow> real \<Rightarrow> real \<Rightarrow> real \<Rightarrow> string \<Rightarrow> real)
     \<Rightarrow> real \<Rightarrow> real \<Rightarrow> real \<Rightarrow> string \<Rightarrow> sim_state \<Rightarrow> euler_frame" where
  "euler_frame_of C i time_step pilot_control_model k_p v_ref cruise_mach phase s0 =
    (let aoa = aoa_steady_staight C (ics_v_ias i) (ics_h i) (ics_w i) S;
         theta_trim = aoa + st_gamma s0
     in \<lparr>ef_dt = time_step, ef_pilot_control_model = pilot_control_model, ef_k_p = k_p,
         ef_v_ref = v_ref, ef_cruise_mach = cruise_mach, ef_phase = phase,
         ef_theta_trim = theta_trim, ef_thrust_app_perc = thrust_app_perc phase\<rparr>)"

text \<open>Lines 126 to 137: \<open>res\<close> at \<open>t = 0\<close>.\<close>

definition euler_init_res :: "aerodynamic_char \<Rightarrow> ics \<Rightarrow> sim_state \<Rightarrow> euler_res" where
  "euler_init_res C i s0 =
    (let aoa = aoa_steady_staight C (ics_v_ias i) (ics_h i) (ics_w i) S;
         theta_trim = aoa + st_gamma s0
     in \<lparr>res_t = [st_t s0], res_x = [st_x s0], res_h = [st_h s0],
         res_v_tas = [st_v_tas s0], res_v_ias = [st_v_ias s0], res_mach = [st_mach s0],
         res_gamma = [st_gamma s0], res_fuel_burn = [st_m_f_burnt s0],
         res_aoa = [aoa], res_theta = [theta_trim]\<rparr>)"

text \<open>
  \<open>simulation_euler\<close> returns \<open>res\<close> when the loop breaks. The first lookup of the
  atmosphere is \<open>cas2tas(v_ias, h)\<close> on line 111, at the initial altitude: outside the
  range the call raises there. The file that \<open>serialize_and_write_results_file\<close> writes
  after the loop is not part of the value.
\<close>

definition simulation_euler ::
  "atmosphere \<Rightarrow> aerodynamic_char \<Rightarrow> ics \<Rightarrow> real
     \<Rightarrow> (real \<Rightarrow> real \<Rightarrow> real \<Rightarrow> real \<Rightarrow> real \<Rightarrow> real \<Rightarrow> string \<Rightarrow> real)
     \<Rightarrow> real \<Rightarrow> real \<Rightarrow> real \<Rightarrow> string \<Rightarrow> (py_error + euler_res) option" where
  "simulation_euler A C i time_step pilot_control_model k_p v_ref cruise_mach phase =
    (if \<not> Atmosphere_accepts (ics_h i) then Some (Inl (Atmosphere_ValueError (ics_h i)))
     else
       (let s0 = euler_init_state A C i phase;
            F = euler_frame_of C i time_step pilot_control_model k_p v_ref cruise_mach phase s0
        in euler_loop A C F s0 (euler_init_res C i s0)))"

text \<open>
  The result dictionary of \<open>simulation_descent_approach_euler\<close>: the keys \<open>t\<close>, \<open>x\<close>, \<open>h\<close>,
  \<open>v_ias\<close>, \<open>mach\<close>, \<open>fuel_burn\<close> start with the state at \<open>t = 0\<close>, the keys \<open>aoa\<close>,
  \<open>theta\<close>, \<open>thrust\<close> start empty.
\<close>

record approach_res =
  ares_t :: "real list"
  ares_x :: "real list"
  ares_h :: "real list"
  ares_v_ias :: "real list"
  ares_mach :: "real list"
  ares_fuel_burn :: "real list"
  ares_aoa :: "real list"
  ares_theta :: "real list"
  ares_thrust :: "real list"

text \<open>Lines 249 to 251: the thrust solved from the force balance on the glideslope.\<close>

definition approach_inst_thrust :: "atmosphere \<Rightarrow> aerodynamic_char \<Rightarrow> sim_state \<Rightarrow> real" where
  "approach_inst_thrust A C s =
    (let c_l = c_l_steady A (tas2cas A (st_v_tas s) (st_h s)) (st_h s) (st_w s) S;
         inst_drag = drag C (tas2cas A (st_v_tas s) (st_h s)) (st_h s) c_l S
     in inst_drag + (st_w s * sin (st_gamma s)))"

text \<open>
  Lines 244 to 266: one pass through the loop body up to the test of the screen height.
  It returns the new state with the \<open>aoa\<close>, \<open>theta\<close> and \<open>inst_thrust\<close> of the step. The
  variables \<open>v_tas\<close>, \<open>v_ias\<close> and \<open>gamma\<close> are not assigned in the loop.
\<close>

definition approach_step ::
  "atmosphere \<Rightarrow> aerodynamic_char \<Rightarrow> real \<Rightarrow> sim_state \<Rightarrow> sim_state \<times> real \<times> real \<times> real" where
  "approach_step A C dt s =
    (let aoa = aoa_steady_staight C (tas2cas A (st_v_tas s) (st_h s)) (st_h s) (st_w s) S;
         theta = aoa + st_gamma s;
         inst_thrust = approach_inst_thrust A C s;
         dh = st_v_tas s * sin (st_gamma s) * dt;
         dx = st_v_tas s * cos (st_gamma s) * dt;
         dm = - fuel_flow A inst_thrust (st_mach s) (st_h s) * dt;
         dw = dm * Grav_const;
         h' = st_h s + dh;
         x' = st_x s + dx;
         m_f_burnt' = st_m_f_burnt s + mg_to_g \<bar>dm\<bar>;
         w' = st_w s + mg_m_per_s2_to_N dw;
         t' = st_t s + dt;
         mach' = tas2mach A (st_v_tas s) h'
     in (s\<lparr>st_t := t', st_x := x', st_h := h', st_w := w', st_m_f_burnt := m_f_burnt',
           st_mach := mach'\<rparr>,
         aoa, theta, inst_thrust))"

text \<open>Lines 271 to 276: the entries appended when the loop goes on.\<close>

definition approach_append :: "atmosphere \<Rightarrow> approach_res \<Rightarrow> sim_state \<Rightarrow> approach_res" where
  "approach_append A r s =
     r\<lparr>ares_t := ares_t r @ [st_t s], ares_x := ares_x r @ [st_x s],
       ares_h := ares_h r @ [st_h s],
       ares_v_ias := ares_v_ias r @ [tas2cas A (st_v_tas s) (st_h s)],
       ares_mach := ares_mach r @ [st_mach s],
       ares_fuel_burn := ares_fuel_burn r @ [st_m_f_burnt s]\<rparr>"

text \<open>
  The \<open>while True\<close> loop of the approach. The lookup at the new altitude is
  \<open>tas2mach(v_tas, h)\<close> on line 266, before the test of the screen height: outside the
  range of the lookup the pass raises there.
\<close>

partial_function (option) approach_loop ::
  "atmosphere \<Rightarrow> aerodynamic_char \<Rightarrow> real \<Rightarrow> real \<Rightarrow> sim_state \<Rightarrow> approach_res
     \<Rightarrow> (py_error + approach_res) option" where
  "approach_loop A C dt screen_h s r =
    (case approach_step A C dt s of (s', aoa, theta, inst_thrust) \<Rightarrow>
       if \<not> Atmosphere_accepts (st_h s') then Some (Inl (Atmosphere_ValueError (st_h s')))
       else
         (let r1 = r\<lparr>ares_aoa := ares_aoa r @ [aoa], ares_theta := ares_theta r @ [theta],
                      ares_thrust := ares_thrust r @ [inst_thrust]\<rparr>
          in if st_h s' \<le> screen_h then Some (Inr r1)
             else approach_loop A C dt screen_h s' (approach_append A r1 s')))"

text \<open>Lines 216 to 227; \<open>glideslope_angle\<close> is taken in radians.\<close>

definition approach_init_state :: "atmosphere \<Rightarrow> ics \<Rightarrow> real \<Rightarrow> real \<Rightarrow> sim_state" where
  "approach_init_state A i v_ref glideslope_angle =
    (let x = ics_x i;
         h = ics_h i;
         w = ics_w i;
         v_tas = v_ref;
         v_ias = tas2cas A v_tas h;
         mach = tas2mach A v_tas h;
         gamma = - 1 * glideslope_angle
     in \<lparr>st_t = 0, st_x = x, st_h = h, st_w = w, st_m_f_burnt = 0, st_v_ias = v_ias,
         st_v_tas = v_tas, st_mach = mach, st_gamma = gamma\<rparr>)"

definition approach_init_res :: "sim_state \<Rightarrow> approach_res" where
  "approach_init_res s0 =
     \<lparr>ares_t = [st_t s0], ares_x = [st_x s0], ares_h = [st_h s0],
      ares_v_ias = [st_v_ias s0], ares_mach = [st_mach s0],
      ares_fuel_burn = [st_m_f_burnt s0], ares_aoa = [], ares_theta = [],
      ares_thrust = []\<rparr>"

text \<open>
  The argument \<open>phase\<close> only names the result file. The first lookup of the atmosphere is
  \<open>tas2cas(v_tas, h)\<close> on line 225, at the initial altitude.
\<close>

definition simulation_descent_approach_euler ::
  "atmosphere \<Rightarrow> aerodynamic_char \<Rightarrow> ics \<Rightarrow> real \<Rightarrow> real \<Rightarrow> real \<Rightarrow> real \<Rightarrow> string
     \<Rightarrow> (py_error + approach_res) option" where
  "simulation_descent_approach_euler A C i time_step v_ref glideslope_angle screen_h phase =
    (if \<not> Atmosphere_accepts (ics_h i) then Some (Inl (Atmosphere_ValueError (ics_h i)))
     else
       (let s0 = approach_init_state A i v_ref glideslope_angle
        in approach_loop A C time_step screen_h s0 (approach_init_res s0)))"

subsection \<open>Loading a stored result or running the simulation\<close>

text \<open>
  \<open>load_or_run_simulation(simulation, **kwargs)\<close> takes the keyword arguments as a
  dictionary. The values the function looks at are strings, quantities and the \<open>ics\<close>
  dictionary; anything else (the callable control model) is opaque.
\<close>

datatype pyval = PStr string | PQty real | PIcs ics | PCallable

text \<open>
  A stored or returned result: for each key the magnitudes and the unit string. The
  outside world is the directory of result files together with the record of every
  access to it and of every line printed.
\<close>

type_synonym result = "(string \<times> real list \<times> string) list"

datatype event = Path_exists string | Open_read string | Print string

record world =
  wd_files :: "string \<rightharpoonup> result"
  wd_events :: "event list"

definition emit :: "event list \<Rightarrow> world \<Rightarrow> world" where
  "emit es wd = wd\<lparr>wd_events := wd_events wd @ es\<rparr>"

text \<open>\<open>str(int(n))\<close>: the decimal digits of an integer.\<close>

function nat_digits :: "nat \<Rightarrow> string" where
  "nat_digits n =
     (if n < 10 then [''0123456789'' ! n]
      else nat_digits (n div 10) @ [''0123456789'' ! (n mod 10)])"
  by pat_completeness auto
termination
  by (relation "measure id") auto

definition str_int :: "int \<Rightarrow> string" where
  "str_int k = (if k < 0 then ''-'' @ nat_digits (nat (- k)) else nat_digits (nat k))"

definition result_file_path :: "string \<Rightarrow> real \<Rightarrow> real \<Rightarrow> string" where
  "result_file_path phase w v_ref =
     ''simulation_results'' @ ''/'' @
       (phase @ ''_'' @ str_int (rint w) @ ''_'' @ str_int (rint v_ref)
          @ ''_simulation_result.json'')"

definition invalid_phase_message :: string where
  "invalid_phase_message =
     ''Phase must be either '' @ [CHR 0x27] @ ''climb'' @ [CHR 0x27] @ '', ''
       @ [CHR 0x27] @ ''descent'' @ [CHR 0x27] @ '', or ''
       @ [CHR 0x27] @ ''descent_approach'' @ [CHR 0x27] @ ''.''"

text \<open>
  Lines 308 to 342. A missing keyword raises \<open>KeyError\<close>; the three lookups come before
  the test of the phase. A run of \<open>simulation\<close> that does not return makes the whole call
  not return (\<open>None\<close>); an exception of \<open>simulation\<close> propagates.
\<close>

definition load_or_run_simulation ::
  "((string \<rightharpoonup> pyval) \<Rightarrow> world \<Rightarrow> ((py_error + result) \<times> world) option)
     \<Rightarrow> (string \<rightharpoonup> pyval) \<Rightarrow> world \<Rightarrow> ((py_error + result) \<times> world) option" where
  "load_or_run_simulation simulation kwargs wd =
    (case kwargs ''phase'' of
       None \<Rightarrow> Some (Inl (KeyError ''phase''), wd)
     | Some phase \<Rightarrow>
    (case kwargs ''ics'' of
       None \<Rightarrow> Some (Inl (KeyError ''ics''), wd)
     | Some ics_v \<Rightarrow>
    (case kwargs ''v_ref'' of
       None \<Rightarrow> Some (Inl (KeyError ''v_ref''), wd)
     | Some v_ref \<Rightarrow>
       if phase \<notin> set [PStr ''climb'', PStr ''descent'', PStr ''descent_approach'']
       then Some (Inl (ValueError invalid_phase_message), wd)
       else
        (case (phase, ics_v, v_ref) of
           (PStr ph, PIcs i, PQty v) \<Rightarrow>
             (let file_path = result_file_path ph (ics_w i) v;
                  wd1 = emit [Path_exists file_path] wd
              in case wd_files wd file_path of
                   Some loaded_res \<Rightarrow>
                     Some (Inr loaded_res,
                           emit [Print ''Simulation results file found'',
                                 Open_read file_path,
                                 Print ''Simulation results loaded''] wd1)
                 | None \<Rightarrow>
                     (case simulation kwargs
                             (emit [Print ''No simulation results file found'',
                                    Print (''Running simulation to generate results file for ''
                                             @ ph @ '' phase....'')] wd1) of
                        None \<Rightarrow> None
                      | Some (Inl e, wd2) \<Rightarrow> Some (Inl e, wd2)
                      | Some (Inr res, wd2) \<Rightarrow>
                          Some (Inr res, emit [Print ''Simulation completed''] wd2)))
         | _ \<Rightarrow> Some (Inl TypeError, wd)))))"

section \<open>Runs as sequences of steps\<close>

text \<open>
  The state after a pass of a loop, the dictionary that \<open>n\<close> passes without a \<open>break\<close>
  leave behind, and the index of the pass at which the loop breaks: pass \<open>n\<close> (counted
  from 0) is the first whose new altitude meets the stop condition, and the lookup
  accepts the new altitude of every pass up to it. The loop raises at pass \<open>n\<close> when that
  is the first pass whose new altitude the lookup refuses and no earlier pass breaks.
  The fuel burnt by a pass is \<open>|fuel_flow \<cdot> dt|\<close>, in grams.
\<close>

definition euler_next :: "atmosphere \<Rightarrow> aerodynamic_char \<Rightarrow> euler_frame \<Rightarrow> sim_state \<Rightarrow> sim_state" where
  "euler_next A C F s = fst (euler_step A C F s)"

fun euler_res_after ::
  "atmosphere \<Rightarrow> aerodynamic_char \<Rightarrow> euler_frame \<Rightarrow> sim_state \<Rightarrow> euler_res \<Rightarrow> nat \<Rightarrow> euler_res" where
  "euler_res_after A C F s r 0 = r"
| "euler_res_after A C F s r (Suc n) =
     (case euler_step A C F s of (s', aoa, theta) \<Rightarrow>
        euler_res_after A C F s' (euler_append r s' aoa theta) n)"

definition euler_stops_at :: "atmosphere \<Rightarrow> aerodynamic_char \<Rightarrow> euler_frame \<Rightarrow> sim_state \<Rightarrow> nat \<Rightarrow> bool" where
  "euler_stops_at A C F s n \<longleftrightarrow>
     euler_break (ef_phase F) (st_h ((euler_next A C F ^^ Suc n) s))
     \<and> Atmosphere_accepts (st_h ((euler_next A C F ^^ Suc n) s))
     \<and> (\<forall>k<n. Atmosphere_accepts (st_h ((euler_next A C F ^^ Suc k) s))
               \<and> \<not> euler_break (ef_phase F) (st_h ((euler_next A C F ^^ Suc k) s)))"

definition euler_raises_at :: "atmosphere \<Rightarrow> aerodynamic_char \<Rightarrow> euler_frame \<Rightarrow> sim_state \<Rightarrow> nat \<Rightarrow> bool" where
  "euler_raises_at A C F s n \<longleftrightarrow>
     \<not> Atmosphere_accepts (st_h ((euler_next A C F ^^ Suc n) s))
     \<and> (\<forall>k<n. Atmosphere_accepts (st_h ((euler_next A C F ^^ Suc k) s))
               \<and> \<not> euler_break (ef_phase F) (st_h ((euler_next A C F ^^ Suc k) s)))"

definition euler_burn :: "atmosphere \<Rightarrow> euler_frame \<Rightarrow> sim_state \<Rightarrow> real" where
  "euler_burn A F s =
     mg_to_g \<bar>fuel_flow A (euler_inst_thrust A F s) (st_mach s) (st_h s) * ef_dt F\<bar>"

definition approach_burn :: "atmosphere \<Rightarrow> aerodynamic_char \<Rightarrow> real \<Rightarrow> sim_state \<Rightarrow> real" where
  "approach_burn A C dt s =
     mg_to_g \<bar>fuel_flow A (approach_inst_thrust A C s) (st_mach s) (st_h s) * dt\<bar>"

definition approach_next :: "atmosphere \<Rightarrow> aerodynamic_char \<Rightarrow> real \<Rightarrow> sim_state \<Rightarrow> sim_state" where
  "approach_next A C dt s = fst (approach_step A C dt s)"

fun approach_res_after ::
  "atmosphere \<Rightarrow> aerodynamic_char \<Rightarrow> real \<Rightarrow> sim_state \<Rightarrow> approach_res \<Rightarrow> nat \<Rightarrow> approach_res" where
  "approach_res_after A C dt s r 0 = r"
| "approach_res_after A C dt s r (Suc n) =
     (case approach_step A C dt s of (s', aoa, theta, inst_thrust) \<Rightarrow>
        approach_res_after A C dt s'
          (approach_append A
             (r\<lparr>ares_aoa := ares_aoa r @ [aoa], ares_theta := ares_theta r @ [theta],
                ares_thrust := ares_thrust r @ [inst_thrust]\<rparr>) s') n)"

definition approach_final ::
  "atmosphere \<Rightarrow> aerodynamic_char \<Rightarrow> real \<Rightarrow> sim_state \<Rightarrow> approach_res \<Rightarrow> approach_res" where
  "approach_final A C dt s r =
     (case approach_step A C dt s of (s', aoa, theta, inst_thrust) \<Rightarrow>
        r\<lparr>ares_aoa := ares_aoa r @ [aoa], ares_theta := ares_theta r @ [theta],
          ares_thrust := ares_thrust r @ [inst_thrust]\<rparr>)"

definition approach_stops_at ::
  "atmosphere \<Rightarrow> aerodynamic_char \<Rightarrow> real \<Rightarrow> real \<Rightarrow> sim_state \<Rightarrow> nat \<Rightarrow> bool" where
  "approach_stops_at A C dt screen_h s n \<longleftrightarrow>
     st_h ((approach_next A C dt ^^ Suc n) s) \<le> screen_h
     \<and> Atmosphere_accepts (st_h ((approach_next A C dt ^^ Suc n) s))
     \<and> (\<forall>k<n. Atmosphere_accepts (st_h ((approach_next A C dt ^^ Suc k) s))
               \<and> \<not> st_h ((approach_next A C dt ^^ Suc k) s) \<le> screen_h)"

definition approach_raises_at ::
  "atmosphere \<Rightarrow> aerodynamic_char \<Rightarrow> real \<Rightarrow> real \<Rightarrow> sim_state \<Rightarrow> nat \<Rightarrow> bool" where
  "approach_raises_at A C dt screen_h s n \<longleftrightarrow>
     \<not> Atmosphere_accepts (st_h ((approach_next A C dt ^^ Suc n) s))
     \<and> (\<forall>k<n. Atmosphere_accepts (st_h ((approach_next A C dt ^^ Suc k) s))
               \<and> \<not> st_h ((approach_next A C dt ^^ Suc k) s) \<le> screen_h)"

section \<open>The formulas as the specification words them\<close>

text \<open>
  The specification names the pieces of the thrust lapse: the pressure ratio \<open>\<delta>\<close>, the
  polynomials \<open>A(\<delta>)\<close>, \<open>X(\<delta>)\<close>, \<open>Z(\<delta>)\<close> (with the coefficients of the source) and
  \<open>G0 = 0.6375 + 0.0604 \<cdot> BPR\<close>.
\<close>

definition G0 :: "real \<Rightarrow> real" where
  "G0 bpr = 0.6375 + 0.0604 * bpr"

definition A_coef :: "real \<Rightarrow> real" where
  "A_coef delta = - 0.4327 * delta ^ 2 + 1.3855 * delta + 0.0472"

definition X_coef :: "real \<Rightarrow> real" where
  "X_coef delta = 0.9106 * delta ^ 3 - 1.7736 * delta ^ 2 + 1.8697 * delta"

definition Z_coef :: "real \<Rightarrow> real" where
  "Z_coef delta = 0.1377 * delta ^ 3 - 0.4374 * delta ^ 2 + 1.3003 * delta"

definition thrust_max_formula :: "real \<Rightarrow> real \<Rightarrow> real \<Rightarrow> real \<Rightarrow> real" where
  "thrust_max_formula thrust_sea_level bpr delta mach =
     (A_coef delta
        - Z_coef delta * mach * 0.377 * (1 + bpr) / sqrt (G0 bpr * (1 + 0.82 * bpr))
        + (0.23 + 0.19 * sqrt bpr) * X_coef delta * mach ^ 2) * thrust_sea_level"

text \<open>
  The thrust-specific fuel consumption \<open>c_t = 11 \<cdot> (1 + mach) \<cdot> sqrt(T_h / T_sl)\<close>, in mg/s
  per newton.
\<close>

definition tsfc :: "atmosphere \<Rightarrow> real \<Rightarrow> real \<Rightarrow> real" where
  "tsfc A mach h = 11 * (1 + mach) * sqrt (temperature A h / temperature A 0)"

text \<open>
  The two speed targets of the control law: in a climb the reference speed until the
  Mach number (rounded to 2 decimals) reaches the cruise Mach number and the calibrated
  airspeed of the cruise Mach number from then on; in a descent the other way round,
  switched by the rounded indicated airspeed.
\<close>

definition climb_target :: "atmosphere \<Rightarrow> real \<Rightarrow> real \<Rightarrow> real \<Rightarrow> real \<Rightarrow> real" where
  "climb_target A v_ref v_ias h cruise_mach =
     (if np_round 2 (cas2mach A v_ias h) < cruise_mach then v_ref
      else tas2cas A (cruise_mach * speed_of_sound A h) h)"

definition descent_target :: "atmosphere \<Rightarrow> real \<Rightarrow> real \<Rightarrow> real \<Rightarrow> real \<Rightarrow> real" where
  "descent_target A v_ref v_ias h cruise_mach =
     (if np_round 0 v_ias < v_ref then tas2cas A (cruise_mach * speed_of_sound A h) h
      else v_ref)"

text \<open>
  The airspeed conversions before their final \<open>np.round\<close>, and the pitot relation that
  both instantiate: a speed \<open>v\<close> in a medium with density over pressure \<open>k1\<close> gives the
  speed in a medium with density over pressure \<open>k2\<close>, where \<open>r\<close> is the ratio of the first
  pressure to the second.
\<close>

definition cas2tas_exact :: "atmosphere \<Rightarrow> real \<Rightarrow> real \<Rightarrow> real" where
  "cas2tas_exact A v_cas h =
    (let rho_at_h = density A h;
         rho_at_sl = density A 0;
         p_at_h = pressure A h;
         p_at_sl = pressure A 0;
         gamma = 1.4;
         g_r = gamma / (gamma - 1);
         p1 = 1 + ((2 * g_r) powr (- 1)) * (rho_at_sl / p_at_sl) * v_cas ^ 2;
         p2 = p1 powr g_r;
         p3 = (1 + (p_at_sl / p_at_h) * (p2 - 1)) powr (1 / g_r)
     in sqrt (2 * g_r * (p_at_h / rho_at_h) * (p3 - 1)))"

definition tas2cas_exact :: "atmosphere \<Rightarrow> real \<Rightarrow> real \<Rightarrow> real" where
  "tas2cas_exact A v_tas h =
    (let rho_at_h = density A h;
         rho_at_sl = density A 0;
         p_at_h = pressure A h;
         p_at_sl = pressure A 0;
         gamma = 1.4;
         g_r = gamma / (gamma - 1);
         p1 = 1 + ((2 * g_r) powr (- 1)) * (rho_at_h / p_at_h) * v_tas ^ 2;
         p2 = p1 powr g_r - 1;
         p3 = ((p_at_h / p_at_sl) * p2 + 1) powr (1 / g_r);
         p4 = p3 - 1
     in sqrt (2 * g_r * (p_at_sl / rho_at_sl) * p4))"

definition pitot :: "real \<Rightarrow> real \<Rightarrow> real \<Rightarrow> real \<Rightarrow> real" where
  "pitot k1 k2 r v =
     sqrt (7 * (1 / k2) * ((1 + r * ((1 + (1 / 7) * k1 * v ^ 2) powr (7 / 2) - 1)) powr (2 / 7) - 1))"

section \<open>An atmosphere as it is at and above sea level\<close>

text \<open>
  The standard atmosphere has positive pressure, density, temperature and speed of sound,
  and at no altitude at or above sea level more pressure than at sea level. Theorems that
  need this of the atmosphere say so with \<open>fair_air\<close>; nothing is asked of altitudes below
  sea level.
\<close>

definition fair_air :: "atmosphere \<Rightarrow> bool" where
  "fair_air A \<longleftrightarrow>
     (\<forall>h\<ge>0. 0 < pressure A h \<and> pressure A h \<le> pressure A 0 \<and> 0 < density A h
            \<and> 0 < temperature A h \<and> 0 < speed_of_sound A h)"

section \<open>Test doubles for the external collaborators\<close>

text \<open>
  Concrete inputs need a concrete atmosphere and concrete aerodynamic characteristics.
  \<open>sea_level_air\<close> answers every lookup with the sea-level values of the standard
  atmosphere. \<open>flat_aero\<close> has a drag of 150 kN, a trim angle of attack of 0.05 rad and a
  trim flight-path angle of 30 degrees.
\<close>

definition sea_level_air :: atmosphere where
  "sea_level_air =
     \<lparr>density = (\<lambda>h. 1.225), pressure = (\<lambda>h. 101325), temperature = (\<lambda>h. 288.15),
      speed_of_sound = (\<lambda>h. 340.294)\<rparr>"

definition flat_aero :: aerodynamic_char where
  "flat_aero =
     \<lparr>aoa_steady_staight = (\<lambda>v_ias h w s. 0.05), drag = (\<lambda>v_ias h c_l s. 150000),
      gamma_steady_straight = (\<lambda>thrust drg w. pi / 6)\<rparr>"

text \<open>Keyword arguments with a phase that is not recognised.\<close>

definition demo_kwargs :: "string \<rightharpoonup> pyval" where
  "demo_kwargs =
     [''phase'' \<mapsto> PStr ''cruise'',
      ''ics'' \<mapsto> PIcs \<lparr>ics_x = 0, ics_h = 0, ics_w = 3600000, ics_v_ias = 130\<rparr>,
      ''v_ref'' \<mapsto> PQty 130]"

text \<open>
  Initial conditions: a climb that starts 50 m below the cruise altitude, a climb that
  starts on the ground, and an approach that starts 100 m up.
\<close>

definition climb_ics :: ics where
  "climb_ics = \<lparr>ics_x = 0, ics_h = 9950, ics_w = 3600000, ics_v_ias = 200\<rparr>"

definition ground_ics :: ics where
  "ground_ics = \<lparr>ics_x = 0, ics_h = 0, ics_w = 3600000, ics_v_ias = 130\<rparr>"

definition approach_ics :: ics where
  "approach_ics = \<lparr>ics_x = 0, ics_h = 100, ics_w = 2000000, ics_v_ias = 60\<rparr>"

text \<open>
  An atmosphere with the sea-level values below 1000 m and the values of the standard
  atmosphere at 2000 m from there on.
\<close>

definition two_layer_air :: atmosphere where
  "two_layer_air =
     \<lparr>density = (\<lambda>h. if h < 1000 then 1.225 else 1.0065),
      pressure = (\<lambda>h. if h < 1000 then 101325 else 79495),
      temperature = (\<lambda>h. if h < 1000 then 288.15 else 275.15),
      speed_of_sound = (\<lambda>h. if h < 1000 then 340.294 else 332.529)\<rparr>"

section \<open>Rounding\<close>

lemma rint_cases:
  "rint x = \<lfloor>x\<rfloor> \<or> rint x = \<lfloor>x\<rfloor> + 1"
  by (simp add: rint_def Let_def)

lemma rint_lower: "x - 1 / 2 \<le> of_int (rint x)"
  unfolding rint_def Let_def by (auto; linarith)

lemma rint_upper: "of_int (rint x) \<le> x + 1 / 2"
  unfolding rint_def Let_def by (auto; linarith)

lemma rint_of_int [simp]: "rint (of_int k) = k"
  by (simp add: rint_def)

lemma rint_nonneg: "0 \<le> x \<Longrightarrow> 0 \<le> rint x"
  unfolding rint_def Let_def by (auto; linarith)

lemma rint_nonpos: "x \<le> 0 \<Longrightarrow> rint x \<le> 0"
proof -
  assume x: "x \<le> 0"
  show ?thesis
  proof (cases "x = 0")
    case True then show ?thesis using rint_of_int [of 0] by simp
  next
    case False
    with x have "x < 0" by simp
    then have f: "\<lfloor>x\<rfloor> \<le> - 1" by linarith
    show ?thesis
    proof (cases "\<lfloor>x\<rfloor> = - 1")
      case True
      then show ?thesis using \<open>x < 0\<close> unfolding rint_def Let_def by (auto; linarith)
    next
      case False
      with f have "\<lfloor>x\<rfloor> \<le> - 2" by linarith
      then show ?thesis using rint_cases [of x] by linarith
    qed
  qed
qed

lemma np_round_nonneg: "0 \<le> x \<Longrightarrow> 0 \<le> np_round d x"
  unfolding np_round_def by (simp add: rint_nonneg)

lemma np_round_nonpos: "x \<le> 0 \<Longrightarrow> np_round d x \<le> 0"
  unfolding np_round_def
  by (simp add: rint_nonpos divide_nonpos_pos mult_nonpos_nonneg)

lemma np_round_error: "\<bar>np_round d x - x\<bar> \<le> 1 / (2 * 10 ^ d)"
proof -
  have p: "(0::real) < 10 ^ d" by simp
  have l: "x * 10 ^ d - 1 / 2 \<le> of_int (rint (x * 10 ^ d))" by (rule rint_lower)
  have u: "of_int (rint (x * 10 ^ d)) \<le> x * 10 ^ d + 1 / 2" by (rule rint_upper)
  have "\<bar>of_int (rint (x * 10 ^ d)) - x * 10 ^ d\<bar> \<le> 1 / 2" using l u by linarith
  then have "\<bar>of_int (rint (x * 10 ^ d)) - x * 10 ^ d\<bar> / 10 ^ d \<le> (1 / 2) / 10 ^ d"
    using p by (intro divide_right_mono) simp_all
  moreover have "\<bar>of_int (rint (x * 10 ^ d)) - x * 10 ^ d\<bar> / 10 ^ d = \<bar>np_round d x - x\<bar>"
  proof -
    have "np_round d x - x = (of_int (rint (x * 10 ^ d)) - x * 10 ^ d) / 10 ^ d"
      unfolding np_round_def using p by (simp add: field_simps)
    then show ?thesis using p by (simp add: abs_divide)
  qed
  ultimately show ?thesis by simp
qed

lemma np_round_exact: "np_round d (of_int k / 10 ^ d) = of_int k / 10 ^ d"
  by (simp add: np_round_def)

lemma np_round_0 [simp]: "np_round d 0 = 0"
  using rint_of_int [of 0] by (simp add: np_round_def)

section \<open>The test doubles\<close>

lemma sea_level_air_simps [simp]:
  "density sea_level_air h = 1.225" "pressure sea_level_air h = 101325"
  "temperature sea_level_air h = 288.15" "speed_of_sound sea_level_air h = 340.294"
  by (simp_all add: sea_level_air_def)

lemma sin_pi_6: "sin (pi / 6) = 1 / 2"
  by (simp add: sin_30)

lemma flat_aero_simps [simp]:
  "gamma_steady_straight flat_aero t d w = pi / 6"
  "drag flat_aero v h c s = 150000"
  "aoa_steady_staight flat_aero v h w s = 5 / 100"
  by (simp_all add: flat_aero_def)

section \<open>Thrust lapse\<close>

lemma max_thrust_model_eq:
  "max_thrust_model A thrust_sl bpr h mach =
     np_round 4 (thrust_max_formula thrust_sl bpr (pressure A h / pressure A 0) mach)"
  unfolding max_thrust_model_def thrust_max_formula_def A_coef_def X_coef_def
        Z_coef_def G0_def Let_def
  by (simp only: mult.assoc)

lemma A_coef_1: "A_coef 1 = 1"
  by (simp add: A_coef_def)

text \<open>
  C6: \<open>max_thrust_model\<close> returns the thrust-lapse formula of the specification at the
  pressure ratio of the altitude, rounded to 4 decimals. At altitude 0 and Mach 0 with a
  bypass ratio of 5 the value is \<open>thrust_sl \<cdot> A(1)\<close> rounded to 4 decimals, hence within
  0.00005 of \<open>thrust_sl \<cdot> A(1)\<close>, and equal to it when \<open>thrust_sl\<close> has at most 4 decimals.
  The sea-level pressure of the atmosphere must not be zero.
\<close>

theorem max_thrust_model_formula:
  assumes "pressure A 0 \<noteq> 0"
  shows "max_thrust_model A thrust_sl bpr h mach =
           np_round 4 (thrust_max_formula thrust_sl bpr (pressure A h / pressure A 0) mach)
         \<and> max_thrust_model A thrust_sl 5 0 0 = np_round 4 (thrust_sl * A_coef 1)
         \<and> \<bar>max_thrust_model A thrust_sl 5 0 0 - thrust_sl * A_coef 1\<bar> \<le> 1 / 20000
         \<and> (\<forall>k. thrust_sl = of_int k / 10 ^ 4
                \<longrightarrow> max_thrust_model A thrust_sl 5 0 0 = thrust_sl * A_coef 1)"
proof -
  have f: "thrust_max_formula thrust_sl 5 (pressure A 0 / pressure A 0) 0 = thrust_sl * A_coef 1"
    using assms by (simp add: thrust_max_formula_def)
  have e: "max_thrust_model A thrust_sl 5 0 0 = np_round 4 (thrust_sl * A_coef 1)"
    using f by (simp add: max_thrust_model_eq)
  have "\<bar>np_round 4 (thrust_sl * A_coef 1) - thrust_sl * A_coef 1\<bar> \<le> 1 / (2 * 10 ^ 4)"
    by (rule np_round_error)
  then have b: "\<bar>max_thrust_model A thrust_sl 5 0 0 - thrust_sl * A_coef 1\<bar> \<le> 1 / 20000"
    unfolding e by simp
  have x: "max_thrust_model A thrust_sl 5 0 0 = thrust_sl * A_coef 1"
    if k: "thrust_sl = of_int k / 10 ^ 4" for k
  proof -
    have "thrust_sl * A_coef 1 = of_int k / 10 ^ 4"
      unfolding A_coef_1 k by (rule mult_1_right)
    then show ?thesis
      unfolding e by (simp only: np_round_exact)
  qed
  have m: "max_thrust_model A thrust_sl bpr h mach =
           np_round 4 (thrust_max_formula thrust_sl bpr (pressure A h / pressure A 0) mach)"
    by (rule max_thrust_model_eq)
  show ?thesis using m e b x by blast
qed

theorem max_thrust_model_formula_witness:
  "pressure sea_level_air 0 \<noteq> 0 \<and> (270::real) = of_int 2700000 / 10 ^ 4
   \<and> max_thrust_model sea_level_air 270 5 0 0 = 270 * A_coef 1
   \<and> max_thrust_model sea_level_air 270 5 0 0 = 270"
proof -
  have p: "pressure sea_level_air 0 \<noteq> 0" by simp
  have k: "(270::real) = of_int 2700000 / 10 ^ 4" by simp
  from max_thrust_model_formula [OF p, of 270 5 0 0]
  have "\<forall>k. (270::real) = of_int k / 10 ^ 4
          \<longrightarrow> max_thrust_model sea_level_air 270 5 0 0 = 270 * A_coef 1"
    by (elim conjE)
  then have "(270::real) = of_int 2700000 / 10 ^ 4
          \<longrightarrow> max_thrust_model sea_level_air 270 5 0 0 = 270 * A_coef 1"
    by (rule spec)
  then have e: "max_thrust_model sea_level_air 270 5 0 0 = 270 * A_coef 1"
    using k by (rule mp)
  have "270 * A_coef 1 = 270" unfolding A_coef_1 by simp
  then have "max_thrust_model sea_level_air 270 5 0 0 = 270" using e by (rule subst)
  then show ?thesis using p k e by (intro conjI)
qed


section \<open>Airspeed conversions\<close>

lemma cas2tas_rounds: "cas2tas A v h = np_round 2 (cas2tas_exact A v h)"
  by (simp add: cas2tas_def cas2tas_exact_def Let_def)

lemma tas2cas_rounds: "tas2cas A v h = np_round 2 (tas2cas_exact A v h)"
  by (simp add: tas2cas_def tas2cas_exact_def Let_def)

lemma seven_powr_minus_one: "(7::real) powr (- 1) = 1 / 7"
  by (simp add: powr_minus_divide)

lemma cas2tas_exact_pitot:
  "cas2tas_exact A v h =
     pitot (density A 0 / pressure A 0) (density A h / pressure A h)
       (pressure A 0 / pressure A h) v"
  by (simp add: cas2tas_exact_def pitot_def Let_def seven_powr_minus_one)

lemma tas2cas_exact_pitot:
  "tas2cas_exact A v h =
     pitot (density A h / pressure A h) (density A 0 / pressure A 0)
       (pressure A h / pressure A 0) v"
  by (simp add: tas2cas_exact_def pitot_def Let_def seven_powr_minus_one add.commute)

lemma pitot_inner_ge_1:
  assumes "0 \<le> k1" "0 \<le> r"
  shows "1 \<le> (1 + r * ((1 + (1 / 7) * k1 * (v::real) ^ 2) powr (7 / 2) - 1)) powr (2 / 7)"
proof -
  have "1 \<le> 1 + (1 / 7) * k1 * v ^ 2" using assms(1) by simp
  then have "1 \<le> (1 + (1 / 7) * k1 * v ^ 2) powr (7 / 2)"
    by (rule ge_one_powr_ge_zero) simp
  then have "1 \<le> 1 + r * ((1 + (1 / 7) * k1 * v ^ 2) powr (7 / 2) - 1)"
    using assms by simp
  then show ?thesis by (rule ge_one_powr_ge_zero) simp
qed

lemma pitot_sq:
  assumes "0 \<le> k1" "0 < k2" "0 \<le> r"
  shows "(pitot k1 k2 r v) ^ 2 =
     7 * (1 / k2) * ((1 + r * ((1 + (1 / 7) * k1 * v ^ 2) powr (7 / 2) - 1)) powr (2 / 7) - 1)"
proof -
  have "0 \<le> (1 + r * ((1 + (1 / 7) * k1 * v ^ 2) powr (7 / 2) - 1)) powr (2 / 7) - 1"
    using pitot_inner_ge_1 [OF assms(1) assms(3), of v] by simp
  then have "0 \<le> 7 * (1 / k2) * ((1 + r * ((1 + (1 / 7) * k1 * v ^ 2) powr (7 / 2) - 1)) powr (2 / 7) - 1)"
    using assms(2) by simp
  then show ?thesis unfolding pitot_def by (rule real_sqrt_pow2)
qed

lemma pitot_inverse:
  assumes k1: "0 < k1" and k2: "0 < k2" and r: "0 < r"
  shows "pitot k2 k1 (1 / r) (pitot k1 k2 r v) = \<bar>v\<bar>"
proof -
  define P where "P = (1 + (1 / 7) * k1 * v ^ 2) powr (7 / 2)"
  define Y where "Y = (1 + r * (P - 1)) powr (2 / 7)"
  have b1: "0 < 1 + (1 / 7) * k1 * v ^ 2"
    using k1 by (intro add_pos_nonneg) simp_all
  have P1: "1 \<le> P" unfolding P_def
    using k1 by (intro ge_one_powr_ge_zero) simp_all
  have b2: "0 < 1 + r * (P - 1)"
    using r P1 by (intro add_pos_nonneg) simp_all
  have sq: "(pitot k1 k2 r v) ^ 2 = 7 * (1 / k2) * (Y - 1)"
    unfolding Y_def P_def using k1 k2 r by (intro pitot_sq) simp_all
  have "1 + (1 / 7) * k2 * (pitot k1 k2 r v) ^ 2 = Y"
    using k2 by (simp add: sq field_simps)
  moreover have "Y powr (7 / 2) = 1 + r * (P - 1)"
    unfolding Y_def using b2 by (simp add: powr_powr)
  moreover have "1 + (1 / r) * (1 + r * (P - 1) - 1) = P"
    using r by simp
  moreover have "P powr (2 / 7) = 1 + (1 / 7) * k1 * v ^ 2"
    unfolding P_def using b1 by (simp add: powr_powr)
  moreover have "7 * (1 / k1) * (1 + (1 / 7) * k1 * v ^ 2 - 1) = v ^ 2"
    using k1 by simp
  ultimately have "pitot k2 k1 (1 / r) (pitot k1 k2 r v) = sqrt (v ^ 2)"
    unfolding pitot_def by simp
  then show ?thesis by simp
qed

lemma pitot_same:
  assumes k: "0 < k"
  shows "pitot k k 1 v = \<bar>v\<bar>"
proof -
  have b1: "0 < 1 + (1 / 7) * k * v ^ 2"
    using k by (intro add_pos_nonneg) simp_all
  have "(1 + 1 * ((1 + (1 / 7) * k * v ^ 2) powr (7 / 2) - 1)) powr (2 / 7)
          = 1 + (1 / 7) * k * v ^ 2"
    using b1 by (simp add: powr_powr)
  moreover have "7 * (1 / k) * (1 + (1 / 7) * k * v ^ 2 - 1) = v ^ 2"
    using k by simp
  ultimately have "pitot k k 1 v = sqrt (v ^ 2)"
    unfolding pitot_def by simp
  then show ?thesis by simp
qed

lemma cas2tas_sea_level_air [simp]: "cas2tas sea_level_air v h = np_round 2 \<bar>v\<bar>"
  using pitot_same [of "1.225 / 101325" v]
  by (simp add: cas2tas_rounds cas2tas_exact_pitot)

lemma tas2cas_sea_level_air [simp]: "tas2cas sea_level_air v h = np_round 2 \<bar>v\<bar>"
  using pitot_same [of "1.225 / 101325" v]
  by (simp add: tas2cas_rounds tas2cas_exact_pitot)

section \<open>Pilot control law\<close>

text \<open>
  C4: for every input \<open>pilot_pitch_control\<close> returns \<open>k_p \<cdot> v_error + theta_trim\<close>, where
  \<open>v_error\<close> is the indicated airspeed minus the target of the phase: the climb target
  for \<open>"climb"\<close>, the descent target for \<open>"descent"\<close> (and for every other phase string,
  which the code sends down the descent branch).
\<close>

theorem pilot_pitch_control_law:
  "pilot_pitch_control A k_p theta_trim v_ref v_ias h cruise_mach phase =
     k_p * (v_ias - (if phase = ''climb'' then climb_target A v_ref v_ias h cruise_mach
                     else descent_target A v_ref v_ias h cruise_mach))
       + theta_trim"
  by (simp add: pilot_pitch_control_def climb_target_def descent_target_def Let_def)

theorem pilot_pitch_control_law_witness:
  "pilot_pitch_control sea_level_air (1 / 100) (1 / 10) 130 120 0 (85 / 100) ''climb'' = 0
   \<and> pilot_pitch_control sea_level_air (1 / 100) (1 / 10) 130 120 0 (85 / 100) ''descent''
        = 1 / 10 + (120 - np_round 2 (85 / 100 * 340.294)) / 100"
proof -
  have m: "np_round 2 (cas2mach sea_level_air 120 0) < 85 / 100"
    by (simp add: cas2mach_def Let_def np_round_def rint_def)
  have r: "np_round 0 120 < (130::real)"
    by (simp add: np_round_def rint_def Let_def)
  show ?thesis
    using pilot_pitch_control_law
            [of sea_level_air "1 / 100" "1 / 10" 130 120 0 "85 / 100" "''climb''"]
      pilot_pitch_control_law
            [of sea_level_air "1 / 100" "1 / 10" 130 120 0 "85 / 100" "''descent''"] m r
    by (simp add: climb_target_def descent_target_def)
qed


section \<open>The loops and their steps\<close>

lemma map_funpow_shift:
  "map (\<lambda>k. g ((f ^^ k) s)) [1..<Suc (Suc n)]
     = g (f s) # map (\<lambda>k. g ((f ^^ k) (f s))) [1..<Suc n]"
proof -
  have "[1..<Suc (Suc n)] = 1 # map Suc [1..<Suc n]"
    by (simp add: upt_conv_Cons map_Suc_upt del: upt_Suc)
  then show ?thesis
    by (simp add: funpow_swap1 comp_def del: upt_Suc)
qed

lemma map_funpow_from_0:
  "g s # map (\<lambda>k. g ((f ^^ k) s)) [1..<Suc n] = map (\<lambda>k. g ((f ^^ k) s)) [0..<Suc n]"
  by (simp add: upt_conv_Cons del: upt_Suc)

subsection \<open>The loop of simulation_euler\<close>

lemma euler_stops_at_0:
  "euler_stops_at A C F s 0 \<longleftrightarrow>
     euler_break (ef_phase F) (st_h (euler_next A C F s))
     \<and> Atmosphere_accepts (st_h (euler_next A C F s))"
  by (simp add: euler_stops_at_def)

lemma euler_stops_at_Suc:
  "euler_stops_at A C F s (Suc n) \<longleftrightarrow>
     Atmosphere_accepts (st_h (euler_next A C F s))
     \<and> \<not> euler_break (ef_phase F) (st_h (euler_next A C F s))
     \<and> euler_stops_at A C F (euler_next A C F s) n"
  unfolding euler_stops_at_def
  by (auto simp add: All_less_Suc2 funpow_swap1)

lemma euler_raises_at_0:
  "euler_raises_at A C F s 0 \<longleftrightarrow> \<not> Atmosphere_accepts (st_h (euler_next A C F s))"
  by (simp add: euler_raises_at_def)

lemma euler_raises_at_Suc:
  "euler_raises_at A C F s (Suc n) \<longleftrightarrow>
     Atmosphere_accepts (st_h (euler_next A C F s))
     \<and> \<not> euler_break (ef_phase F) (st_h (euler_next A C F s))
     \<and> euler_raises_at A C F (euler_next A C F s) n"
  unfolding euler_raises_at_def
  by (auto simp add: All_less_Suc2 funpow_swap1)

lemma euler_loop_Some_run:
  assumes "euler_loop A C F s r = Some y"
  shows "(\<exists>n. euler_stops_at A C F s n \<and> y = Inr (euler_res_after A C F s r (Suc n)))
       \<or> (\<exists>n. euler_raises_at A C F s n
              \<and> y = Inl (Atmosphere_ValueError (st_h ((euler_next A C F ^^ Suc n) s))))"
proof -
  define P where
    "P = (\<lambda>A C F s r y.
       (\<exists>n. euler_stops_at A C F s n \<and> y = Inr (euler_res_after A C F s r (Suc n)))
       \<or> (\<exists>n. euler_raises_at A C F s n
              \<and> y = Inl (Atmosphere_ValueError (st_h ((euler_next A C F ^^ Suc n) s)))))"
  have step: "P A C F s r y"
    if IH: "\<And>A C F s r y. loop A C F s r = Some y \<Longrightarrow> P A C F s r y"
      and eq: "(case euler_step A C F s of (s', aoa, theta) \<Rightarrow>
                 if \<not> Atmosphere_accepts (st_h s')
                 then Some (Inl (Atmosphere_ValueError (st_h s')))
                 else
                   (let r' = euler_append r s' aoa theta
                    in if euler_break (ef_phase F) (st_h s') then Some (Inr r')
                       else loop A C F s' r')) = Some y"
    for loop A C F s r y
  proof -
    obtain s' aoa theta where st: "euler_step A C F s = (s', aoa, theta)"
      by (cases "euler_step A C F s") auto
    then have nx: "euler_next A C F s = s'" by (simp add: euler_next_def)
    show ?thesis
    proof (cases "Atmosphere_accepts (st_h s')")
      case False
      with eq st have "y = Inl (Atmosphere_ValueError (st_h s'))" by simp
      then have "y = Inl (Atmosphere_ValueError (st_h ((euler_next A C F ^^ Suc 0) s)))"
        using nx by simp
      moreover have "euler_raises_at A C F s 0" using False nx by (simp add: euler_raises_at_0)
      ultimately show ?thesis unfolding P_def by blast
    next
      case acc: True
      show ?thesis
      proof (cases "euler_break (ef_phase F) (st_h s')")
        case True
        with eq st acc have "y = Inr (euler_append r s' aoa theta)" by simp
        then have "y = Inr (euler_res_after A C F s r (Suc 0))" using st by simp
        moreover have "euler_stops_at A C F s 0"
          using True acc nx by (simp add: euler_stops_at_0)
        ultimately show ?thesis unfolding P_def by blast
      next
        case False
        with eq st acc have "loop A C F s' (euler_append r s' aoa theta) = Some y" by simp
        from IH [OF this] have "P A C F s' (euler_append r s' aoa theta) y" .
        then consider
          n where "euler_stops_at A C F s' n"
            "y = Inr (euler_res_after A C F s' (euler_append r s' aoa theta) (Suc n))"
        | n where "euler_raises_at A C F s' n"
            "y = Inl (Atmosphere_ValueError (st_h ((euler_next A C F ^^ Suc n) s')))"
          unfolding P_def by blast
        then show ?thesis
        proof cases
          case 1
          have "euler_stops_at A C F s (Suc n)"
            using False acc 1(1) nx by (simp add: euler_stops_at_Suc)
          moreover have "y = Inr (euler_res_after A C F s r (Suc (Suc n)))"
            using 1(2) st by simp
          ultimately show ?thesis unfolding P_def by blast
        next
          case 2
          have "euler_raises_at A C F s (Suc n)"
            using False acc 2(1) nx by (simp add: euler_raises_at_Suc)
          moreover have "y = Inl (Atmosphere_ValueError
                                   (st_h ((euler_next A C F ^^ Suc (Suc n)) s)))"
            using 2(2) nx by (simp add: funpow_swap1)
          ultimately show ?thesis unfolding P_def by blast
        qed
      qed
    qed
  qed
  have "P A C F s r y"
    by (rule euler_loop.raw_induct [where P = P, OF step assms])
  then show ?thesis unfolding P_def .
qed

lemma euler_loop_Some_stops:
  assumes "euler_loop A C F s r = Some (Inr y)"
  shows "\<exists>n. euler_stops_at A C F s n \<and> y = euler_res_after A C F s r (Suc n)"
  using euler_loop_Some_run [OF assms] by auto

lemma euler_loop_Some_raises:
  assumes "euler_loop A C F s r = Some (Inl e)"
  shows "\<exists>n. euler_raises_at A C F s n
            \<and> e = Atmosphere_ValueError (st_h ((euler_next A C F ^^ Suc n) s))"
  using euler_loop_Some_run [OF assms] by auto

lemma euler_stops_loop_Some:
  "euler_stops_at A C F s n
     \<Longrightarrow> euler_loop A C F s r = Some (Inr (euler_res_after A C F s r (Suc n)))"
proof (induction n arbitrary: s r)
  case 0
  obtain s' aoa theta where st: "euler_step A C F s = (s', aoa, theta)"
    by (cases "euler_step A C F s") auto
  then have nx: "euler_next A C F s = s'" by (simp add: euler_next_def)
  from 0 nx have "euler_break (ef_phase F) (st_h s')" "Atmosphere_accepts (st_h s')"
    by (simp_all add: euler_stops_at_0)
  then show ?case using st by (subst euler_loop.simps) simp
next
  case (Suc n)
  obtain s' aoa theta where st: "euler_step A C F s = (s', aoa, theta)"
    by (cases "euler_step A C F s") auto
  then have nx: "euler_next A C F s = s'" by (simp add: euler_next_def)
  from Suc.prems nx have nb: "\<not> euler_break (ef_phase F) (st_h s')"
    and acc: "Atmosphere_accepts (st_h s')"
    and rest: "euler_stops_at A C F s' n"
    by (simp_all add: euler_stops_at_Suc)
  have "euler_loop A C F s r = euler_loop A C F s' (euler_append r s' aoa theta)"
    using st nb acc by (subst euler_loop.simps) simp
  also have "\<dots> = Some (Inr (euler_res_after A C F s' (euler_append r s' aoa theta) (Suc n)))"
    by (rule Suc.IH [OF rest])
  also have "euler_res_after A C F s' (euler_append r s' aoa theta) (Suc n)
               = euler_res_after A C F s r (Suc (Suc n))"
    using st by simp
  finally show ?case .
qed

lemma euler_raises_loop_Some:
  "euler_raises_at A C F s n
     \<Longrightarrow> euler_loop A C F s r
           = Some (Inl (Atmosphere_ValueError (st_h ((euler_next A C F ^^ Suc n) s))))"
proof (induction n arbitrary: s r)
  case 0
  obtain s' aoa theta where st: "euler_step A C F s = (s', aoa, theta)"
    by (cases "euler_step A C F s") auto
  then have nx: "euler_next A C F s = s'" by (simp add: euler_next_def)
  from 0 nx have "\<not> Atmosphere_accepts (st_h s')"
    by (simp add: euler_raises_at_0)
  then show ?case using st nx by (subst euler_loop.simps) simp
next
  case (Suc n)
  obtain s' aoa theta where st: "euler_step A C F s = (s', aoa, theta)"
    by (cases "euler_step A C F s") auto
  then have nx: "euler_next A C F s = s'" by (simp add: euler_next_def)
  from Suc.prems nx have nb: "\<not> euler_break (ef_phase F) (st_h s')"
    and acc: "Atmosphere_accepts (st_h s')"
    and rest: "euler_raises_at A C F s' n"
    by (simp_all add: euler_raises_at_Suc)
  have "euler_loop A C F s r = euler_loop A C F s' (euler_append r s' aoa theta)"
    using st nb acc by (subst euler_loop.simps) simp
  also have "\<dots> = Some (Inl (Atmosphere_ValueError (st_h ((euler_next A C F ^^ Suc n) s'))))"
    by (rule Suc.IH [OF rest])
  also have "(euler_next A C F ^^ Suc n) s' = (euler_next A C F ^^ Suc (Suc n)) s"
    using nx by (simp add: funpow_swap1)
  finally show ?case .
qed

lemma euler_loop_None_iff:
  "euler_loop A C F s r = None
     \<longleftrightarrow> (\<forall>n. \<not> euler_stops_at A C F s n \<and> \<not> euler_raises_at A C F s n)"
proof
  assume n: "euler_loop A C F s r = None"
  show "\<forall>n. \<not> euler_stops_at A C F s n \<and> \<not> euler_raises_at A C F s n"
    using euler_stops_loop_Some [of A C F s _ r] euler_raises_loop_Some [of A C F s _ r] n
    by fastforce
next
  assume a: "\<forall>n. \<not> euler_stops_at A C F s n \<and> \<not> euler_raises_at A C F s n"
  show "euler_loop A C F s r = None"
  proof (cases "euler_loop A C F s r")
    case None
    then show ?thesis .
  next
    case (Some y)
    from euler_loop_Some_run [OF this] a show ?thesis by blast
  qed
qed

lemma euler_never_ends_iff:
  "(\<forall>n. \<not> euler_stops_at A C F s n \<and> \<not> euler_raises_at A C F s n)
     \<longleftrightarrow> (\<forall>n. Atmosphere_accepts (st_h ((euler_next A C F ^^ Suc n) s))
              \<and> \<not> euler_break (ef_phase F) (st_h ((euler_next A C F ^^ Suc n) s)))"
proof
  assume a: "\<forall>n. \<not> euler_stops_at A C F s n \<and> \<not> euler_raises_at A C F s n"
  have "Atmosphere_accepts (st_h ((euler_next A C F ^^ Suc n) s))
          \<and> \<not> euler_break (ef_phase F) (st_h ((euler_next A C F ^^ Suc n) s))" for n
  proof (induction n rule: less_induct)
    case (less n)
    have r: "\<not> euler_raises_at A C F s n" and t: "\<not> euler_stops_at A C F s n"
      using a by blast+
    from r less have acc: "Atmosphere_accepts (st_h ((euler_next A C F ^^ Suc n) s))"
      unfolding euler_raises_at_def by blast
    from t less acc have "\<not> euler_break (ef_phase F) (st_h ((euler_next A C F ^^ Suc n) s))"
      unfolding euler_stops_at_def by blast
    with acc show ?case by blast
  qed
  then show "\<forall>n. Atmosphere_accepts (st_h ((euler_next A C F ^^ Suc n) s))
              \<and> \<not> euler_break (ef_phase F) (st_h ((euler_next A C F ^^ Suc n) s))"
    by blast
next
  assume "\<forall>n. Atmosphere_accepts (st_h ((euler_next A C F ^^ Suc n) s))
              \<and> \<not> euler_break (ef_phase F) (st_h ((euler_next A C F ^^ Suc n) s))"
  then show "\<forall>n. \<not> euler_stops_at A C F s n \<and> \<not> euler_raises_at A C F s n"
    unfolding euler_stops_at_def euler_raises_at_def by blast
qed

lemma euler_next_h:
  "st_h (euler_next A C F s) = st_h s + st_v_tas s * sin (st_gamma s) * ef_dt F"
  by (simp add: euler_next_def euler_step_def Let_def)

lemma euler_next_w:
  "st_w (euler_next A C F s) =
     st_w s + mg_m_per_s2_to_N
       ((- fuel_flow A (euler_inst_thrust A F s) (st_mach s) (st_h s) * ef_dt F) * Grav_const)"
  by (simp add: euler_next_def euler_step_def Let_def)

lemma euler_next_m_f_burnt:
  "st_m_f_burnt (euler_next A C F s) = st_m_f_burnt s + euler_burn A F s"
  by (simp add: euler_next_def euler_step_def Let_def euler_burn_def)

lemma euler_next_mach:
  "st_mach (euler_next A C F s)
     = cas2mach A (st_v_ias (euler_next A C F s)) (st_h (euler_next A C F s))"
  by (simp add: euler_next_def euler_step_def Let_def)

lemma euler_funpow_m_f_burnt:
  "st_m_f_burnt ((euler_next A C F ^^ n) s)
     = st_m_f_burnt s + (\<Sum>k<n. euler_burn A F ((euler_next A C F ^^ k) s))"
  by (induction n) (simp_all add: euler_next_m_f_burnt)

lemma euler_res_after_lists:
  "res_h (euler_res_after A C F s r n)
     = res_h r @ map (\<lambda>k. st_h ((euler_next A C F ^^ k) s)) [1..<Suc n]
   \<and> res_fuel_burn (euler_res_after A C F s r n)
     = res_fuel_burn r @ map (\<lambda>k. st_m_f_burnt ((euler_next A C F ^^ k) s)) [1..<Suc n]"
proof (induction n arbitrary: s r)
  case 0
  show ?case by simp
next
  case (Suc n)
  obtain s' aoa theta where st: "euler_step A C F s = (s', aoa, theta)"
    by (cases "euler_step A C F s") auto
  then have nx: "euler_next A C F s = s'" by (simp add: euler_next_def)
  have e: "euler_res_after A C F s r (Suc n)
             = euler_res_after A C F s' (euler_append r s' aoa theta) n"
    using st by simp
  show ?case
    unfolding e map_funpow_shift nx
    using Suc.IH [of s' "euler_append r s' aoa theta"]
    by (simp add: euler_append_def del: upt_Suc)
qed

subsection \<open>The loop of simulation_descent_approach_euler\<close>

lemma approach_stops_at_0:
  "approach_stops_at A C dt screen_h s 0 \<longleftrightarrow>
     st_h (approach_next A C dt s) \<le> screen_h
     \<and> Atmosphere_accepts (st_h (approach_next A C dt s))"
  by (simp add: approach_stops_at_def)

lemma approach_stops_at_Suc:
  "approach_stops_at A C dt screen_h s (Suc n) \<longleftrightarrow>
     Atmosphere_accepts (st_h (approach_next A C dt s))
     \<and> \<not> st_h (approach_next A C dt s) \<le> screen_h
     \<and> approach_stops_at A C dt screen_h (approach_next A C dt s) n"
  unfolding approach_stops_at_def
  by (auto simp add: All_less_Suc2 funpow_swap1)

lemma approach_raises_at_0:
  "approach_raises_at A C dt screen_h s 0
     \<longleftrightarrow> \<not> Atmosphere_accepts (st_h (approach_next A C dt s))"
  by (simp add: approach_raises_at_def)

lemma approach_raises_at_Suc:
  "approach_raises_at A C dt screen_h s (Suc n) \<longleftrightarrow>
     Atmosphere_accepts (st_h (approach_next A C dt s))
     \<and> \<not> st_h (approach_next A C dt s) \<le> screen_h
     \<and> approach_raises_at A C dt screen_h (approach_next A C dt s) n"
  unfolding approach_raises_at_def
  by (auto simp add: All_less_Suc2 funpow_swap1)

lemma approach_loop_Some_run:
  assumes "approach_loop A C dt screen_h s r = Some y"
  shows "(\<exists>n. approach_stops_at A C dt screen_h s n
            \<and> y = Inr (approach_final A C dt ((approach_next A C dt ^^ n) s)
                         (approach_res_after A C dt s r n)))
       \<or> (\<exists>n. approach_raises_at A C dt screen_h s n
            \<and> y = Inl (Atmosphere_ValueError (st_h ((approach_next A C dt ^^ Suc n) s))))"
proof -
  define P where
    "P = (\<lambda>A C dt screen_h s r y.
       (\<exists>n. approach_stops_at A C dt screen_h s n
            \<and> y = Inr (approach_final A C dt ((approach_next A C dt ^^ n) s)
                         (approach_res_after A C dt s r n)))
       \<or> (\<exists>n. approach_raises_at A C dt screen_h s n
            \<and> y = Inl (Atmosphere_ValueError (st_h ((approach_next A C dt ^^ Suc n) s)))))"
  have step: "P A C dt screen_h s r y"
    if IH: "\<And>A C dt screen_h s r y. loop A C dt screen_h s r = Some y
              \<Longrightarrow> P A C dt screen_h s r y"
      and eq: "(case approach_step A C dt s of (s', aoa, theta, inst_thrust) \<Rightarrow>
                 if \<not> Atmosphere_accepts (st_h s')
                 then Some (Inl (Atmosphere_ValueError (st_h s')))
                 else
                   (let r1 = r\<lparr>ares_aoa := ares_aoa r @ [aoa],
                               ares_theta := ares_theta r @ [theta],
                               ares_thrust := ares_thrust r @ [inst_thrust]\<rparr>
                    in if st_h s' \<le> screen_h then Some (Inr r1)
                       else loop A C dt screen_h s' (approach_append A r1 s'))) = Some y"
    for loop A C dt screen_h s r y
  proof -
    obtain s' aoa theta thr where st: "approach_step A C dt s = (s', aoa, theta, thr)"
      by (cases "approach_step A C dt s") auto
    then have nx: "approach_next A C dt s = s'" by (simp add: approach_next_def)
    let ?r1 = "r\<lparr>ares_aoa := ares_aoa r @ [aoa], ares_theta := ares_theta r @ [theta],
                  ares_thrust := ares_thrust r @ [thr]\<rparr>"
    show ?thesis
    proof (cases "Atmosphere_accepts (st_h s')")
      case False
      with eq st have "y = Inl (Atmosphere_ValueError (st_h s'))" by simp
      then have "y = Inl (Atmosphere_ValueError (st_h ((approach_next A C dt ^^ Suc 0) s)))"
        using nx by simp
      moreover have "approach_raises_at A C dt screen_h s 0"
        using False nx by (simp add: approach_raises_at_0)
      ultimately show ?thesis unfolding P_def by blast
    next
      case acc: True
      show ?thesis
      proof (cases "st_h s' \<le> screen_h")
        case True
        with eq st acc have "y = Inr ?r1" by simp
        then have "y = Inr (approach_final A C dt ((approach_next A C dt ^^ 0) s)
                         (approach_res_after A C dt s r 0))"
          using st by (simp add: approach_final_def)
        moreover have "approach_stops_at A C dt screen_h s 0"
          using True acc nx by (simp add: approach_stops_at_0)
        ultimately show ?thesis unfolding P_def by blast
      next
        case False
        with eq st acc have "loop A C dt screen_h s' (approach_append A ?r1 s') = Some y"
          by simp
        from IH [OF this] have "P A C dt screen_h s' (approach_append A ?r1 s') y" .
        then consider
          n where "approach_stops_at A C dt screen_h s' n"
             "y = Inr (approach_final A C dt ((approach_next A C dt ^^ n) s')
                    (approach_res_after A C dt s' (approach_append A ?r1 s') n))"
        | n where "approach_raises_at A C dt screen_h s' n"
             "y = Inl (Atmosphere_ValueError (st_h ((approach_next A C dt ^^ Suc n) s')))"
          unfolding P_def by blast
        then show ?thesis
        proof cases
          case 1
          have "approach_stops_at A C dt screen_h s (Suc n)"
            using False acc 1(1) nx by (simp add: approach_stops_at_Suc)
          moreover have "y = Inr (approach_final A C dt ((approach_next A C dt ^^ Suc n) s)
                               (approach_res_after A C dt s r (Suc n)))"
            using 1(2) st nx by (simp add: funpow_swap1)
          ultimately show ?thesis unfolding P_def by blast
        next
          case 2
          have "approach_raises_at A C dt screen_h s (Suc n)"
            using False acc 2(1) nx by (simp add: approach_raises_at_Suc)
          moreover have "y = Inl (Atmosphere_ValueError
                                   (st_h ((approach_next A C dt ^^ Suc (Suc n)) s)))"
            using 2(2) nx by (simp add: funpow_swap1)
          ultimately show ?thesis unfolding P_def by blast
        qed
      qed
    qed
  qed
  have "P A C dt screen_h s r y"
    by (rule approach_loop.raw_induct [where P = P, OF step assms])
  then show ?thesis unfolding P_def .
qed

lemma approach_loop_Some_stops:
  assumes "approach_loop A C dt screen_h s r = Some (Inr y)"
  shows "\<exists>n. approach_stops_at A C dt screen_h s n
           \<and> y = approach_final A C dt ((approach_next A C dt ^^ n) s)
                   (approach_res_after A C dt s r n)"
  using approach_loop_Some_run [OF assms] by auto

lemma approach_stops_loop_Some:
  "approach_stops_at A C dt screen_h s n \<Longrightarrow>
     approach_loop A C dt screen_h s r
       = Some (Inr (approach_final A C dt ((approach_next A C dt ^^ n) s)
                      (approach_res_after A C dt s r n)))"
proof (induction n arbitrary: s r)
  case 0
  obtain s' aoa theta thr where st: "approach_step A C dt s = (s', aoa, theta, thr)"
    by (cases "approach_step A C dt s") auto
  then have nx: "approach_next A C dt s = s'" by (simp add: approach_next_def)
  from 0 nx have "st_h s' \<le> screen_h" "Atmosphere_accepts (st_h s')"
    by (simp_all add: approach_stops_at_0)
  then show ?case using st
    by (subst approach_loop.simps) (simp add: approach_final_def)
next
  case (Suc n)
  obtain s' aoa theta thr where st: "approach_step A C dt s = (s', aoa, theta, thr)"
    by (cases "approach_step A C dt s") auto
  then have nx: "approach_next A C dt s = s'" by (simp add: approach_next_def)
  let ?r1 = "r\<lparr>ares_aoa := ares_aoa r @ [aoa], ares_theta := ares_theta r @ [theta],
                ares_thrust := ares_thrust r @ [thr]\<rparr>"
  from Suc.prems nx have nb: "\<not> st_h s' \<le> screen_h"
    and acc: "Atmosphere_accepts (st_h s')"
    and rest: "approach_stops_at A C dt screen_h s' n"
    by (simp_all add: approach_stops_at_Suc)
  have "approach_loop A C dt screen_h s r
          = approach_loop A C dt screen_h s' (approach_append A ?r1 s')"
    using st nb acc by (subst approach_loop.simps) simp
  also have "\<dots> = Some (Inr (approach_final A C dt ((approach_next A C dt ^^ n) s')
                        (approach_res_after A C dt s' (approach_append A ?r1 s') n)))"
    by (rule Suc.IH [OF rest])
  also have "approach_final A C dt ((approach_next A C dt ^^ n) s')
                        (approach_res_after A C dt s' (approach_append A ?r1 s') n)
               = approach_final A C dt ((approach_next A C dt ^^ Suc n) s)
                        (approach_res_after A C dt s r (Suc n))"
    using st nx by (simp add: funpow_swap1)
  finally show ?case .
qed

lemma approach_next_simps:
  "st_v_tas (approach_next A C dt s) = st_v_tas s"
  "st_v_ias (approach_next A C dt s) = st_v_ias s"
  "st_gamma (approach_next A C dt s) = st_gamma s"
  "st_h (approach_next A C dt s) = st_h s + st_v_tas s * sin (st_gamma s) * dt"
  "st_mach (approach_next A C dt s) = tas2mach A (st_v_tas s) (st_h (approach_next A C dt s))"
  "st_m_f_burnt (approach_next A C dt s) = st_m_f_burnt s + approach_burn A C dt s"
  "st_w (approach_next A C dt s) =
     st_w s + mg_m_per_s2_to_N
       ((- fuel_flow A (approach_inst_thrust A C s) (st_mach s) (st_h s) * dt) * Grav_const)"
  by (simp_all add: approach_next_def approach_step_def Let_def approach_burn_def)

lemma approach_funpow_frame:
  "st_v_tas ((approach_next A C dt ^^ n) s) = st_v_tas s
   \<and> st_gamma ((approach_next A C dt ^^ n) s) = st_gamma s
   \<and> st_v_ias ((approach_next A C dt ^^ n) s) = st_v_ias s"
  by (induction n) (simp_all add: approach_next_simps)

lemma approach_funpow_h:
  "st_h ((approach_next A C dt ^^ n) s)
     = st_h s + of_nat n * (st_v_tas s * sin (st_gamma s) * dt)"
  by (induction n) (simp_all add: approach_next_simps approach_funpow_frame algebra_simps)

lemma approach_funpow_mach:
  "st_mach ((approach_next A C dt ^^ Suc n) s)
     = tas2mach A (st_v_tas s) (st_h ((approach_next A C dt ^^ Suc n) s))"
  by (simp add: approach_next_simps approach_funpow_frame)

lemma approach_funpow_m_f_burnt:
  "st_m_f_burnt ((approach_next A C dt ^^ n) s)
     = st_m_f_burnt s + (\<Sum>k<n. approach_burn A C dt ((approach_next A C dt ^^ k) s))"
  by (induction n) (simp_all add: approach_next_simps)

lemma approach_res_after_lists:
  "ares_h (approach_res_after A C dt s r n)
     = ares_h r @ map (\<lambda>k. st_h ((approach_next A C dt ^^ k) s)) [1..<Suc n]
   \<and> ares_fuel_burn (approach_res_after A C dt s r n)
     = ares_fuel_burn r @ map (\<lambda>k. st_m_f_burnt ((approach_next A C dt ^^ k) s)) [1..<Suc n]
   \<and> ares_mach (approach_res_after A C dt s r n)
     = ares_mach r @ map (\<lambda>k. st_mach ((approach_next A C dt ^^ k) s)) [1..<Suc n]
   \<and> ares_v_ias (approach_res_after A C dt s r n)
     = ares_v_ias r @ map (\<lambda>k. tas2cas A (st_v_tas ((approach_next A C dt ^^ k) s))
                                  (st_h ((approach_next A C dt ^^ k) s))) [1..<Suc n]"
proof (induction n arbitrary: s r)
  case 0
  show ?case by simp
next
  case (Suc n)
  obtain s' aoa theta thr where st: "approach_step A C dt s = (s', aoa, theta, thr)"
    by (cases "approach_step A C dt s") auto
  then have nx: "approach_next A C dt s = s'" by (simp add: approach_next_def)
  let ?r1 = "r\<lparr>ares_aoa := ares_aoa r @ [aoa], ares_theta := ares_theta r @ [theta],
                ares_thrust := ares_thrust r @ [thr]\<rparr>"
  define R where "R = approach_append A ?r1 s'"
  have e: "approach_res_after A C dt s r (Suc n) = approach_res_after A C dt s' R n"
    using st by (simp add: R_def)
  have f: "ares_h R = ares_h r @ [st_h s']"
    "ares_fuel_burn R = ares_fuel_burn r @ [st_m_f_burnt s']"
    "ares_mach R = ares_mach r @ [st_mach s']"
    "ares_v_ias R = ares_v_ias r @ [tas2cas A (st_v_tas s') (st_h s')]"
    by (simp_all add: R_def approach_append_def)
  show ?case
    unfolding e map_funpow_shift
      map_funpow_shift [where g = "\<lambda>s. tas2cas A (st_v_tas s) (st_h s)"] nx
    using Suc.IH [of s' R] f
    by (simp del: upt_Suc)
qed

lemma approach_final_lists:
  "ares_h (approach_final A C dt s r) = ares_h r"
  "ares_fuel_burn (approach_final A C dt s r) = ares_fuel_burn r"
  "ares_mach (approach_final A C dt s r) = ares_mach r"
  "ares_v_ias (approach_final A C dt s r) = ares_v_ias r"
  by (simp_all add: approach_final_def split: prod.splits)

subsection \<open>The simulations as loops from their initial state\<close>

lemma euler_frame_of_simps [simp]:
  "ef_phase (euler_frame_of C i dt pcm k_p v_ref cm phase s0) = phase"
  "ef_dt (euler_frame_of C i dt pcm k_p v_ref cm phase s0) = dt"
  "ef_thrust_app_perc (euler_frame_of C i dt pcm k_p v_ref cm phase s0) = thrust_app_perc phase"
  by (simp_all add: euler_frame_of_def Let_def)

lemma euler_init_res_lists [simp]:
  "res_h (euler_init_res C i s0) = [st_h s0]"
  "res_fuel_burn (euler_init_res C i s0) = [st_m_f_burnt s0]"
  by (simp_all add: euler_init_res_def Let_def)

lemma euler_init_state_simps [simp]:
  "st_h (euler_init_state A C i phase) = ics_h i"
  "st_w (euler_init_state A C i phase) = ics_w i"
  "st_m_f_burnt (euler_init_state A C i phase) = 0"
  "st_v_tas (euler_init_state A C i phase) = cas2tas A (ics_v_ias i) (ics_h i)"
  "st_mach (euler_init_state A C i phase) = cas2mach A (ics_v_ias i) (ics_h i)"
  "st_gamma (euler_init_state A C i phase) =
     gamma_steady_straight C
       (kN_to_N (4 * max_thrust_model A Max_Thrust_SE_SL BPR (ics_h i)
                       (cas2mach A (ics_v_ias i) (ics_h i)) * thrust_app_perc phase))
       (drag C (ics_v_ias i) (ics_h i) (c_l_steady A (ics_v_ias i) (ics_h i) (ics_w i) S) S)
       (ics_w i)"
  by (simp_all add: euler_init_state_def Let_def)

lemma euler_break_other:
  "phase \<noteq> ''climb'' \<Longrightarrow> phase \<noteq> ''descent'' \<Longrightarrow> \<not> euler_break phase h"
  by (simp add: euler_break_def)

lemma simulation_euler_loop:
  "Atmosphere_accepts (ics_h i) \<Longrightarrow>
   simulation_euler A C i dt pcm k_p v_ref cm phase =
     euler_loop A C
       (euler_frame_of C i dt pcm k_p v_ref cm phase (euler_init_state A C i phase))
       (euler_init_state A C i phase)
       (euler_init_res C i (euler_init_state A C i phase))"
  by (simp add: simulation_euler_def Let_def)

lemma simulation_euler_refused:
  "\<not> Atmosphere_accepts (ics_h i) \<Longrightarrow>
   simulation_euler A C i dt pcm k_p v_ref cm phase
     = Some (Inl (Atmosphere_ValueError (ics_h i)))"
  by (simp add: simulation_euler_def)

lemma simulation_euler_Inr_accepts:
  "simulation_euler A C i dt pcm k_p v_ref cm phase = Some (Inr r)
     \<Longrightarrow> Atmosphere_accepts (ics_h i)"
  by (cases "Atmosphere_accepts (ics_h i)") (simp_all add: simulation_euler_refused)

lemma simulation_euler_None_accepts:
  "simulation_euler A C i dt pcm k_p v_ref cm phase = None
     \<Longrightarrow> Atmosphere_accepts (ics_h i)"
  by (cases "Atmosphere_accepts (ics_h i)") (simp_all add: simulation_euler_refused)

lemma euler_funpow_h_dt_0:
  "ef_dt F = 0 \<Longrightarrow> st_h ((euler_next A C F ^^ n) s) = st_h s"
  by (induction n) (simp_all add: euler_next_h)

lemma euler_res_h_of_stop:
  assumes "euler_stops_at A C F s n"
  shows "res_h (euler_res_after A C F s r (Suc n))
           = res_h r @ map (\<lambda>k. st_h ((euler_next A C F ^^ k) s)) [1..<Suc (Suc n)]"
  using euler_res_after_lists [of A C F s r "Suc n"] by blast

lemma simulation_euler_Some_h:
  assumes "simulation_euler A C i dt pcm k_p v_ref cm phase = Some (Inr r)"
  shows "\<exists>n. euler_stops_at A C
                (euler_frame_of C i dt pcm k_p v_ref cm phase (euler_init_state A C i phase))
                (euler_init_state A C i phase) n
           \<and> res_h r = map (\<lambda>k. st_h ((euler_next A C
                (euler_frame_of C i dt pcm k_p v_ref cm phase (euler_init_state A C i phase))
                   ^^ k) (euler_init_state A C i phase))) [0..<Suc (Suc n)]"
proof -
  let ?s0 = "euler_init_state A C i phase"
  let ?F = "euler_frame_of C i dt pcm k_p v_ref cm phase ?s0"
  from assms have "euler_loop A C ?F ?s0 (euler_init_res C i ?s0) = Some (Inr r)"
    using simulation_euler_Inr_accepts [OF assms] by (simp add: simulation_euler_loop)
  from euler_loop_Some_stops [OF this] obtain n where
    n: "euler_stops_at A C ?F ?s0 n"
    and r: "r = euler_res_after A C ?F ?s0 (euler_init_res C i ?s0) (Suc n)"
    by blast
  have "res_h r = st_h ?s0 # map (\<lambda>k. st_h ((euler_next A C ?F ^^ k) ?s0)) [1..<Suc (Suc n)]"
    unfolding r euler_res_h_of_stop [OF n] by simp
  also have "\<dots> = map (\<lambda>k. st_h ((euler_next A C ?F ^^ k) ?s0)) [0..<Suc (Suc n)]"
    by (rule map_funpow_from_0)
  finally show ?thesis using n by blast
qed

lemma last_map_upt_Suc: "last (map f [0..<Suc n]) = f n"
  by simp

lemma approach_init_state_simps [simp]:
  "st_h (approach_init_state A i v_ref g) = ics_h i"
  "st_w (approach_init_state A i v_ref g) = ics_w i"
  "st_v_tas (approach_init_state A i v_ref g) = v_ref"
  "st_gamma (approach_init_state A i v_ref g) = - g"
  "st_m_f_burnt (approach_init_state A i v_ref g) = 0"
  "st_mach (approach_init_state A i v_ref g) = tas2mach A v_ref (ics_h i)"
  "st_v_ias (approach_init_state A i v_ref g) = tas2cas A v_ref (ics_h i)"
  by (simp_all add: approach_init_state_def Let_def)

lemma approach_init_res_lists [simp]:
  "ares_h (approach_init_res s0) = [st_h s0]"
  "ares_fuel_burn (approach_init_res s0) = [st_m_f_burnt s0]"
  "ares_mach (approach_init_res s0) = [st_mach s0]"
  "ares_v_ias (approach_init_res s0) = [st_v_ias s0]"
  by (simp_all add: approach_init_res_def)

lemma simulation_approach_loop:
  "Atmosphere_accepts (ics_h i) \<Longrightarrow>
   simulation_descent_approach_euler A C i dt v_ref g screen_h phase =
     approach_loop A C dt screen_h (approach_init_state A i v_ref g)
       (approach_init_res (approach_init_state A i v_ref g))"
  by (simp add: simulation_descent_approach_euler_def Let_def)

lemma simulation_approach_refused:
  "\<not> Atmosphere_accepts (ics_h i) \<Longrightarrow>
   simulation_descent_approach_euler A C i dt v_ref g screen_h phase
     = Some (Inl (Atmosphere_ValueError (ics_h i)))"
  by (simp add: simulation_descent_approach_euler_def)

lemma simulation_approach_Inr_accepts:
  "simulation_descent_approach_euler A C i dt v_ref g screen_h phase = Some (Inr r)
     \<Longrightarrow> Atmosphere_accepts (ics_h i)"
  by (cases "Atmosphere_accepts (ics_h i)") (simp_all add: simulation_approach_refused)

lemma simulation_approach_Some:
  assumes "simulation_descent_approach_euler A C i dt v_ref g screen_h phase = Some (Inr r)"
  shows "\<exists>n. approach_stops_at A C dt screen_h (approach_init_state A i v_ref g) n
     \<and> ares_h r = map (\<lambda>k. st_h ((approach_next A C dt ^^ k) (approach_init_state A i v_ref g)))
                     [0..<Suc n]
     \<and> ares_fuel_burn r
         = map (\<lambda>k. st_m_f_burnt ((approach_next A C dt ^^ k) (approach_init_state A i v_ref g)))
             [0..<Suc n]
     \<and> ares_mach r
         = map (\<lambda>k. st_mach ((approach_next A C dt ^^ k) (approach_init_state A i v_ref g)))
             [0..<Suc n]
     \<and> ares_v_ias r
         = st_v_ias (approach_init_state A i v_ref g)
           # map (\<lambda>k. tas2cas A
                         (st_v_tas ((approach_next A C dt ^^ k) (approach_init_state A i v_ref g)))
                         (st_h ((approach_next A C dt ^^ k) (approach_init_state A i v_ref g))))
               [1..<Suc n]"
proof -
  let ?s0 = "approach_init_state A i v_ref g"
  from assms have "approach_loop A C dt screen_h ?s0 (approach_init_res ?s0) = Some (Inr r)"
    using simulation_approach_Inr_accepts [OF assms] by (simp add: simulation_approach_loop)
  from approach_loop_Some_stops [OF this] obtain n where
    n: "approach_stops_at A C dt screen_h ?s0 n"
    and r: "r = approach_final A C dt ((approach_next A C dt ^^ n) ?s0)
                  (approach_res_after A C dt ?s0 (approach_init_res ?s0) n)"
    by blast
  note l = approach_res_after_lists [of A C dt ?s0 "approach_init_res ?s0" n]
  have 1: "ares_h r = map (\<lambda>k. st_h ((approach_next A C dt ^^ k) ?s0)) [0..<Suc n]"
    unfolding r approach_final_lists using l
    by (simp add: map_funpow_from_0 [symmetric] del: upt_Suc)
  have 2: "ares_fuel_burn r = map (\<lambda>k. st_m_f_burnt ((approach_next A C dt ^^ k) ?s0)) [0..<Suc n]"
    unfolding r approach_final_lists using l
    by (simp add: map_funpow_from_0 [symmetric] del: upt_Suc)
  have 3: "ares_mach r = map (\<lambda>k. st_mach ((approach_next A C dt ^^ k) ?s0)) [0..<Suc n]"
    unfolding r approach_final_lists using l
    by (simp add: map_funpow_from_0 [symmetric] del: upt_Suc)
  have 4: "ares_v_ias r = st_v_ias ?s0
             # map (\<lambda>k. tas2cas A (st_v_tas ((approach_next A C dt ^^ k) ?s0))
                           (st_h ((approach_next A C dt ^^ k) ?s0))) [1..<Suc n]"
    unfolding r approach_final_lists using l
    by (simp del: upt_Suc)
  show ?thesis using n 1 2 3 4 by blast
qed

lemma simulation_euler_Some_last:
  assumes "simulation_euler A C i dt pcm k_p v_ref cm phase = Some (Inr r)"
  shows "euler_break phase (last (res_h r))"
proof -
  from simulation_euler_Some_h [OF assms] obtain n where
    n: "euler_stops_at A C
          (euler_frame_of C i dt pcm k_p v_ref cm phase (euler_init_state A C i phase))
          (euler_init_state A C i phase) n"
    and h: "res_h r = map (\<lambda>k. st_h ((euler_next A C
              (euler_frame_of C i dt pcm k_p v_ref cm phase (euler_init_state A C i phase))
                 ^^ k) (euler_init_state A C i phase))) [0..<Suc (Suc n)]"
    by blast
  show ?thesis
    unfolding h last_map_upt_Suc using n by (simp add: euler_stops_at_def)
qed

lemma np_round_2_200: "np_round 2 200 = 200"
  by (simp add: np_round_def rint_def Let_def)

lemma np_round_2_130: "np_round 2 130 = 130"
  unfolding np_round_def rint_def Let_def by simp

lemma climb_run_first_altitude:
  "st_h (euler_next sea_level_air flat_aero
          (euler_frame_of flat_aero climb_ics 1 pcm k_p v_ref cm ''climb''
             (euler_init_state sea_level_air flat_aero climb_ics ''climb''))
          (euler_init_state sea_level_air flat_aero climb_ics ''climb'')) = 10050"
  by (simp add: euler_next_h climb_ics_def np_round_2_200 sin_pi_6)

lemma approach_demo_h:
  "st_h ((approach_next sea_level_air flat_aero 1 ^^ n)
           (approach_init_state sea_level_air approach_ics 60 (pi / 6)))
     = 100 - 30 * of_nat n"
  unfolding approach_funpow_h
  by (simp add: approach_ics_def sin_pi_6)

lemma approach_demo_stops:
  "approach_stops_at sea_level_air flat_aero 1 (10668 / 1000)
     (approach_init_state sea_level_air approach_ics 60 (pi / 6)) 2"
  unfolding approach_stops_at_def approach_demo_h
  by (simp add: eval_nat_numeral All_less_Suc Atmosphere_accepts_def)

lemma approach_demo_returns:
  "\<exists>r. simulation_descent_approach_euler sea_level_air flat_aero approach_ics 1 60 (pi / 6)
          (10668 / 1000) ''descent_approach'' = Some (Inr r)"
proof -
  have "Atmosphere_accepts (ics_h approach_ics)"
    by (simp add: approach_ics_def Atmosphere_accepts_def)
  then show ?thesis
    using approach_stops_loop_Some [OF approach_demo_stops]
    by (simp add: simulation_approach_loop)
qed


section \<open>Loading or running\<close>

text \<open>
  C7: when the phase is none of \<open>"climb"\<close>, \<open>"descent"\<close>, \<open>"descent_approach"\<close>, the call
  ends with an error and leaves the world as it found it: no file is looked up or read,
  nothing is printed, and the result does not depend on \<open>simulation\<close>, which is not run.
  When the keywords \<open>ics\<close> and \<open>v_ref\<close> are supplied the error is the \<open>ValueError\<close> with
  the message naming the three phases (the lookups of the three keywords come before
  the test, so a call without them ends with their \<open>KeyError\<close>).
\<close>

theorem load_or_run_simulation_invalid_phase:
  assumes "kwargs ''phase'' = Some phase"
    and "phase \<notin> {PStr ''climb'', PStr ''descent'', PStr ''descent_approach''}"
  shows "\<exists>e. (\<forall>simulation. load_or_run_simulation simulation kwargs wd = Some (Inl e, wd))
           \<and> (kwargs ''ics'' \<noteq> None \<and> kwargs ''v_ref'' \<noteq> None
                \<longrightarrow> e = ValueError invalid_phase_message)"
proof (cases "kwargs ''ics''")
  case None
  then have "\<forall>simulation. load_or_run_simulation simulation kwargs wd
               = Some (Inl (KeyError ''ics''), wd)"
    using assms by (simp add: load_or_run_simulation_def)
  then show ?thesis using None by blast
next
  case (Some i)
  show ?thesis
  proof (cases "kwargs ''v_ref''")
    case None
    then have "\<forall>simulation. load_or_run_simulation simulation kwargs wd
                 = Some (Inl (KeyError ''v_ref''), wd)"
      using assms Some by (simp add: load_or_run_simulation_def)
    then show ?thesis using None by blast
  next
    case v: (Some v)
    have "\<forall>simulation. load_or_run_simulation simulation kwargs wd
                 = Some (Inl (ValueError invalid_phase_message), wd)"
      using assms Some v by (simp add: load_or_run_simulation_def)
    then show ?thesis by blast
  qed
qed

theorem load_or_run_simulation_invalid_phase_witness:
  "demo_kwargs ''phase'' = Some (PStr ''cruise'')
   \<and> PStr ''cruise'' \<notin> {PStr ''climb'', PStr ''descent'', PStr ''descent_approach''}
   \<and> load_or_run_simulation (\<lambda>kwargs wd. None) demo_kwargs
         \<lparr>wd_files = Map.empty, wd_events = []\<rparr>
        = Some (Inl (ValueError invalid_phase_message),
                \<lparr>wd_files = Map.empty, wd_events = []\<rparr>)"
proof -
  have p: "demo_kwargs ''phase'' = Some (PStr ''cruise'')"
    by (simp add: demo_kwargs_def)
  have b: "PStr ''cruise'' \<notin> {PStr ''climb'', PStr ''descent'', PStr ''descent_approach''}"
    by simp
  have k: "demo_kwargs ''ics'' \<noteq> None \<and> demo_kwargs ''v_ref'' \<noteq> None"
    by (simp add: demo_kwargs_def)
  from load_or_run_simulation_invalid_phase
         [of demo_kwargs "PStr ''cruise''" "\<lparr>wd_files = Map.empty, wd_events = []\<rparr>", OF p b]
       k p b
  show ?thesis by metis
qed

section \<open>Termination of simulation_euler\<close>

text \<open>
  C2, as the code has it: a run of \<open>simulation_euler\<close> that returns ends with an altitude
  that meets the stop condition of its phase (at least 10000 m for a climb, at most
  1000 m for a descent), and no earlier entry after the first meets it. The loop has no
  bound on its passes: the run returns exactly when the altitude after some pass meets
  the stop condition and the atmosphere lookup accepts every altitude up to that one,
  and it never ends exactly when the lookup accepts every altitude and none after a pass
  meets the stop condition. That the run returns is not guaranteed.
\<close>

theorem simulation_euler_stops_at_threshold:
  "(\<forall>r. simulation_euler A C i time_step pilot_control_model k_p v_ref cruise_mach phase
          = Some (Inr r)
        \<longrightarrow> euler_break phase (last (res_h r))
            \<and> (\<forall>k. 0 < k \<and> Suc k < length (res_h r) \<longrightarrow> \<not> euler_break phase (res_h r ! k)))
   \<and> ((\<exists>r. simulation_euler A C i time_step pilot_control_model k_p v_ref cruise_mach phase
              = Some (Inr r))
        \<longleftrightarrow> (\<exists>n. euler_break phase
                   (st_h ((euler_next A C
                            (euler_frame_of C i time_step pilot_control_model k_p v_ref
                               cruise_mach phase (euler_init_state A C i phase)) ^^ Suc n)
                          (euler_init_state A C i phase)))
                 \<and> (\<forall>k\<le>Suc n. Atmosphere_accepts
                      (st_h ((euler_next A C
                               (euler_frame_of C i time_step pilot_control_model k_p v_ref
                                  cruise_mach phase (euler_init_state A C i phase)) ^^ k)
                             (euler_init_state A C i phase))))))
   \<and> (simulation_euler A C i time_step pilot_control_model k_p v_ref cruise_mach phase = None
        \<longleftrightarrow> (\<forall>n. Atmosphere_accepts
                   (st_h ((euler_next A C
                            (euler_frame_of C i time_step pilot_control_model k_p v_ref
                               cruise_mach phase (euler_init_state A C i phase)) ^^ n)
                          (euler_init_state A C i phase)))
                 \<and> \<not> euler_break phase
                   (st_h ((euler_next A C
                            (euler_frame_of C i time_step pilot_control_model k_p v_ref
                               cruise_mach phase (euler_init_state A C i phase)) ^^ Suc n)
                          (euler_init_state A C i phase)))))
   \<and> (euler_break ''climb'' h \<longleftrightarrow> 10000 \<le> h)
   \<and> (euler_break ''descent'' h \<longleftrightarrow> h \<le> 1000)"
proof -
  let ?s0 = "euler_init_state A C i phase"
  let ?F = "euler_frame_of C i time_step pilot_control_model k_p v_ref cruise_mach phase ?s0"
  let ?sim = "simulation_euler A C i time_step pilot_control_model k_p v_ref cruise_mach phase"
  let ?hs = "\<lambda>k. st_h ((euler_next A C ?F ^^ k) ?s0)"
  have h0: "?hs 0 = ics_h i" by simp
  have a: "euler_break phase (last (res_h r))
            \<and> (\<forall>k. 0 < k \<and> Suc k < length (res_h r) \<longrightarrow> \<not> euler_break phase (res_h r ! k))"
    if "?sim = Some (Inr r)" for r
  proof -
    from simulation_euler_Some_h [OF that] obtain n where
      n: "euler_stops_at A C ?F ?s0 n" and h: "res_h r = map ?hs [0..<Suc (Suc n)]"
      by blast
    have l: "last (res_h r) = ?hs (Suc n)"
      unfolding h by (rule last_map_upt_Suc)
    have "euler_break phase (?hs (Suc n))"
      using n by (simp add: euler_stops_at_def)
    then have 1: "euler_break phase (last (res_h r))" using l by simp
    have 2: "\<not> euler_break phase (res_h r ! k)" if k: "0 < k" "Suc k < length (res_h r)" for k
    proof -
      from k h have kn: "k < Suc n" by simp
      then obtain j where j: "k = Suc j" "j < n" using k(1) by (cases k) auto
      have "res_h r ! k = ?hs k"
        unfolding h using kn by (simp add: nth_map_upt del: upt_Suc)
      moreover have "\<not> euler_break phase (?hs (Suc j))"
        using n j(2) by (simp add: euler_stops_at_def)
      ultimately show ?thesis using j(1) by simp
    qed
    show ?thesis using 1 2 by blast
  qed
  have b: "(\<exists>r. ?sim = Some (Inr r))
             \<longleftrightarrow> (\<exists>n. euler_break phase (?hs (Suc n)) \<and> (\<forall>k\<le>Suc n. Atmosphere_accepts (?hs k)))"
  proof
    assume "\<exists>r. ?sim = Some (Inr r)"
    then obtain r where r: "?sim = Some (Inr r)" by blast
    have acc0: "Atmosphere_accepts (ics_h i)" by (rule simulation_euler_Inr_accepts [OF r])
    from simulation_euler_Some_h [OF r] obtain n where
      n: "euler_stops_at A C ?F ?s0 n" by blast
    have "Atmosphere_accepts (?hs k)" if "k \<le> Suc n" for k
    proof (cases k)
      case 0
      then show ?thesis using acc0 by simp
    next
      case (Suc j)
      with that have "j < n \<or> j = n" by auto
      then show ?thesis using n unfolding Suc euler_stops_at_def by blast
    qed
    moreover have "euler_break phase (?hs (Suc n))"
      using n by (simp add: euler_stops_at_def)
    ultimately show "\<exists>n. euler_break phase (?hs (Suc n))
                          \<and> (\<forall>k\<le>Suc n. Atmosphere_accepts (?hs k))"
      by blast
  next
    assume "\<exists>n. euler_break phase (?hs (Suc n)) \<and> (\<forall>k\<le>Suc n. Atmosphere_accepts (?hs k))"
    then obtain n where br: "euler_break phase (?hs (Suc n))"
      and acc: "\<forall>k\<le>Suc n. Atmosphere_accepts (?hs k)"
      by blast
    from br obtain m where m: "euler_break phase (?hs (Suc m))"
      "\<forall>j<m. \<not> euler_break phase (?hs (Suc j))"
      using exists_least_iff [of "\<lambda>n. euler_break phase (?hs (Suc n))"] by blast
    have mn: "m \<le> n"
    proof (rule ccontr)
      assume "\<not> m \<le> n"
      then have "n < m" by simp
      with m(2) br show False by blast
    qed
    have "euler_stops_at A C ?F ?s0 m"
      unfolding euler_stops_at_def using m acc mn by (simp del: funpow.simps)
    then have "euler_loop A C ?F ?s0 (euler_init_res C i ?s0)
                 = Some (Inr (euler_res_after A C ?F ?s0 (euler_init_res C i ?s0) (Suc m)))"
      by (rule euler_stops_loop_Some)
    moreover have "Atmosphere_accepts (ics_h i)" using acc h0 by (metis le0)
    ultimately show "\<exists>r. ?sim = Some (Inr r)"
      by (simp add: simulation_euler_loop)
  qed
  have c: "?sim = None
             \<longleftrightarrow> (\<forall>n. Atmosphere_accepts (?hs n) \<and> \<not> euler_break phase (?hs (Suc n)))"
  proof
    assume n: "?sim = None"
    have acc0: "Atmosphere_accepts (ics_h i)" by (rule simulation_euler_None_accepts [OF n])
    with n have "euler_loop A C ?F ?s0 (euler_init_res C i ?s0) = None"
      by (simp add: simulation_euler_loop)
    then have e: "\<forall>n. Atmosphere_accepts (?hs (Suc n)) \<and> \<not> euler_break phase (?hs (Suc n))"
      unfolding euler_loop_None_iff euler_never_ends_iff by simp
    have "Atmosphere_accepts (?hs n)" for n
    proof (cases n)
      case 0
      then show ?thesis using acc0 by simp
    next
      case (Suc j)
      then show ?thesis using e by blast
    qed
    then show "\<forall>n. Atmosphere_accepts (?hs n) \<and> \<not> euler_break phase (?hs (Suc n))"
      using e by blast
  next
    assume a: "\<forall>n. Atmosphere_accepts (?hs n) \<and> \<not> euler_break phase (?hs (Suc n))"
    then have "\<forall>n. Atmosphere_accepts (?hs (Suc n)) \<and> \<not> euler_break phase (?hs (Suc n))"
      by blast
    then have "euler_loop A C ?F ?s0 (euler_init_res C i ?s0) = None"
      unfolding euler_loop_None_iff euler_never_ends_iff by simp
    moreover have "Atmosphere_accepts (ics_h i)" using a h0 by metis
    ultimately show "?sim = None" by (simp add: simulation_euler_loop)
  qed
  have d: "(euler_break ''climb'' h \<longleftrightarrow> 10000 \<le> h) \<and> (euler_break ''descent'' h \<longleftrightarrow> h \<le> 1000)"
    by (simp add: euler_break_def)
  show ?thesis using a b c d by blast
qed

theorem simulation_euler_stops_at_threshold_witness:
  "\<exists>r. simulation_euler sea_level_air flat_aero climb_ics 1 (pilot_pitch_control sea_level_air)
          (1 / 100) 200 (85 / 100) ''climb'' = Some (Inr r)
       \<and> 10000 \<le> last (res_h r)"
proof -
  let ?sim = "simulation_euler sea_level_air flat_aero climb_ics 1
                (pilot_pitch_control sea_level_air) (1 / 100) 200 (85 / 100) ''climb''"
  let ?s0 = "euler_init_state sea_level_air flat_aero climb_ics ''climb''"
  let ?F = "euler_frame_of flat_aero climb_ics 1 (pilot_pitch_control sea_level_air)
              (1 / 100) 200 (85 / 100) ''climb'' ?s0"
  note t = simulation_euler_stops_at_threshold
             [of sea_level_air flat_aero climb_ics 1 "pilot_pitch_control sea_level_air"
                 "1 / 100" 200 "85 / 100" "''climb''" "10050"]
  have h1: "st_h ((euler_next sea_level_air flat_aero ?F ^^ Suc 0) ?s0) = 10050"
    by (simp add: climb_run_first_altitude)
  have h0: "st_h ((euler_next sea_level_air flat_aero ?F ^^ 0) ?s0) = 9950"
    by (simp add: climb_ics_def)
  have "euler_break ''climb'' (st_h ((euler_next sea_level_air flat_aero ?F ^^ Suc 0) ?s0))"
    unfolding h1 by (simp add: euler_break_def)
  moreover have "\<forall>k\<le>Suc 0. Atmosphere_accepts
                    (st_h ((euler_next sea_level_air flat_aero ?F ^^ k) ?s0))"
  proof (intro allI impI)
    fix k :: nat assume "k \<le> Suc 0"
    then have "k = 0 \<or> k = Suc 0" by auto
    then show "Atmosphere_accepts (st_h ((euler_next sea_level_air flat_aero ?F ^^ k) ?s0))"
      using h0 h1 by (auto simp add: Atmosphere_accepts_def)
  qed
  ultimately have "\<exists>r. ?sim = Some (Inr r)" using t by blast
  then obtain r where r: "?sim = Some (Inr r)" by blast
  then have "euler_break ''climb'' (last (res_h r))" using t by blast
  then have "10000 \<le> last (res_h r)" by (simp add: euler_break_def)
  then show ?thesis using r by blast
qed

text \<open>
  Termination itself fails: with a time step of 0 the altitude never changes, so a climb
  that starts on the ground never reaches 10000 m and the call never returns.
\<close>

theorem simulation_euler_zero_time_step_counterexample:
  "ics_h ground_ics < 10000
   \<and> simulation_euler sea_level_air flat_aero ground_ics 0 (pilot_pitch_control sea_level_air)
        (1 / 100) 130 (85 / 100) ''climb'' = None"
proof -
  let ?s0 = "euler_init_state sea_level_air flat_aero ground_ics ''climb''"
  let ?F = "euler_frame_of flat_aero ground_ics 0 (pilot_pitch_control sea_level_air)
              (1 / 100) 130 (85 / 100) ''climb'' ?s0"
  have "Atmosphere_accepts (st_h ((euler_next sea_level_air flat_aero ?F ^^ Suc n) ?s0))
          \<and> \<not> euler_break (ef_phase ?F)
                (st_h ((euler_next sea_level_air flat_aero ?F ^^ Suc n) ?s0))" for n
    by (simp add: euler_funpow_h_dt_0 euler_break_def ground_ics_def Atmosphere_accepts_def
          del: funpow.simps)
  then have "euler_loop sea_level_air flat_aero ?F ?s0 (euler_init_res flat_aero ground_ics ?s0)
               = None"
    unfolding euler_loop_None_iff euler_never_ends_iff by blast
  moreover have "Atmosphere_accepts (ics_h ground_ics)"
    by (simp add: ground_ics_def Atmosphere_accepts_def)
  ultimately show ?thesis
    by (simp add: simulation_euler_loop ground_ics_def)
qed

text \<open>
  C8, as the code has it: for a phase other than \<open>"climb"\<close> and \<open>"descent"\<close> the thrust
  percentage is 0.05 and no altitude satisfies the stop condition of the \<open>match\<close>
  statement, so \<open>simulation_euler\<close> never returns a result. It does not follow that the
  call never stops: it runs forever exactly when the atmosphere lookup accepts the
  altitude of every pass, and otherwise it ends with the \<open>ValueError\<close> of the lookup at
  the first altitude outside its range.
\<close>

theorem simulation_euler_other_phase_never_breaks:
  assumes "phase \<noteq> ''climb''" and "phase \<noteq> ''descent''"
  shows "thrust_app_perc phase = 0.05
     \<and> ef_thrust_app_perc (euler_frame_of C i time_step pilot_control_model k_p v_ref
                              cruise_mach phase s0) = 0.05
     \<and> (\<forall>h. \<not> euler_break phase h)
     \<and> (\<forall>r. simulation_euler A C i time_step pilot_control_model k_p v_ref cruise_mach phase
              \<noteq> Some (Inr r))
     \<and> (simulation_euler A C i time_step pilot_control_model k_p v_ref cruise_mach phase = None
          \<longleftrightarrow> (\<forall>n. Atmosphere_accepts
                     (st_h ((euler_next A C
                              (euler_frame_of C i time_step pilot_control_model k_p v_ref
                                 cruise_mach phase (euler_init_state A C i phase)) ^^ n)
                            (euler_init_state A C i phase)))))
     \<and> (\<forall>n. \<not> Atmosphere_accepts
                (st_h ((euler_next A C
                         (euler_frame_of C i time_step pilot_control_model k_p v_ref
                            cruise_mach phase (euler_init_state A C i phase)) ^^ n)
                       (euler_init_state A C i phase)))
            \<and> (\<forall>k<n. Atmosphere_accepts
                  (st_h ((euler_next A C
                           (euler_frame_of C i time_step pilot_control_model k_p v_ref
                              cruise_mach phase (euler_init_state A C i phase)) ^^ k)
                         (euler_init_state A C i phase))))
          \<longrightarrow> simulation_euler A C i time_step pilot_control_model k_p v_ref cruise_mach phase
                = Some (Inl (Atmosphere_ValueError
                     (st_h ((euler_next A C
                              (euler_frame_of C i time_step pilot_control_model k_p v_ref
                                 cruise_mach phase (euler_init_state A C i phase)) ^^ n)
                            (euler_init_state A C i phase))))))"
proof -
  let ?s0 = "euler_init_state A C i phase"
  let ?F = "euler_frame_of C i time_step pilot_control_model k_p v_ref cruise_mach phase ?s0"
  let ?sim = "simulation_euler A C i time_step pilot_control_model k_p v_ref cruise_mach phase"
  let ?hs = "\<lambda>k. st_h ((euler_next A C ?F ^^ k) ?s0)"
  have p: "thrust_app_perc phase = 0.05"
    using assms by (simp add: thrust_app_perc_def)
  have b: "\<forall>h. \<not> euler_break phase h"
    using assms by (simp add: euler_break_other)
  have ns: "\<not> euler_stops_at A C ?F ?s0 n" for n
    unfolding euler_stops_at_def using b by simp
  have r: "?sim \<noteq> Some (Inr r)" for r
  proof
    assume "?sim = Some (Inr r)"
    from simulation_euler_Some_h [OF this] ns show False by blast
  qed
  have n: "?sim = None \<longleftrightarrow> (\<forall>n. Atmosphere_accepts (?hs n))"
  proof
    assume n: "?sim = None"
    have acc0: "Atmosphere_accepts (ics_h i)" by (rule simulation_euler_None_accepts [OF n])
    with n have "euler_loop A C ?F ?s0 (euler_init_res C i ?s0) = None"
      by (simp add: simulation_euler_loop)
    then have e: "\<forall>n. Atmosphere_accepts (?hs (Suc n))"
      unfolding euler_loop_None_iff euler_never_ends_iff by simp
    have "Atmosphere_accepts (?hs n)" for n
    proof (cases n)
      case 0
      then show ?thesis using acc0 by simp
    next
      case (Suc j)
      then show ?thesis using e by blast
    qed
    then show "\<forall>n. Atmosphere_accepts (?hs n)" by blast
  next
    assume a: "\<forall>n. Atmosphere_accepts (?hs n)"
    have "Atmosphere_accepts (?hs (Suc n)) \<and> \<not> euler_break (ef_phase ?F) (?hs (Suc n))"
      for n
      using a [rule_format, of "Suc n"] b by (simp del: funpow.simps)
    then have "\<forall>n. Atmosphere_accepts (?hs (Suc n))
                 \<and> \<not> euler_break (ef_phase ?F) (?hs (Suc n))"
      by blast
    then have "euler_loop A C ?F ?s0 (euler_init_res C i ?s0) = None"
      unfolding euler_loop_None_iff euler_never_ends_iff .
    moreover have "Atmosphere_accepts (?hs 0)" using a by blast
    ultimately show "?sim = None" by (simp add: simulation_euler_loop)
  qed
  have e: "?sim = Some (Inl (Atmosphere_ValueError (?hs n)))"
    if refuse: "\<not> Atmosphere_accepts (?hs n)" and before: "\<forall>k<n. Atmosphere_accepts (?hs k)"
    for n
  proof (cases n)
    case 0
    with refuse have "\<not> Atmosphere_accepts (ics_h i)" by simp
    then show ?thesis unfolding 0 by (simp add: simulation_euler_refused)
  next
    case (Suc m)
    have "euler_raises_at A C ?F ?s0 m"
      unfolding euler_raises_at_def
      using refuse before b unfolding Suc by (auto simp del: funpow.simps)
    then have "euler_loop A C ?F ?s0 (euler_init_res C i ?s0)
                 = Some (Inl (Atmosphere_ValueError (?hs (Suc m))))"
      by (rule euler_raises_loop_Some)
    moreover have "Atmosphere_accepts (?hs 0)" using before Suc by blast
    ultimately show ?thesis unfolding Suc by (simp add: simulation_euler_loop)
  qed
  show ?thesis using p b r n e by simp
qed

lemma high_run_first_altitude:
  "st_h (euler_next sea_level_air flat_aero
          (euler_frame_of flat_aero \<lparr>ics_x = 0, ics_h = 81000, ics_w = 3600000, ics_v_ias = 130\<rparr>
             1 pcm k_p v_ref cm ''descent_approach''
             (euler_init_state sea_level_air flat_aero
                \<lparr>ics_x = 0, ics_h = 81000, ics_w = 3600000, ics_v_ias = 130\<rparr>
                ''descent_approach''))
          (euler_init_state sea_level_air flat_aero
             \<lparr>ics_x = 0, ics_h = 81000, ics_w = 3600000, ics_v_ias = 130\<rparr>
             ''descent_approach'')) = 81065"
  by (simp add: euler_next_h np_round_2_130 sin_pi_6)

theorem simulation_euler_other_phase_never_breaks_witness:
  "''descent_approach'' \<noteq> ''climb'' \<and> ''descent_approach'' \<noteq> ''descent''
   \<and> thrust_app_perc ''descent_approach'' = 0.05
   \<and> (\<forall>r. simulation_euler sea_level_air flat_aero
             \<lparr>ics_x = 0, ics_h = 3000, ics_w = 3600000, ics_v_ias = 130\<rparr> 1
             (pilot_pitch_control sea_level_air) (1 / 100) 130 (85 / 100) ''descent_approach''
           \<noteq> Some (Inr r))
   \<and> simulation_euler sea_level_air flat_aero
        \<lparr>ics_x = 0, ics_h = 3000, ics_w = 3600000, ics_v_ias = 130\<rparr> 0
        (pilot_pitch_control sea_level_air) (1 / 100) 130 (85 / 100) ''descent_approach''
      = None
   \<and> \<not> Atmosphere_accepts 90000
   \<and> simulation_euler sea_level_air flat_aero
        \<lparr>ics_x = 0, ics_h = 90000, ics_w = 3600000, ics_v_ias = 130\<rparr> 1
        (pilot_pitch_control sea_level_air) (1 / 100) 130 (85 / 100) ''descent_approach''
      = Some (Inl (Atmosphere_ValueError 90000))"
proof -
  have a: "''descent_approach'' \<noteq> ''climb''" and b: "''descent_approach'' \<noteq> ''descent''"
    by simp_all
  let ?j = "\<lparr>ics_x = 0, ics_h = 90000, ics_w = 3600000, ics_v_ias = 130\<rparr>"
  let ?sj = "euler_init_state sea_level_air flat_aero ?j ''descent_approach''"
  let ?Fj = "euler_frame_of flat_aero ?j 1 (pilot_pitch_control sea_level_air)
               (1 / 100) 130 (85 / 100) ''descent_approach'' ?sj"
  note t2 = simulation_euler_other_phase_never_breaks
              [OF a b, where A = sea_level_air and C = flat_aero and i = ?j and time_step = 1
                 and pilot_control_model = "pilot_pitch_control sea_level_air"
                 and k_p = "1 / 100" and v_ref = 130 and cruise_mach = "85 / 100"]
  have na: "\<not> Atmosphere_accepts 90000" by (simp add: Atmosphere_accepts_def)
  then have "\<not> Atmosphere_accepts (st_h ((euler_next sea_level_air flat_aero ?Fj ^^ 0) ?sj))
       \<and> (\<forall>k<0. Atmosphere_accepts (st_h ((euler_next sea_level_air flat_aero ?Fj ^^ k) ?sj)))"
    by simp
  then have "simulation_euler sea_level_air flat_aero ?j 1
               (pilot_pitch_control sea_level_air) (1 / 100) 130 (85 / 100) ''descent_approach''
             = Some (Inl (Atmosphere_ValueError
                  (st_h ((euler_next sea_level_air flat_aero ?Fj ^^ 0) ?sj))))"
    using t2 by blast
  then have raises: "simulation_euler sea_level_air flat_aero ?j 1
               (pilot_pitch_control sea_level_air) (1 / 100) 130 (85 / 100) ''descent_approach''
             = Some (Inl (Atmosphere_ValueError 90000))"
    by simp
  let ?i = "\<lparr>ics_x = 0, ics_h = 3000, ics_w = 3600000, ics_v_ias = 130\<rparr>"
  let ?s0 = "euler_init_state sea_level_air flat_aero ?i ''descent_approach''"
  let ?F = "euler_frame_of flat_aero ?i 0 (pilot_pitch_control sea_level_air)
              (1 / 100) 130 (85 / 100) ''descent_approach'' ?s0"
  note t1 = simulation_euler_other_phase_never_breaks
              [OF a b, where A = sea_level_air and C = flat_aero and i = ?i and time_step = 1
                 and pilot_control_model = "pilot_pitch_control sea_level_air"
                 and k_p = "1 / 100" and v_ref = 130 and cruise_mach = "85 / 100"]
  note t0 = simulation_euler_other_phase_never_breaks
              [OF a b, where A = sea_level_air and C = flat_aero and i = ?i and time_step = 0
                 and pilot_control_model = "pilot_pitch_control sea_level_air"
                 and k_p = "1 / 100" and v_ref = 130 and cruise_mach = "85 / 100"]
  have "\<forall>n. Atmosphere_accepts (st_h ((euler_next sea_level_air flat_aero ?F ^^ n) ?s0))"
    by (simp add: euler_funpow_h_dt_0 Atmosphere_accepts_def del: funpow.simps)
  then have "simulation_euler sea_level_air flat_aero ?i 0
               (pilot_pitch_control sea_level_air) (1 / 100) 130 (85 / 100) ''descent_approach''
             = None"
    using t0 by blast
  then show ?thesis using t1 a b na raises by blast
qed

text \<open>
  The call can stop: started at 81000 m in the test atmosphere, where the flight path
  climbs, the first pass reaches 81065 m, which the lookup refuses, and the call ends
  with its \<open>ValueError\<close>.
\<close>

theorem simulation_euler_other_phase_stops_counterexample:
  "''descent_approach'' \<noteq> ''climb'' \<and> ''descent_approach'' \<noteq> ''descent''
   \<and> simulation_euler sea_level_air flat_aero
        \<lparr>ics_x = 0, ics_h = 81000, ics_w = 3600000, ics_v_ias = 130\<rparr> 1
        (pilot_pitch_control sea_level_air) (1 / 100) 130 (85 / 100) ''descent_approach''
      = Some (Inl (Atmosphere_ValueError 81065))
   \<and> simulation_euler sea_level_air flat_aero
        \<lparr>ics_x = 0, ics_h = 90000, ics_w = 3600000, ics_v_ias = 130\<rparr> 1
        (pilot_pitch_control sea_level_air) (1 / 100) 130 (85 / 100) ''descent_approach''
      = Some (Inl (Atmosphere_ValueError 90000))"
proof -
  let ?i = "\<lparr>ics_x = 0, ics_h = 81000, ics_w = 3600000, ics_v_ias = 130\<rparr>"
  let ?s0 = "euler_init_state sea_level_air flat_aero ?i ''descent_approach''"
  let ?F = "euler_frame_of flat_aero ?i 1 (pilot_pitch_control sea_level_air)
              (1 / 100) 130 (85 / 100) ''descent_approach'' ?s0"
  have "euler_raises_at sea_level_air flat_aero ?F ?s0 0"
    unfolding euler_raises_at_0 high_run_first_altitude
    by (simp add: Atmosphere_accepts_def)
  then have "euler_loop sea_level_air flat_aero ?F ?s0 (euler_init_res flat_aero ?i ?s0)
               = Some (Inl (Atmosphere_ValueError
                    (st_h ((euler_next sea_level_air flat_aero ?F ^^ Suc 0) ?s0))))"
    by (rule euler_raises_loop_Some)
  then have "euler_loop sea_level_air flat_aero ?F ?s0 (euler_init_res flat_aero ?i ?s0)
               = Some (Inl (Atmosphere_ValueError 81065))"
    by (simp add: high_run_first_altitude)
  moreover have "Atmosphere_accepts (ics_h ?i)" by (simp add: Atmosphere_accepts_def)
  ultimately have 1: "simulation_euler sea_level_air flat_aero ?i 1
        (pilot_pitch_control sea_level_air) (1 / 100) 130 (85 / 100) ''descent_approach''
      = Some (Inl (Atmosphere_ValueError 81065))"
    by (simp add: simulation_euler_loop)
  have 2: "simulation_euler sea_level_air flat_aero
        \<lparr>ics_x = 0, ics_h = 90000, ics_w = 3600000, ics_v_ias = 130\<rparr> 1
        (pilot_pitch_control sea_level_air) (1 / 100) 130 (85 / 100) ''descent_approach''
      = Some (Inl (Atmosphere_ValueError 90000))"
    by (simp add: simulation_euler_refused Atmosphere_accepts_def)
  show ?thesis using 1 2 by simp
qed

section \<open>The approach\<close>

text \<open>
  C9: when \<open>simulation_descent_approach_euler\<close> returns and the initial altitude is above
  the screen height, every altitude of the list \<open>h\<close> is above the screen height: the list
  holds the altitudes before the first pass and after every pass but the last, and the
  altitude after the last pass, which is at or below the screen height, is not in it.
  \<open>simulation_euler\<close> differs: the last altitude of its list meets the stop condition.
\<close>

theorem approach_altitudes_above_screen_height:
  assumes "simulation_descent_approach_euler A C i time_step v_ref glideslope_angle screen_h phase
             = Some (Inr r)"
    and "screen_h < ics_h i"
  shows "(\<forall>a \<in> set (ares_h r). screen_h < a)
     \<and> (\<exists>n. ares_h r = map (\<lambda>k. st_h ((approach_next A C time_step ^^ k)
                                       (approach_init_state A i v_ref glideslope_angle)))
                           [0..<Suc n]
           \<and> st_h ((approach_next A C time_step ^^ Suc n)
                     (approach_init_state A i v_ref glideslope_angle)) \<le> screen_h)
     \<and> (\<forall>r'. simulation_euler A C i' time_step' pilot_control_model k_p v_ref' cruise_mach phase'
                = Some (Inr r') \<longrightarrow> euler_break phase' (last (res_h r')))"
proof -
  let ?s0 = "approach_init_state A i v_ref glideslope_angle"
  let ?hs = "\<lambda>k. st_h ((approach_next A C time_step ^^ k) ?s0)"
  from simulation_approach_Some [OF assms(1)] obtain n where
    n: "approach_stops_at A C time_step screen_h ?s0 n"
    and h: "ares_h r = map ?hs [0..<Suc n]"
    by blast
  have above: "screen_h < ?hs k" if "k < Suc n" for k
  proof (cases k)
    case 0
    then show ?thesis using assms(2) by simp
  next
    case (Suc j)
    with that have "j < n" by simp
    then have "\<not> ?hs (Suc j) \<le> screen_h"
      using n unfolding approach_stops_at_def by blast
    then show ?thesis using Suc by simp
  qed
  have 1: "\<forall>a \<in> set (ares_h r). screen_h < a"
    unfolding h using above by (auto simp del: upt_Suc funpow.simps)
  have 2: "?hs (Suc n) \<le> screen_h"
    using n unfolding approach_stops_at_def by blast
  show ?thesis using 1 2 h simulation_euler_Some_last by blast
qed

theorem approach_altitudes_above_screen_height_witness:
  "10668 / 1000 < ics_h approach_ics
   \<and> (\<exists>r. simulation_descent_approach_euler sea_level_air flat_aero approach_ics 1 60 (pi / 6)
            (10668 / 1000) ''descent_approach'' = Some (Inr r)
          \<and> (\<forall>a \<in> set (ares_h r). 10668 / 1000 < a))"
proof -
  have i: "10668 / 1000 < ics_h approach_ics" by (simp add: approach_ics_def)
  from approach_demo_returns obtain r where
    r: "simulation_descent_approach_euler sea_level_air flat_aero approach_ics 1 60 (pi / 6)
          (10668 / 1000) ''descent_approach'' = Some (Inr r)"
    by blast
  from approach_altitudes_above_screen_height [OF r i] i r show ?thesis by blast
qed

text \<open>
  C10: the true airspeed starts as \<open>v_ref\<close> and no pass of the approach loop changes it.
  Every recorded indicated airspeed is \<open>tas2cas(v_ref, h)\<close> and every recorded Mach number
  is \<open>tas2mach(v_ref, h)\<close> at the recorded altitude of the same index.
\<close>

theorem approach_true_airspeed_frozen:
  "st_v_tas (approach_init_state A i v_ref glideslope_angle) = v_ref
   \<and> st_v_tas (fst (approach_step A C time_step s)) = st_v_tas s
   \<and> (\<forall>r. simulation_descent_approach_euler A C i time_step v_ref glideslope_angle screen_h phase
            = Some (Inr r)
          \<longrightarrow> ares_v_ias r = map (tas2cas A v_ref) (ares_h r)
              \<and> ares_mach r = map (tas2mach A v_ref) (ares_h r))"
proof -
  let ?s0 = "approach_init_state A i v_ref glideslope_angle"
  let ?st = "\<lambda>k. (approach_next A C time_step ^^ k) ?s0"
  have v: "st_v_tas (?st k) = v_ref" for k
    using approach_funpow_frame [where A = A and C = C and dt = time_step and n = k and s = ?s0]
    by simp
  have m: "st_mach (?st k) = tas2mach A v_ref (st_h (?st k))" for k
  proof (cases k)
    case 0
    then show ?thesis by simp
  next
    case (Suc j)
    show ?thesis unfolding Suc approach_funpow_mach by simp
  qed
  have "ares_v_ias r = map (tas2cas A v_ref) (ares_h r)
          \<and> ares_mach r = map (tas2mach A v_ref) (ares_h r)"
    if "simulation_descent_approach_euler A C i time_step v_ref glideslope_angle screen_h phase
          = Some (Inr r)" for r
  proof -
    from simulation_approach_Some [OF that] obtain n where
      h: "ares_h r = map (\<lambda>k. st_h (?st k)) [0..<Suc n]"
      and ma: "ares_mach r = map (\<lambda>k. st_mach (?st k)) [0..<Suc n]"
      and vi: "ares_v_ias r = st_v_ias ?s0
                 # map (\<lambda>k. tas2cas A (st_v_tas (?st k)) (st_h (?st k))) [1..<Suc n]"
      by blast
    have "ares_v_ias r = tas2cas A v_ref (st_h (?st 0))
                 # map (\<lambda>k. tas2cas A v_ref (st_h (?st k))) [1..<Suc n]"
      unfolding vi v by simp
    also have "\<dots> = map (\<lambda>k. tas2cas A v_ref (st_h (?st k))) [0..<Suc n]"
      by (simp add: upt_conv_Cons del: upt_Suc)
    finally have 1: "ares_v_ias r = map (tas2cas A v_ref) (ares_h r)"
      unfolding h by (simp add: comp_def del: upt_Suc)
    have 2: "ares_mach r = map (tas2mach A v_ref) (ares_h r)"
      unfolding ma h m by (simp add: comp_def del: upt_Suc)
    show ?thesis using 1 2 by blast
  qed
  moreover have "st_v_tas (fst (approach_step A C time_step s)) = st_v_tas s"
    using approach_next_simps(1) [of A C time_step s] by (simp add: approach_next_def)
  ultimately show ?thesis by simp
qed

theorem approach_true_airspeed_frozen_witness:
  "\<exists>r. simulation_descent_approach_euler sea_level_air flat_aero approach_ics 1 60 (pi / 6)
          (10668 / 1000) ''descent_approach'' = Some (Inr r)
       \<and> ares_v_ias r = map (tas2cas sea_level_air 60) (ares_h r)
       \<and> ares_mach r = map (tas2mach sea_level_air 60) (ares_h r)"
  using approach_demo_returns
    approach_true_airspeed_frozen [of sea_level_air approach_ics 60 "pi / 6" flat_aero 1 _
      "10668 / 1000" "''descent_approach''"]
  by blast


section \<open>Fuel flow and weight\<close>

lemma np_round_neg:
  assumes "x \<le> - 1"
  shows "np_round d x < 0"
proof -
  have "\<bar>np_round d x - x\<bar> \<le> 1 / (2 * 10 ^ d)" by (rule np_round_error)
  moreover have "1 / (2 * 10 ^ d) \<le> (1 / 2 :: real)"
    by (simp add: field_simps)
  ultimately show ?thesis using assms by linarith
qed

lemma pi_ge_3: "3 \<le> pi"
proof -
  have "sin (pi / 6) \<le> pi / 6" by (rule sin_x_le_x) simp
  then show ?thesis by (simp add: sin_30)
qed

lemma sin_pi_30_lower: "996 / 10000 \<le> sin (pi / 30)"
proof -
  have b: "\<bar>sin (pi / 30) - (\<Sum>m<3. sin_coeff m * (pi / 30) ^ m)\<bar>
             \<le> inverse (fact 3) * \<bar>pi / 30\<bar> ^ 3"
    by (rule Maclaurin_sin_bound)
  have s: "(\<Sum>m<3. sin_coeff m * (pi / 30) ^ m) = pi / 30"
    by (simp add: sin_coeff_def eval_nat_numeral)
  have l: "1 / 10 \<le> pi / 30" using pi_ge_3 by simp
  have u: "pi / 30 \<le> 2 / 15" using pi_less_4 by simp
  have "(pi / 30) ^ 3 \<le> (2 / 15) ^ 3"
    using u by (intro power_mono) simp_all
  then have c: "inverse (fact 3) * \<bar>pi / 30\<bar> ^ 3 \<le> (2 / 15) ^ 3 / 6"
    by (simp add: eval_nat_numeral fact_numeral)
  have "sin (pi / 30) \<ge> pi / 30 - (2 / 15) ^ 3 / 6"
    using b c unfolding s by linarith
  then show ?thesis using l by (simp add: eval_nat_numeral)
qed

lemma fuel_flow_tsfc: "fuel_flow A thrust mach h = np_round 4 (tsfc A mach h * thrust)"
  by (simp add: fuel_flow_def tsfc_def Let_def)

lemma tsfc_nonneg:
  "- 1 \<le> mach \<Longrightarrow> 0 \<le> temperature A h / temperature A 0 \<Longrightarrow> 0 \<le> tsfc A mach h"
  by (simp add: tsfc_def)

lemma fuel_flow_nonneg:
  assumes "0 \<le> thrust" "- 1 \<le> mach" "0 \<le> temperature A h / temperature A 0"
  shows "0 \<le> fuel_flow A thrust mach h"
  unfolding fuel_flow_tsfc
  by (intro np_round_nonneg mult_nonneg_nonneg tsfc_nonneg assms)

lemma np_round_3_mach_60: "np_round 3 (60 / 340.294) = 176 / 1000"
  unfolding np_round_def rint_def Let_def by simp

lemma steep_approach_mach:
  "st_mach (approach_init_state sea_level_air approach_ics 60 (pi / 30)) = 176 / 1000"
  unfolding approach_init_state_simps tas2mach_def Let_def sea_level_air_simps
  by (rule np_round_3_mach_60)

lemma steep_approach_thrust:
  "approach_inst_thrust sea_level_air flat_aero
     (approach_init_state sea_level_air approach_ics 60 (pi / 30)) \<le> - 49200"
proof -
  have "approach_inst_thrust sea_level_air flat_aero
          (approach_init_state sea_level_air approach_ics 60 (pi / 30))
        = 150000 - 2000000 * sin (pi / 30)"
    by (simp add: approach_inst_thrust_def Let_def approach_ics_def)
  then show ?thesis using sin_pi_30_lower by simp
qed

lemma steep_approach_fuel_flow:
  "fuel_flow sea_level_air
     (approach_inst_thrust sea_level_air flat_aero
        (approach_init_state sea_level_air approach_ics 60 (pi / 30)))
     (st_mach (approach_init_state sea_level_air approach_ics 60 (pi / 30)))
     (st_h (approach_init_state sea_level_air approach_ics 60 (pi / 30))) < 0"
proof -
  let ?T = "approach_inst_thrust sea_level_air flat_aero
              (approach_init_state sea_level_air approach_ics 60 (pi / 30))"
  have t: "tsfc sea_level_air (176 / 1000) h = 12936 / 1000" for h
    unfolding tsfc_def by simp
  have "tsfc sea_level_air (176 / 1000) (ics_h approach_ics) * ?T \<le> - 1"
    unfolding t using steep_approach_thrust by linarith
  then have "np_round 4 (tsfc sea_level_air (176 / 1000) (ics_h approach_ics) * ?T) < 0"
    by (rule np_round_neg)
  then show ?thesis
    unfolding fuel_flow_tsfc steep_approach_mach
    by (simp only: approach_init_state_simps)
qed

lemma quadratic_nonneg:
  fixes a b c m :: real
  assumes a: "0 < a" and d: "b\<^sup>2 \<le> 4 * a * c"
  shows "0 \<le> a - b * m + c * m\<^sup>2"
proof -
  have "4 * a * (a - b * m + c * m\<^sup>2) = (2 * a - b * m)\<^sup>2 + (4 * a * c - b\<^sup>2) * m\<^sup>2"
    by (simp add: power2_eq_square algebra_simps)
  moreover have "0 \<le> (2 * a - b * m)\<^sup>2 + (4 * a * c - b\<^sup>2) * m\<^sup>2"
    using d by (intro add_nonneg_nonneg mult_nonneg_nonneg) simp_all
  ultimately have "0 \<le> 4 * a * (a - b * m + c * m\<^sup>2)" by simp
  then show ?thesis using a by (simp add: zero_le_mult_iff)
qed

lemma sqrt_5_lower: "2236 / 1000 \<le> sqrt 5"
  by (rule real_le_rsqrt) (simp add: power2_eq_square)

lemma A_coef_lower:
  assumes "0 \<le> delta" "delta \<le> 1"
  shows "472 / 10000 + 9528 / 10000 * delta \<le> A_coef delta"
proof -
  have "delta * delta \<le> 1 * delta" using assms by (intro mult_right_mono) simp_all
  then show ?thesis by (simp add: A_coef_def power2_eq_square)
qed

lemma X_coef_lower:
  assumes "0 \<le> delta"
  shows "delta \<le> X_coef delta"
proof -
  have "0 \<le> (delta - 974 / 1000)\<^sup>2" by simp
  then have "1 \<le> 0.9106 * delta\<^sup>2 - 1.7736 * delta + 1.8697"
    using assms by (simp add: power2_eq_square algebra_simps)
  then have "delta * 1 \<le> delta * (0.9106 * delta\<^sup>2 - 1.7736 * delta + 1.8697)"
    using assms by (intro mult_left_mono) simp_all
  moreover have "X_coef delta = delta * (0.9106 * delta\<^sup>2 - 1.7736 * delta + 1.8697)"
    by (simp add: X_coef_def power2_eq_square power3_eq_cube algebra_simps)
  ultimately show ?thesis by simp
qed

lemma Z_coef_bounds:
  assumes "0 \<le> delta" "delta \<le> 1"
  shows "0 \<le> Z_coef delta \<and> Z_coef delta \<le> 13003 / 10000 * delta"
proof -
  have dd: "delta * delta \<le> 1 * delta" using assms by (intro mult_right_mono) simp_all
  have d0: "0 \<le> delta * delta" using assms by simp
  have lo: "0 \<le> 0.1377 * delta\<^sup>2 - 0.4374 * delta + 1.3003"
    using assms by (simp add: power2_eq_square, insert d0, linarith)
  have hi: "0.1377 * delta\<^sup>2 - 0.4374 * delta + 1.3003 \<le> 13003 / 10000"
    using assms dd by (simp add: power2_eq_square)
  have z: "Z_coef delta = delta * (0.1377 * delta\<^sup>2 - 0.4374 * delta + 1.3003)"
    by (simp add: Z_coef_def power2_eq_square power3_eq_cube algebra_simps)
  have 1: "0 \<le> Z_coef delta" unfolding z using assms(1) lo by (rule mult_nonneg_nonneg)
  have "delta * (0.1377 * delta\<^sup>2 - 0.4374 * delta + 1.3003) \<le> delta * (13003 / 10000)"
    using hi assms(1) by (rule mult_left_mono)
  then have 2: "Z_coef delta \<le> 13003 / 10000 * delta" unfolding z by simp
  show ?thesis using 1 2 by simp
qed

lemma thrust_lapse_nonneg:
  assumes "0 \<le> delta" "delta \<le> 1"
  shows "0 \<le> A_coef delta
              - Z_coef delta * m * 0.377 * (1 + 5) / sqrt (G0 5 * (1 + 0.82 * 5))
              + (0.23 + 0.19 * sqrt 5) * X_coef delta * m\<^sup>2"
proof -
  define q where "q = sqrt (G0 5 * (1 + 0.82 * 5))"
  define a where "a = A_coef delta"
  define b where "b = Z_coef delta * (2262 / 1000) / q"
  define c where "c = (0.23 + 0.19 * sqrt 5) * X_coef delta"
  have g: "G0 5 * (1 + 0.82 * 5) = 479145 / 100000"
    by (simp add: G0_def)
  have q0: "0 < q" unfolding q_def g by simp
  have q2: "q\<^sup>2 = 479145 / 100000" unfolding q_def g by simp
  have a_lo: "472 / 10000 + 9528 / 10000 * delta \<le> a"
    unfolding a_def by (rule A_coef_lower [OF assms])
  then have a0: "0 < a" using assms(1) by linarith
  have a1: "9528 / 10000 * delta \<le> a" using a_lo by linarith
  have x_lo: "delta \<le> X_coef delta" by (rule X_coef_lower [OF assms(1)])
  have c2: "65484 / 100000 \<le> 0.23 + 0.19 * sqrt 5" using sqrt_5_lower by simp
  have c_lo: "65484 / 100000 * delta \<le> c"
    unfolding c_def using c2 x_lo assms(1) by (intro mult_mono) simp_all
  have ac: "(9528 / 10000 * delta) * (65484 / 100000 * delta) \<le> a * c"
    using a1 c_lo assms(1) a0 by (intro mult_mono) simp_all
  have z: "0 \<le> Z_coef delta" "Z_coef delta \<le> 13003 / 10000 * delta"
    using Z_coef_bounds [OF assms] by simp_all
  have z2: "(Z_coef delta)\<^sup>2 \<le> (13003 / 10000 * delta)\<^sup>2"
    using z by (intro power_mono) simp_all
  have b2: "b\<^sup>2 = (Z_coef delta)\<^sup>2 * ((2262 / 1000)\<^sup>2 / (479145 / 100000))"
    unfolding b_def by (simp add: power_mult_distrib power_divide q2)
  have "b\<^sup>2 \<le> (13003 / 10000 * delta)\<^sup>2 * ((2262 / 1000)\<^sup>2 / (479145 / 100000))"
    unfolding b2 using z2 by (intro mult_right_mono) simp_all
  also have "\<dots> \<le> 4 * ((9528 / 10000 * delta) * (65484 / 100000 * delta))"
  proof -
    have "0 \<le> delta * delta" using assms(1) by simp
    then show ?thesis by (simp add: power2_eq_square algebra_simps)
  qed
  also have "\<dots> \<le> 4 * (a * c)" using ac by simp
  finally have d: "b\<^sup>2 \<le> 4 * a * c" by simp
  have "0 \<le> a - b * m + c * m\<^sup>2" by (rule quadratic_nonneg [OF a0 d])
  moreover have "Z_coef delta * m * 0.377 * (1 + 5) / sqrt (G0 5 * (1 + 0.82 * 5)) = b * m"
    unfolding b_def q_def by simp
  ultimately show ?thesis unfolding a_def c_def by simp
qed

lemma max_thrust_model_nonneg:
  assumes "0 \<le> pressure A h / pressure A 0" "pressure A h / pressure A 0 \<le> 1"
    and "0 \<le> thrust_sl"
  shows "0 \<le> max_thrust_model A thrust_sl 5 h mach"
  unfolding max_thrust_model_eq thrust_max_formula_def
  by (intro np_round_nonneg mult_nonneg_nonneg thrust_lapse_nonneg assms)

lemma euler_inst_thrust_nonneg:
  assumes "0 \<le> pressure A (st_h s) / pressure A 0" "pressure A (st_h s) / pressure A 0 \<le> 1"
    and "0 \<le> ef_thrust_app_perc F"
  shows "0 \<le> euler_inst_thrust A F s"
proof -
  have "0 \<le> max_thrust_model A 270 5 (st_h s) (st_mach s)"
    by (rule max_thrust_model_nonneg [OF assms(1) assms(2)]) simp
  then show ?thesis
    using assms(3) by (simp add: euler_inst_thrust_def kN_to_N_def Max_Thrust_SE_SL_def BPR_def)
qed

lemma pitot_nonneg:
  assumes "0 \<le> k1" "0 \<le> k2" "0 \<le> r"
  shows "0 \<le> pitot k1 k2 r v"
proof -
  have "0 \<le> (1 + r * ((1 + (1 / 7) * k1 * v ^ 2) powr (7 / 2) - 1)) powr (2 / 7) - 1"
    using pitot_inner_ge_1 [OF assms(1) assms(3), of v] by simp
  then have "0 \<le> 7 * (1 / k2) * ((1 + r * ((1 + (1 / 7) * k1 * v ^ 2) powr (7 / 2) - 1)) powr (2 / 7) - 1)"
    using assms(2) by simp
  then show ?thesis unfolding pitot_def by simp
qed

lemma cas2tas_nonneg:
  assumes "0 < pressure A 0" "0 < density A 0" "0 < pressure A h" "0 < density A h"
  shows "0 \<le> cas2tas A v h"
  unfolding cas2tas_rounds cas2tas_exact_pitot
  using assms by (intro np_round_nonneg pitot_nonneg) simp_all

lemma cas2mach_nonneg:
  assumes "0 < pressure A 0" "0 < density A 0" "0 < pressure A h" "0 < density A h"
    and "0 < speed_of_sound A h"
  shows "0 \<le> cas2mach A v h"
  unfolding cas2mach_def Let_def
  using cas2tas_nonneg [OF assms(1-4), of v] assms(5)
  by (intro np_round_nonneg) simp

lemma weight_change_nonpos:
  fixes ff dt :: real
  assumes "0 \<le> ff" "0 \<le> dt"
  shows "mg_m_per_s2_to_N ((- ff * dt) * Grav_const) \<le> 0"
proof -
  have "0 \<le> ff * dt * Grav_const"
    using assms by (intro mult_nonneg_nonneg) (simp_all add: Grav_const_def)
  then show ?thesis by (simp add: mg_m_per_s2_to_N_def)
qed

lemma euler_step_weight_le:
  assumes "0 \<le> ef_dt F" "0 \<le> ef_thrust_app_perc F" "- 1 \<le> st_mach s"
    and "0 \<le> temperature A (st_h s) / temperature A 0"
    and "0 \<le> pressure A (st_h s) / pressure A 0" "pressure A (st_h s) / pressure A 0 \<le> 1"
  shows "st_w (euler_next A C F s) \<le> st_w s"
proof -
  have "0 \<le> euler_inst_thrust A F s"
    by (rule euler_inst_thrust_nonneg [OF assms(5) assms(6) assms(2)])
  then have "0 \<le> fuel_flow A (euler_inst_thrust A F s) (st_mach s) (st_h s)"
    using assms(3) assms(4) by (rule fuel_flow_nonneg)
  from weight_change_nonpos [OF this assms(1)] show ?thesis
    unfolding euler_next_w by simp
qed

lemma approach_step_weight_le:
  assumes "0 \<le> dt" "- 1 \<le> st_mach s"
    and "0 \<le> temperature A (st_h s) / temperature A 0"
    and "0 \<le> approach_inst_thrust A C s"
  shows "st_w (approach_next A C dt s) \<le> st_w s"
proof -
  have "0 \<le> fuel_flow A (approach_inst_thrust A C s) (st_mach s) (st_h s)"
    using assms(4) assms(2) assms(3) by (rule fuel_flow_nonneg)
  from weight_change_nonpos [OF this assms(1)] show ?thesis
    unfolding approach_next_simps by simp
qed

lemma fair_airD:
  assumes "fair_air A" "0 \<le> h"
  shows "0 < pressure A h" "pressure A h \<le> pressure A 0" "0 < density A h"
    "0 < temperature A h" "0 < speed_of_sound A h" "0 < pressure A 0" "0 < density A 0"
    "0 < temperature A 0"
  using assms unfolding fair_air_def by auto

lemma euler_run_mach_nonneg:
  assumes f: "fair_air A"
    and h: "0 \<le> st_h ((euler_next A C F ^^ n) (euler_init_state A C i phase))"
  shows "0 \<le> st_mach ((euler_next A C F ^^ n) (euler_init_state A C i phase))"
proof (cases n)
  case 0
  with h have "0 \<le> ics_h i" by simp
  then show ?thesis
    unfolding 0 using fair_airD [OF f]
    by (simp add: cas2mach_nonneg)
next
  case (Suc k)
  let ?s = "(euler_next A C F ^^ k) (euler_init_state A C i phase)"
  from h have h': "0 \<le> st_h (euler_next A C F ?s)" unfolding Suc by simp
  have "0 \<le> cas2mach A (st_v_ias (euler_next A C F ?s)) (st_h (euler_next A C F ?s))"
    using fair_airD [OF f h'] fair_airD(6,7) [OF f h'] by (intro cas2mach_nonneg)
  then show ?thesis unfolding Suc by (simp add: euler_next_mach)
qed

lemma thrust_app_perc_nonneg: "0 \<le> thrust_app_perc phase"
  by (simp add: thrust_app_perc_def)

lemma euler_run_weight_le:
  assumes f: "fair_air A" and dt: "0 \<le> time_step"
    and h: "0 \<le> st_h ((euler_next A C
                (euler_frame_of C i time_step pcm k_p v_ref cm phase (euler_init_state A C i phase))
                  ^^ n) (euler_init_state A C i phase))"
  shows "st_w ((euler_next A C
                (euler_frame_of C i time_step pcm k_p v_ref cm phase (euler_init_state A C i phase))
                  ^^ Suc n) (euler_init_state A C i phase))
         \<le> st_w ((euler_next A C
                (euler_frame_of C i time_step pcm k_p v_ref cm phase (euler_init_state A C i phase))
                  ^^ n) (euler_init_state A C i phase))"
proof -
  let ?F = "euler_frame_of C i time_step pcm k_p v_ref cm phase (euler_init_state A C i phase)"
  let ?s = "(euler_next A C ?F ^^ n) (euler_init_state A C i phase)"
  note a = fair_airD [OF f h]
  have m: "- 1 \<le> st_mach ?s" using euler_run_mach_nonneg [OF f h] by linarith
  have t: "0 \<le> temperature A (st_h ?s) / temperature A 0" using a(4) a(8) by simp
  have p1: "0 \<le> pressure A (st_h ?s) / pressure A 0" using a(1) a(6) by simp
  have p2: "pressure A (st_h ?s) / pressure A 0 \<le> 1" using a(2) a(6) by simp
  have "st_w (euler_next A C ?F ?s) \<le> st_w ?s"
    by (rule euler_step_weight_le) (simp_all add: dt thrust_app_perc_nonneg m t p1 p2)
  then show ?thesis by simp
qed

lemma tas2mach_nonneg:
  assumes "0 \<le> v" "0 < speed_of_sound A h"
  shows "0 \<le> tas2mach A v h"
  unfolding tas2mach_def Let_def using assms by (intro np_round_nonneg) simp

lemma approach_run_mach:
  "st_mach ((approach_next A C dt ^^ n) (approach_init_state A i v_ref g))
     = tas2mach A v_ref (st_h ((approach_next A C dt ^^ n) (approach_init_state A i v_ref g)))"
proof (cases n)
  case 0
  then show ?thesis by simp
next
  case (Suc j)
  have "st_v_tas (approach_init_state A i v_ref g) = v_ref" by simp
  then show ?thesis unfolding Suc approach_funpow_mach by simp
qed

lemma approach_run_weight_le:
  assumes f: "fair_air A" and dt: "0 \<le> dt" and v: "0 \<le> v_ref"
    and h: "0 \<le> st_h ((approach_next A C dt ^^ n) (approach_init_state A i v_ref g))"
    and t: "0 \<le> approach_inst_thrust A C
                   ((approach_next A C dt ^^ n) (approach_init_state A i v_ref g))"
  shows "st_w ((approach_next A C dt ^^ Suc n) (approach_init_state A i v_ref g))
         \<le> st_w ((approach_next A C dt ^^ n) (approach_init_state A i v_ref g))"
proof -
  let ?s = "(approach_next A C dt ^^ n) (approach_init_state A i v_ref g)"
  note a = fair_airD [OF f h]
  have "0 \<le> st_mach ?s"
    unfolding approach_run_mach using v a(5) by (rule tas2mach_nonneg)
  then have m: "- 1 \<le> st_mach ?s" by linarith
  have tr: "0 \<le> temperature A (st_h ?s) / temperature A 0" using a(4) a(8) by simp
  have "st_w (approach_next A C dt ?s) \<le> st_w ?s"
    by (rule approach_step_weight_le [OF dt m tr t])
  then show ?thesis by simp
qed

lemma fair_air_sea_level_air: "fair_air sea_level_air"
  by (simp add: fair_air_def)

lemma simulation_euler_Some_fuel:
  assumes "simulation_euler A C i dt pcm k_p v_ref cm phase = Some (Inr r)"
  shows "\<exists>n. res_fuel_burn r = map (\<lambda>k. st_m_f_burnt ((euler_next A C
                (euler_frame_of C i dt pcm k_p v_ref cm phase (euler_init_state A C i phase))
                   ^^ k) (euler_init_state A C i phase))) [0..<Suc (Suc n)]"
proof -
  let ?s0 = "euler_init_state A C i phase"
  let ?F = "euler_frame_of C i dt pcm k_p v_ref cm phase ?s0"
  from assms have "euler_loop A C ?F ?s0 (euler_init_res C i ?s0) = Some (Inr r)"
    using simulation_euler_Inr_accepts [OF assms] by (simp add: simulation_euler_loop)
  from euler_loop_Some_stops [OF this] obtain n where
    r: "r = euler_res_after A C ?F ?s0 (euler_init_res C i ?s0) (Suc n)"
    by blast
  have "res_fuel_burn r = st_m_f_burnt ?s0
          # map (\<lambda>k. st_m_f_burnt ((euler_next A C ?F ^^ k) ?s0)) [1..<Suc (Suc n)]"
    unfolding r using euler_res_after_lists [of A C ?F ?s0 "euler_init_res C i ?s0" "Suc n"]
    by (simp del: upt_Suc)
  also have "\<dots> = map (\<lambda>k. st_m_f_burnt ((euler_next A C ?F ^^ k) ?s0)) [0..<Suc (Suc n)]"
    by (rule map_funpow_from_0)
  finally show ?thesis by blast
qed

lemma euler_run_fuel_sum:
  "st_m_f_burnt ((euler_next A C F ^^ j) (euler_init_state A C i phase))
     = (\<Sum>k<j. euler_burn A F ((euler_next A C F ^^ k) (euler_init_state A C i phase)))"
  unfolding euler_funpow_m_f_burnt by simp

lemma approach_run_fuel_sum:
  "st_m_f_burnt ((approach_next A C dt ^^ j) (approach_init_state A i v_ref g))
     = (\<Sum>k<j. approach_burn A C dt ((approach_next A C dt ^^ k) (approach_init_state A i v_ref g)))"
  unfolding approach_funpow_m_f_burnt by simp

lemma climb_demo_returns:
  "\<exists>r. simulation_euler sea_level_air flat_aero climb_ics 1 (pilot_pitch_control sea_level_air)
          (1 / 100) 200 (85 / 100) ''climb'' = Some (Inr r)"
proof -
  have "euler_stops_at sea_level_air flat_aero
          (euler_frame_of flat_aero climb_ics 1 (pilot_pitch_control sea_level_air)
             (1 / 100) 200 (85 / 100) ''climb''
             (euler_init_state sea_level_air flat_aero climb_ics ''climb''))
          (euler_init_state sea_level_air flat_aero climb_ics ''climb'') 0"
    unfolding euler_stops_at_0 climb_run_first_altitude
    by (simp add: euler_break_def Atmosphere_accepts_def)
  moreover have "Atmosphere_accepts (ics_h climb_ics)"
    by (simp add: climb_ics_def Atmosphere_accepts_def)
  ultimately show ?thesis
    using euler_stops_loop_Some by (simp add: simulation_euler_loop)
qed

lemma level_approach_thrust:
  "approach_inst_thrust sea_level_air flat_aero s = 150000 + st_w s * sin (st_gamma s)"
  by (simp add: approach_inst_thrust_def Let_def)

text \<open>
  C1, as the code has it: every step of both loops adds
  \<open>dw = (- fuel_flow(thrust, mach, h) \<cdot> dt) \<cdot> Grav_const\<close> to the weight. In a run of
  \<open>simulation_euler\<close> with a time step that is not negative, in an atmosphere that is fair,
  the weight does not increase at any step taken at an altitude at or above sea level:
  there the thrust of the lapse model is not negative. In a run of
  \<open>simulation_descent_approach_euler\<close> the same holds at every such step whose thrust
  \<open>drag + w \<cdot> sin(gamma)\<close> is not negative.
\<close>

theorem weight_step_and_monotonicity:
  "st_w (fst (euler_step A C F s))
     = st_w s + mg_m_per_s2_to_N
         ((- fuel_flow A (euler_inst_thrust A F s) (st_mach s) (st_h s) * ef_dt F) * Grav_const)
   \<and> st_w (fst (approach_step A C dt s))
     = st_w s + mg_m_per_s2_to_N
         ((- fuel_flow A (approach_inst_thrust A C s) (st_mach s) (st_h s) * dt) * Grav_const)
   \<and> (fair_air A \<and> 0 \<le> time_step
        \<longrightarrow> (\<forall>n. 0 \<le> st_h ((euler_next A C
                       (euler_frame_of C i time_step pilot_control_model k_p v_ref cruise_mach
                          phase (euler_init_state A C i phase)) ^^ n)
                     (euler_init_state A C i phase))
              \<longrightarrow> st_w ((euler_next A C
                       (euler_frame_of C i time_step pilot_control_model k_p v_ref cruise_mach
                          phase (euler_init_state A C i phase)) ^^ Suc n)
                     (euler_init_state A C i phase))
                  \<le> st_w ((euler_next A C
                       (euler_frame_of C i time_step pilot_control_model k_p v_ref cruise_mach
                          phase (euler_init_state A C i phase)) ^^ n)
                     (euler_init_state A C i phase))))
   \<and> (fair_air A \<and> 0 \<le> time_step' \<and> 0 \<le> v_ref'
        \<longrightarrow> (\<forall>n. 0 \<le> st_h ((approach_next A C time_step' ^^ n)
                             (approach_init_state A i' v_ref' glideslope_angle))
                \<and> 0 \<le> approach_inst_thrust A C
                         ((approach_next A C time_step' ^^ n)
                            (approach_init_state A i' v_ref' glideslope_angle))
              \<longrightarrow> st_w ((approach_next A C time_step' ^^ Suc n)
                          (approach_init_state A i' v_ref' glideslope_angle))
                  \<le> st_w ((approach_next A C time_step' ^^ n)
                          (approach_init_state A i' v_ref' glideslope_angle))))"
proof -
  have 1: "st_w (fst (euler_step A C F s))
     = st_w s + mg_m_per_s2_to_N
         ((- fuel_flow A (euler_inst_thrust A F s) (st_mach s) (st_h s) * ef_dt F) * Grav_const)"
    using euler_next_w [of A C F s] by (simp add: euler_next_def)
  have 2: "st_w (fst (approach_step A C dt s))
     = st_w s + mg_m_per_s2_to_N
         ((- fuel_flow A (approach_inst_thrust A C s) (st_mach s) (st_h s) * dt) * Grav_const)"
    using approach_next_simps(7) [of A C dt s] by (simp add: approach_next_def)
  show ?thesis
    using 1 2 euler_run_weight_le approach_run_weight_le by blast
qed

theorem weight_step_and_monotonicity_witness:
  "fair_air sea_level_air \<and> (0::real) \<le> 1 \<and> (0::real) \<le> 60
   \<and> 0 \<le> st_h ((euler_next sea_level_air flat_aero
                  (euler_frame_of flat_aero climb_ics 1 (pilot_pitch_control sea_level_air)
                     (1 / 100) 200 (85 / 100) ''climb''
                     (euler_init_state sea_level_air flat_aero climb_ics ''climb'')) ^^ 0)
                (euler_init_state sea_level_air flat_aero climb_ics ''climb''))
   \<and> st_w ((euler_next sea_level_air flat_aero
                  (euler_frame_of flat_aero climb_ics 1 (pilot_pitch_control sea_level_air)
                     (1 / 100) 200 (85 / 100) ''climb''
                     (euler_init_state sea_level_air flat_aero climb_ics ''climb'')) ^^ Suc 0)
                (euler_init_state sea_level_air flat_aero climb_ics ''climb''))
       \<le> st_w ((euler_next sea_level_air flat_aero
                  (euler_frame_of flat_aero climb_ics 1 (pilot_pitch_control sea_level_air)
                     (1 / 100) 200 (85 / 100) ''climb''
                     (euler_init_state sea_level_air flat_aero climb_ics ''climb'')) ^^ 0)
                (euler_init_state sea_level_air flat_aero climb_ics ''climb''))
   \<and> 0 \<le> approach_inst_thrust sea_level_air flat_aero
            ((approach_next sea_level_air flat_aero 1 ^^ 0)
               (approach_init_state sea_level_air approach_ics 60 0))
   \<and> st_w ((approach_next sea_level_air flat_aero 1 ^^ Suc 0)
             (approach_init_state sea_level_air approach_ics 60 0))
       \<le> st_w ((approach_next sea_level_air flat_aero 1 ^^ 0)
             (approach_init_state sea_level_air approach_ics 60 0))"
proof -
  note t = weight_step_and_monotonicity
             [where A = sea_level_air and C = flat_aero and i = climb_ics and time_step = 1
                and pilot_control_model = "pilot_pitch_control sea_level_air"
                and k_p = "1 / 100" and v_ref = 200 and cruise_mach = "85 / 100"
                and phase = "''climb''" and i' = approach_ics and time_step' = 1
                and v_ref' = 60 and glideslope_angle = 0]
  have f: "fair_air sea_level_air" by (rule fair_air_sea_level_air)
  have h1: "0 \<le> st_h ((euler_next sea_level_air flat_aero
                  (euler_frame_of flat_aero climb_ics 1 (pilot_pitch_control sea_level_air)
                     (1 / 100) 200 (85 / 100) ''climb''
                     (euler_init_state sea_level_air flat_aero climb_ics ''climb'')) ^^ 0)
                (euler_init_state sea_level_air flat_aero climb_ics ''climb''))"
    by (simp add: climb_ics_def)
  have h2: "0 \<le> st_h ((approach_next sea_level_air flat_aero 1 ^^ 0)
               (approach_init_state sea_level_air approach_ics 60 0))"
    by (simp add: approach_ics_def)
  have h3: "0 \<le> approach_inst_thrust sea_level_air flat_aero
            ((approach_next sea_level_air flat_aero 1 ^^ 0)
               (approach_init_state sea_level_air approach_ics 60 0))"
    by (simp add: level_approach_thrust)
  have o: "(0::real) \<le> 1" "(0::real) \<le> 60" by simp_all
  show ?thesis using t f h1 h2 h3 o by blast
qed

text \<open>
  Without the condition on the thrust the weight can grow: on a glideslope of 6 degrees
  with a weight of 2000 kN and a drag of 150 kN the thrust that balances the forces is
  negative, the fuel flow is negative, and the first step makes the aircraft heavier.
\<close>

theorem weight_increase_counterexample:
  "(0::real) < 1 \<and> 10668 / 1000 < ics_h approach_ics
   \<and> st_w (approach_init_state sea_level_air approach_ics 60 (pi / 30))
       < st_w (fst (approach_step sea_level_air flat_aero 1
                      (approach_init_state sea_level_air approach_ics 60 (pi / 30))))"
proof -
  let ?s0 = "approach_init_state sea_level_air approach_ics 60 (pi / 30)"
  let ?ff = "fuel_flow sea_level_air (approach_inst_thrust sea_level_air flat_aero ?s0)
               (st_mach ?s0) (st_h ?s0)"
  have "?ff < 0" by (rule steep_approach_fuel_flow)
  then have "0 < mg_m_per_s2_to_N ((- ?ff * 1) * Grav_const)"
    by (simp add: mg_m_per_s2_to_N_def Grav_const_def)
  then have "st_w ?s0 < st_w (approach_next sea_level_air flat_aero 1 ?s0)"
    unfolding approach_next_simps by linarith
  then show ?thesis by (simp add: approach_next_def approach_ics_def)
qed

text \<open>
  C5, as the code has it: \<open>fuel_flow\<close> returns \<open>c_t \<cdot> thrust\<close> rounded to 4 decimals, with
  \<open>c_t = 11 \<cdot> (1 + mach) \<cdot> sqrt(T_h / T_sl)\<close>; it is not negative when the thrust is not
  negative, the Mach number is at least -1 and the temperature ratio is not negative.
  Every step of both loops adds \<open>|fuel_flow \<cdot> dt|\<close> (converted from mg to g) to the fuel
  burnt. The last \<open>fuel_burn\<close> entry of a run of \<open>simulation_euler\<close> is the sum of these
  amounts over all its steps, and entry \<open>j\<close> of the \<open>fuel_burn\<close> list of an approach run is
  the sum over its first \<open>j\<close> steps.
\<close>

theorem fuel_flow_and_fuel_burn:
  "fuel_flow A thrust mach h = np_round 4 (tsfc A mach h * thrust)
   \<and> (0 \<le> thrust \<and> - 1 \<le> mach \<and> 0 \<le> temperature A h / temperature A 0
        \<longrightarrow> 0 \<le> fuel_flow A thrust mach h)
   \<and> st_m_f_burnt (fst (euler_step A C F s))
        = st_m_f_burnt s
          + mg_to_g \<bar>fuel_flow A (euler_inst_thrust A F s) (st_mach s) (st_h s) * ef_dt F\<bar>
   \<and> st_m_f_burnt (fst (approach_step A C dt s))
        = st_m_f_burnt s
          + mg_to_g \<bar>fuel_flow A (approach_inst_thrust A C s) (st_mach s) (st_h s) * dt\<bar>
   \<and> (\<forall>r. simulation_euler A C i time_step pilot_control_model k_p v_ref cruise_mach phase
              = Some (Inr r)
          \<longrightarrow> last (res_fuel_burn r)
              = (\<Sum>k<length (res_fuel_burn r) - 1.
                   euler_burn A
                     (euler_frame_of C i time_step pilot_control_model k_p v_ref cruise_mach
                        phase (euler_init_state A C i phase))
                     ((euler_next A C
                         (euler_frame_of C i time_step pilot_control_model k_p v_ref
                            cruise_mach phase (euler_init_state A C i phase)) ^^ k)
                        (euler_init_state A C i phase))))
   \<and> (\<forall>r. simulation_descent_approach_euler A C i' time_step' v_ref' glideslope_angle screen_h phase'
              = Some (Inr r)
          \<longrightarrow> (\<forall>j<length (ares_fuel_burn r).
                 ares_fuel_burn r ! j
                   = (\<Sum>k<j. approach_burn A C time_step'
                               ((approach_next A C time_step' ^^ k)
                                  (approach_init_state A i' v_ref' glideslope_angle)))))"
proof -
  let ?s0 = "euler_init_state A C i phase"
  let ?F = "euler_frame_of C i time_step pilot_control_model k_p v_ref cruise_mach phase ?s0"
  let ?a0 = "approach_init_state A i' v_ref' glideslope_angle"
  have 1: "fuel_flow A thrust mach h = np_round 4 (tsfc A mach h * thrust)"
    by (rule fuel_flow_tsfc)
  have 2: "0 \<le> thrust \<and> - 1 \<le> mach \<and> 0 \<le> temperature A h / temperature A 0
        \<longrightarrow> 0 \<le> fuel_flow A thrust mach h"
    using fuel_flow_nonneg by blast
  have 3: "st_m_f_burnt (fst (euler_step A C F s))
        = st_m_f_burnt s
          + mg_to_g \<bar>fuel_flow A (euler_inst_thrust A F s) (st_mach s) (st_h s) * ef_dt F\<bar>"
    using euler_next_m_f_burnt [of A C F s] by (simp add: euler_next_def euler_burn_def)
  have 4: "st_m_f_burnt (fst (approach_step A C dt s))
        = st_m_f_burnt s
          + mg_to_g \<bar>fuel_flow A (approach_inst_thrust A C s) (st_mach s) (st_h s) * dt\<bar>"
    using approach_next_simps(6) [of A C dt s] by (simp add: approach_next_def approach_burn_def)
  have 5: "last (res_fuel_burn r)
              = (\<Sum>k<length (res_fuel_burn r) - 1.
                   euler_burn A ?F ((euler_next A C ?F ^^ k) ?s0))"
    if "simulation_euler A C i time_step pilot_control_model k_p v_ref cruise_mach phase
          = Some (Inr r)"
    for r
  proof -
    from simulation_euler_Some_fuel [OF that] obtain n where
      l: "res_fuel_burn r = map (\<lambda>k. st_m_f_burnt ((euler_next A C ?F ^^ k) ?s0)) [0..<Suc (Suc n)]"
      by blast
    have "last (res_fuel_burn r) = st_m_f_burnt ((euler_next A C ?F ^^ Suc n) ?s0)"
      unfolding l by (rule last_map_upt_Suc)
    moreover have "length (res_fuel_burn r) - 1 = Suc n"
      unfolding l by simp
    ultimately show ?thesis by (simp only: euler_run_fuel_sum)
  qed
  have 6: "\<forall>j<length (ares_fuel_burn r).
                 ares_fuel_burn r ! j
                   = (\<Sum>k<j. approach_burn A C time_step' ((approach_next A C time_step' ^^ k) ?a0))"
    if "simulation_descent_approach_euler A C i' time_step' v_ref' glideslope_angle screen_h phase'
          = Some (Inr r)"
    for r
  proof -
    from simulation_approach_Some [OF that] obtain n where
      l: "ares_fuel_burn r
            = map (\<lambda>k. st_m_f_burnt ((approach_next A C time_step' ^^ k) ?a0)) [0..<Suc n]"
      by blast
    show ?thesis
    proof (intro allI impI)
      fix j assume "j < length (ares_fuel_burn r)"
      then have "j < Suc n" unfolding l by simp
      then have "ares_fuel_burn r ! j = st_m_f_burnt ((approach_next A C time_step' ^^ j) ?a0)"
        unfolding l by (simp add: nth_map_upt del: upt_Suc)
      then show "ares_fuel_burn r ! j
                   = (\<Sum>k<j. approach_burn A C time_step' ((approach_next A C time_step' ^^ k) ?a0))"
        by (simp only: approach_run_fuel_sum)
    qed
  qed
  show ?thesis using 1 2 3 4 5 6 by blast
qed

theorem fuel_flow_and_fuel_burn_witness:
  "0 \<le> fuel_flow sea_level_air 1000000 (1 / 2) 0
   \<and> (\<exists>r. simulation_euler sea_level_air flat_aero climb_ics 1
             (pilot_pitch_control sea_level_air) (1 / 100) 200 (85 / 100) ''climb''
               = Some (Inr r)
          \<and> last (res_fuel_burn r)
              = (\<Sum>k<length (res_fuel_burn r) - 1.
                   euler_burn sea_level_air
                     (euler_frame_of flat_aero climb_ics 1 (pilot_pitch_control sea_level_air)
                        (1 / 100) 200 (85 / 100) ''climb''
                        (euler_init_state sea_level_air flat_aero climb_ics ''climb''))
                     ((euler_next sea_level_air flat_aero
                         (euler_frame_of flat_aero climb_ics 1
                            (pilot_pitch_control sea_level_air) (1 / 100) 200 (85 / 100)
                            ''climb''
                            (euler_init_state sea_level_air flat_aero climb_ics ''climb'')) ^^ k)
                        (euler_init_state sea_level_air flat_aero climb_ics ''climb''))))
   \<and> (\<exists>r. simulation_descent_approach_euler sea_level_air flat_aero approach_ics 1 60 (pi / 6)
            (10668 / 1000) ''descent_approach'' = Some (Inr r)
          \<and> (\<forall>j<length (ares_fuel_burn r).
                 ares_fuel_burn r ! j
                   = (\<Sum>k<j. approach_burn sea_level_air flat_aero 1
                               ((approach_next sea_level_air flat_aero 1 ^^ k)
                                  (approach_init_state sea_level_air approach_ics 60 (pi / 6))))))"
proof -
  note t = fuel_flow_and_fuel_burn
             [where A = sea_level_air and thrust = 1000000 and mach = "1 / 2" and h = 0
                and C = flat_aero and i = climb_ics and time_step = 1
                and pilot_control_model = "pilot_pitch_control sea_level_air"
                and k_p = "1 / 100" and v_ref = 200 and cruise_mach = "85 / 100"
                and phase = "''climb''" and i' = approach_ics and time_step' = 1
                and v_ref' = 60 and glideslope_angle = "pi / 6"
                and screen_h = "10668 / 1000" and phase' = "''descent_approach''"]
  have h: "(0::real) \<le> 1000000 \<and> (- 1::real) \<le> 1 / 2
             \<and> 0 \<le> temperature sea_level_air 0 / temperature sea_level_air 0"
    by simp
  have 1: "0 \<le> fuel_flow sea_level_air 1000000 (1 / 2) 0" using t h by blast
  show ?thesis using 1 climb_demo_returns approach_demo_returns t by blast
qed

text \<open>
  The flow is not always non-negative: the thrust that the approach solves from the force
  balance is negative on the steep glideslope, and the fuel flow with it.
\<close>

theorem fuel_flow_negative_counterexample:
  "approach_inst_thrust sea_level_air flat_aero
     (approach_init_state sea_level_air approach_ics 60 (pi / 30)) < 0
   \<and> fuel_flow sea_level_air
       (approach_inst_thrust sea_level_air flat_aero
          (approach_init_state sea_level_air approach_ics 60 (pi / 30)))
       (st_mach (approach_init_state sea_level_air approach_ics 60 (pi / 30)))
       (st_h (approach_init_state sea_level_air approach_ics 60 (pi / 30))) < 0"
  using steep_approach_thrust steep_approach_fuel_flow by simp


section \<open>Round trip of the airspeed conversions\<close>

lemma pitot_mono:
  assumes k: "0 \<le> k1" "0 \<le> k2" "0 \<le> r" and ab: "0 \<le> a" "a \<le> b"
  shows "pitot k1 k2 r a \<le> pitot k1 k2 r b"
proof -
  have "a\<^sup>2 \<le> b\<^sup>2" using ab by (intro power_mono) simp_all
  then have 1: "1 + (1 / 7) * k1 * a\<^sup>2 \<le> 1 + (1 / 7) * k1 * b\<^sup>2"
    using k(1) by (simp add: mult_left_mono)
  have 0: "0 \<le> 1 + (1 / 7) * k1 * a\<^sup>2" using k(1) by simp
  have 2: "(1 + (1 / 7) * k1 * a\<^sup>2) powr (7 / 2) \<le> (1 + (1 / 7) * k1 * b\<^sup>2) powr (7 / 2)"
    using 0 1 by (intro powr_mono2) simp_all
  then have 3: "1 + r * ((1 + (1 / 7) * k1 * a\<^sup>2) powr (7 / 2) - 1)
                  \<le> 1 + r * ((1 + (1 / 7) * k1 * b\<^sup>2) powr (7 / 2) - 1)"
    using k(3) by (simp add: mult_left_mono)
  have "1 \<le> (1 + (1 / 7) * k1 * a\<^sup>2) powr (7 / 2)"
    using k(1) by (intro ge_one_powr_ge_zero) simp_all
  then have 4: "0 \<le> 1 + r * ((1 + (1 / 7) * k1 * a\<^sup>2) powr (7 / 2) - 1)"
    using k(3) by (intro add_nonneg_nonneg mult_nonneg_nonneg) simp_all
  have "(1 + r * ((1 + (1 / 7) * k1 * a\<^sup>2) powr (7 / 2) - 1)) powr (2 / 7)
          \<le> (1 + r * ((1 + (1 / 7) * k1 * b\<^sup>2) powr (7 / 2) - 1)) powr (2 / 7)"
    using 4 3 by (intro powr_mono2) simp_all
  then have "7 * (1 / k2) * ((1 + r * ((1 + (1 / 7) * k1 * a\<^sup>2) powr (7 / 2) - 1)) powr (2 / 7) - 1)
          \<le> 7 * (1 / k2) * ((1 + r * ((1 + (1 / 7) * k1 * b\<^sup>2) powr (7 / 2) - 1)) powr (2 / 7) - 1)"
    using k(2) by (intro mult_left_mono) simp_all
  then show ?thesis unfolding pitot_def by simp
qed

lemma cas2tas_exact_nonneg:
  assumes "0 < pressure A 0" "0 < density A 0" "0 < pressure A h" "0 < density A h"
  shows "0 \<le> cas2tas_exact A v h"
  unfolding cas2tas_exact_pitot
  using assms by (intro pitot_nonneg) simp_all

lemma tas2cas_cas2tas_exact:
  assumes "0 < pressure A 0" "0 < density A 0" "0 < pressure A h" "0 < density A h"
  shows "tas2cas_exact A (cas2tas_exact A v h) h = \<bar>v\<bar>"
proof -
  have "pitot (density A h / pressure A h) (density A 0 / pressure A 0)
          (1 / (pressure A 0 / pressure A h))
          (pitot (density A 0 / pressure A 0) (density A h / pressure A h)
             (pressure A 0 / pressure A h) v) = \<bar>v\<bar>"
    using assms by (intro pitot_inverse) simp_all
  then show ?thesis
    unfolding tas2cas_exact_pitot cas2tas_exact_pitot by simp
qed

lemma cas2tas_tas2cas_exact:
  assumes "0 < pressure A 0" "0 < density A 0" "0 < pressure A h" "0 < density A h"
  shows "cas2tas_exact A (tas2cas_exact A v h) h = \<bar>v\<bar>"
proof -
  have "pitot (density A 0 / pressure A 0) (density A h / pressure A h)
          (1 / (pressure A h / pressure A 0))
          (pitot (density A h / pressure A h) (density A 0 / pressure A 0)
             (pressure A h / pressure A 0) v) = \<bar>v\<bar>"
    using assms by (intro pitot_inverse) simp_all
  then show ?thesis
    unfolding tas2cas_exact_pitot cas2tas_exact_pitot by simp
qed

lemma np_round_abs_error_2: "\<bar>np_round 2 x - x\<bar> \<le> 5 / 1000"
  using np_round_error [of 2 x] by simp

subsection \<open>Tangent lines of the real power\<close>

text \<open>
  The power \<open>z powr q\<close> lies below its tangent lines for \<open>0 \<le> q \<le> 1\<close> and above them for
  \<open>1 \<le> q\<close>.
\<close>

lemma powr_tangent_deriv:
  fixes q :: real
  assumes "0 < x"
  shows "((\<lambda>z. z powr q - (1 + q * (z - 1))) has_real_derivative (q * x powr (q - 1) - q)) (at x)"
  using assms by (auto intro!: derivative_eq_intros simp: field_simps)

lemma powr_convex_at_1:
  fixes q z :: real
  assumes z: "0 < z" and q: "1 \<le> q"
  shows "1 + q * (z - 1) \<le> z powr q"
proof -
  let ?f = "\<lambda>z. z powr q - (1 + q * (z - 1))"
  have f1: "?f 1 = 0" by simp
  have "?f 1 \<le> ?f z"
  proof (cases "1 \<le> z")
    case True
    show ?thesis
    proof (rule DERIV_nonneg_imp_nondecreasing [OF True])
      fix x :: real assume x: "1 \<le> x" "x \<le> z"
      have "x powr 0 \<le> x powr (q - 1)" using q x(1) by (intro powr_mono) simp_all
      then have "1 \<le> x powr (q - 1)" using x(1) by simp
      then have "0 \<le> q * x powr (q - 1) - q" using q by (simp add: field_simps)
      moreover have "(?f has_real_derivative (q * x powr (q - 1) - q)) (at x)"
        using x(1) by (intro powr_tangent_deriv) simp
      ultimately show "\<exists>y. (?f has_real_derivative y) (at x) \<and> 0 \<le> y" by blast
    qed
  next
    case False
    then have zl: "z \<le> 1" by simp
    show ?thesis
    proof (rule DERIV_nonpos_imp_nonincreasing [OF zl])
      fix x :: real assume x: "z \<le> x" "x \<le> 1"
      have x0: "0 < x" using z x(1) by linarith
      have "x powr (q - 1) \<le> x powr 0" using q x0 x(2) by (intro powr_mono') simp_all
      then have "x powr (q - 1) \<le> 1" using x0 by simp
      then have "q * x powr (q - 1) - q \<le> 0" using q by (simp add: field_simps)
      moreover have "(?f has_real_derivative (q * x powr (q - 1) - q)) (at x)"
        using x0 by (rule powr_tangent_deriv)
      ultimately show "\<exists>y. (?f has_real_derivative y) (at x) \<and> y \<le> 0" by blast
    qed
  qed
  then show ?thesis using f1 by simp
qed

lemma powr_concave_at_1:
  fixes q z :: real
  assumes z: "0 < z" and q: "0 \<le> q" "q \<le> 1"
  shows "z powr q \<le> 1 + q * (z - 1)"
proof -
  let ?f = "\<lambda>z. z powr q - (1 + q * (z - 1))"
  have f1: "?f 1 = 0" by simp
  have "?f z \<le> ?f 1"
  proof (cases "1 \<le> z")
    case True
    show ?thesis
    proof (rule DERIV_nonpos_imp_nonincreasing [OF True])
      fix x :: real assume x: "1 \<le> x" "x \<le> z"
      have "x powr (q - 1) \<le> x powr 0" using q x(1) by (intro powr_mono) simp_all
      then have "x powr (q - 1) \<le> 1" using x(1) by simp
      then have "q * x powr (q - 1) \<le> q * 1" using q(1) by (rule mult_left_mono)
      then have "q * x powr (q - 1) - q \<le> 0" by simp
      moreover have "(?f has_real_derivative (q * x powr (q - 1) - q)) (at x)"
        using x(1) by (intro powr_tangent_deriv) simp
      ultimately show "\<exists>y. (?f has_real_derivative y) (at x) \<and> y \<le> 0" by blast
    qed
  next
    case False
    then have zl: "z \<le> 1" by simp
    show ?thesis
    proof (rule DERIV_nonneg_imp_nondecreasing [OF zl])
      fix x :: real assume x: "z \<le> x" "x \<le> 1"
      have x0: "0 < x" using z x(1) by linarith
      have "x powr 0 \<le> x powr (q - 1)" using q x0 x(2) by (intro powr_mono') simp_all
      then have "1 \<le> x powr (q - 1)" using x0 by simp
      then have "q * 1 \<le> q * x powr (q - 1)" using q(1) by (rule mult_left_mono)
      then have "0 \<le> q * x powr (q - 1) - q" by simp
      moreover have "(?f has_real_derivative (q * x powr (q - 1) - q)) (at x)"
        using x0 by (rule powr_tangent_deriv)
      ultimately show "\<exists>y. (?f has_real_derivative y) (at x) \<and> 0 \<le> y" by blast
    qed
  qed
  then show ?thesis using f1 by simp
qed

lemma powr_scale:
  fixes q x m :: real
  assumes "0 < x" "0 < m"
  shows "(x / m) powr q * m powr q = x powr q"
    and "m powr q / m = m powr (q - 1)"
proof -
  show "(x / m) powr q * m powr q = x powr q"
    using assms by (simp add: powr_divide)
  show "m powr q / m = m powr (q - 1)"
    using assms by (simp add: powr_diff)
qed

lemma powr_concave_tangent:
  fixes q x m :: real
  assumes x: "0 < x" and m: "0 < m" and q: "0 \<le> q" "q \<le> 1"
  shows "x powr q \<le> m powr q + q * m powr (q - 1) * (x - m)"
proof -
  have "(x / m) powr q \<le> 1 + q * (x / m - 1)"
    using x m q by (intro powr_concave_at_1) simp_all
  then have "(x / m) powr q * m powr q \<le> (1 + q * (x / m - 1)) * m powr q"
    by (intro mult_right_mono) simp_all
  moreover have "(1 + q * (x / m - 1)) * m powr q = m powr q + q * (m powr q / m) * (x - m)"
    using m by (simp add: field_simps)
  ultimately show ?thesis
    unfolding powr_scale(1) [OF x m] powr_scale(2) [OF x m] by simp
qed

lemma powr_convex_tangent:
  fixes q x m :: real
  assumes x: "0 < x" and m: "0 < m" and q: "1 \<le> q"
  shows "m powr q + q * m powr (q - 1) * (x - m) \<le> x powr q"
proof -
  have "1 + q * (x / m - 1) \<le> (x / m) powr q"
    using x m q by (intro powr_convex_at_1) simp_all
  then have "(1 + q * (x / m - 1)) * m powr q \<le> (x / m) powr q * m powr q"
    by (intro mult_right_mono) simp_all
  moreover have "(1 + q * (x / m - 1)) * m powr q = m powr q + q * (m powr q / m) * (x - m)"
    using m by (simp add: field_simps)
  ultimately show ?thesis
    unfolding powr_scale(1) [OF x m] powr_scale(2) [OF x m] by simp
qed

subsection \<open>Slope of the pitot relation\<close>

text \<open>
  The pitot relation is at least \<open>sqrt(min(1, r) \<cdot> k1 / k2) \<cdot> v\<close>, and between two speeds
  \<open>a \<le> b\<close> it grows by at most
  \<open>sqrt(r \<cdot> max(1, r) \<cdot> k1 / k2) \<cdot> (1 + k1 \<cdot> b\<^sup>2 / 7) powr (5 / 2) \<cdot> (b - a)\<close>. For a subsonic
  \<open>b\<close>, where \<open>k1 \<cdot> b\<^sup>2 \<le> 1.4\<close>, the power is at most \<open>1.2 powr 2.5 \<le> 1.58\<close>.
\<close>

lemma pitot_inner_lower:
  fixes r U :: real
  assumes r: "0 \<le> r" and U: "1 \<le> U"
  shows "1 + min 1 r * (U - 1) \<le> (1 + r * (U powr (7 / 2) - 1)) powr (2 / 7)"
proof -
  define P where "P = U powr (7 / 2)"
  define W where "W = 1 + r * (P - 1)"
  have P1: "1 \<le> P" unfolding P_def using U by (intro ge_one_powr_ge_zero) simp_all
  have W1: "1 \<le> W" unfolding W_def using r P1 by simp
  have PU: "P powr (2 / 7) = U" unfolding P_def using U by (simp add: powr_powr)
  show ?thesis
  proof (cases "r \<le> 1")
    case True
    define D where "D = (2 / 7) * W powr (2 / 7 - 1)"
    have t1: "1 powr (2 / 7) \<le> W powr (2 / 7) + D * (1 - W)"
      unfolding D_def using W1 by (intro powr_concave_tangent) simp_all
    have t2: "P powr (2 / 7) \<le> W powr (2 / 7) + D * (P - W)"
      unfolding D_def using W1 P1 by (intro powr_concave_tangent) simp_all
    have "(1 - r) * 1 \<le> (1 - r) * (W powr (2 / 7) + D * (1 - W))"
      using t1 True by (intro mult_left_mono) simp_all
    moreover have "r * U \<le> r * (W powr (2 / 7) + D * (P - W))"
      using t2 r unfolding PU by (intro mult_left_mono) simp_all
    ultimately have "(1 - r) * 1 + r * U
        \<le> (1 - r) * (W powr (2 / 7) + D * (1 - W)) + r * (W powr (2 / 7) + D * (P - W))"
      by (rule add_mono)
    also have "\<dots> = W powr (2 / 7) + D * ((1 - r) * (1 - W) + r * (P - W))"
      by (simp add: algebra_simps)
    also have "(1 - r) * (1 - W) + r * (P - W) = 0"
      unfolding W_def by (simp add: algebra_simps)
    finally have "1 + r * (U - 1) \<le> W powr (2 / 7)" by (simp add: algebra_simps)
    then show ?thesis using True unfolding W_def P_def by (simp add: min_def)
  next
    case False
    then have r1: "1 \<le> r" by simp
    have "1 * (P - 1) \<le> r * (P - 1)" using r1 P1 by (intro mult_right_mono) simp_all
    then have "P \<le> W" unfolding W_def by simp
    then have "P powr (2 / 7) \<le> W powr (2 / 7)"
      using P1 by (intro powr_mono2) simp_all
    then have "U \<le> W powr (2 / 7)" unfolding PU .
    then show ?thesis using r1 unfolding W_def P_def by (simp add: min_def)
  qed
qed

lemma pitot_lower:
  assumes k1: "0 \<le> k1" and k2: "0 < k2" and r: "0 \<le> r" and x: "0 \<le> x"
  shows "sqrt (min 1 r * k1 / k2) * x \<le> pitot k1 k2 r x"
proof -
  define U where "U = 1 + (1 / 7) * k1 * x ^ 2"
  have U1: "1 \<le> U" unfolding U_def using k1 by simp
  have low: "1 + min 1 r * (U - 1) \<le> (1 + r * (U powr (7 / 2) - 1)) powr (2 / 7)"
    using r U1 by (rule pitot_inner_lower)
  have "min 1 r * k1 / k2 * x ^ 2 = 7 * (1 / k2) * (1 + min 1 r * (U - 1) - 1)"
    unfolding U_def by simp
  also have "\<dots> \<le> 7 * (1 / k2) * ((1 + r * (U powr (7 / 2) - 1)) powr (2 / 7) - 1)"
    using low k2 by (intro mult_left_mono) simp_all
  finally have "sqrt (min 1 r * k1 / k2 * x ^ 2) \<le> pitot k1 k2 r x"
    unfolding pitot_def U_def by (rule real_sqrt_le_mono)
  moreover have "sqrt (min 1 r * k1 / k2 * x ^ 2) = sqrt (min 1 r * k1 / k2) * sqrt (x ^ 2)"
    by (rule real_sqrt_mult)
  moreover have "sqrt (x ^ 2) = x" using x by simp
  ultimately show ?thesis by simp
qed

lemma seven_halves_minus_one: "7 / 2 - 1 = (5 / 2 :: real)"
  by simp

lemma neg_scale: "c * (x - y) = - (c * (y - x))" for c x y :: real
  by (simp add: algebra_simps)

lemma pitot_sq_diff:
  assumes k1: "0 \<le> k1" and k2: "0 < k2" and r: "0 \<le> r" and ab: "0 \<le> a" "a \<le> b"
  shows "(pitot k1 k2 r b) ^ 2 - (pitot k1 k2 r a) ^ 2
           \<le> r * k1 / k2 * (1 + (1 / 7) * k1 * b ^ 2) powr (5 / 2) * (b ^ 2 - a ^ 2)"
proof -
  define Ua where "Ua = 1 + (1 / 7) * k1 * a ^ 2"
  define Ub where "Ub = 1 + (1 / 7) * k1 * b ^ 2"
  define Wa where "Wa = 1 + r * (Ua powr (7 / 2) - 1)"
  define Wb where "Wb = 1 + r * (Ub powr (7 / 2) - 1)"
  have Ua1: "1 \<le> Ua" and Ub1: "1 \<le> Ub" unfolding Ua_def Ub_def using k1 by simp_all
  have sq: "a ^ 2 \<le> b ^ 2" using ab by (intro power_mono) simp_all
  have Uab: "Ua \<le> Ub" unfolding Ua_def Ub_def using sq k1 by (simp add: mult_left_mono)
  have Pa1: "1 \<le> Ua powr (7 / 2)" using Ua1 by (intro ge_one_powr_ge_zero) simp_all
  have Pb1: "1 \<le> Ub powr (7 / 2)" using Ub1 by (intro ge_one_powr_ge_zero) simp_all
  have Wa1: "1 \<le> Wa" unfolding Wa_def using r Pa1 by simp
  have Wb1: "1 \<le> Wb" unfolding Wb_def using r Pb1 by simp
  have "Ub powr (7 / 2) + (7 / 2) * Ub powr (7 / 2 - 1) * (Ua - Ub) \<le> Ua powr (7 / 2)"
    using Ua1 Ub1 by (intro powr_convex_tangent) simp_all
  moreover have "(7 / 2) * Ub powr (7 / 2 - 1) * (Ua - Ub)
                    = - ((7 / 2) * Ub powr (5 / 2) * (Ub - Ua))"
    unfolding seven_halves_minus_one by (rule neg_scale)
  ultimately have P: "Ub powr (7 / 2) - Ua powr (7 / 2) \<le> (7 / 2) * Ub powr (5 / 2) * (Ub - Ua)"
    by linarith
  have Pab: "Ua powr (7 / 2) \<le> Ub powr (7 / 2)"
    using Ua1 Uab by (intro powr_mono2) simp_all
  have Wd: "Wb - Wa = r * (Ub powr (7 / 2) - Ua powr (7 / 2))"
    unfolding Wa_def Wb_def by (simp add: algebra_simps)
  have Wd0: "0 \<le> Wb - Wa" unfolding Wd using r Pab by simp
  have "Wa powr (2 / 7 - 1) \<le> Wa powr 0" using Wa1 by (intro powr_mono) simp_all
  then have Wm: "Wa powr (2 / 7 - 1) \<le> 1" using Wa1 by simp
  define D where "D = (2 / 7) * Wa powr (2 / 7 - 1)"
  have D: "D \<le> 2 / 7" unfolding D_def using Wm by simp
  have "Wb powr (2 / 7) \<le> Wa powr (2 / 7) + D * (Wb - Wa)"
    unfolding D_def using Wa1 Wb1 by (intro powr_concave_tangent) simp_all
  moreover have "D * (Wb - Wa) \<le> (2 / 7) * (Wb - Wa)"
    using D Wd0 by (rule mult_right_mono)
  ultimately have "Wb powr (2 / 7) - Wa powr (2 / 7) \<le> (2 / 7) * (Wb - Wa)" by linarith
  also have "\<dots> = (2 / 7) * r * (Ub powr (7 / 2) - Ua powr (7 / 2))" unfolding Wd by simp
  also have "\<dots> \<le> (2 / 7) * r * ((7 / 2) * Ub powr (5 / 2) * (Ub - Ua))"
    using P r by (intro mult_left_mono) simp_all
  also have "\<dots> = r * (Ub powr (5 / 2) * (Ub - Ua))"
    by simp
  also have "Ub - Ua = (1 / 7) * (k1 * (b ^ 2 - a ^ 2))"
    unfolding Ua_def Ub_def by (simp add: right_diff_distrib)
  finally have Y: "Wb powr (2 / 7) - Wa powr (2 / 7)
                     \<le> r * (Ub powr (5 / 2) * ((1 / 7) * (k1 * (b ^ 2 - a ^ 2))))" .
  have pa: "(pitot k1 k2 r a) ^ 2 = 7 * (1 / k2) * (Wa powr (2 / 7) - 1)"
    unfolding Wa_def Ua_def by (rule pitot_sq [OF k1 k2 r])
  have pb: "(pitot k1 k2 r b) ^ 2 = 7 * (1 / k2) * (Wb powr (2 / 7) - 1)"
    unfolding Wb_def Ub_def by (rule pitot_sq [OF k1 k2 r])
  have "(pitot k1 k2 r b) ^ 2 - (pitot k1 k2 r a) ^ 2
          = 7 * (1 / k2) * (Wb powr (2 / 7) - Wa powr (2 / 7))"
    unfolding pa pb by (simp add: right_diff_distrib)
  also have "\<dots> \<le> 7 * (1 / k2) * (r * (Ub powr (5 / 2) * ((1 / 7) * (k1 * (b ^ 2 - a ^ 2)))))"
    using Y k2 by (intro mult_left_mono) simp_all
  also have "\<dots> = r * k1 / k2 * Ub powr (5 / 2) * (b ^ 2 - a ^ 2)"
    by simp
  finally show ?thesis unfolding Ub_def .
qed

lemma pitot_lipschitz:
  assumes k1: "0 < k1" and k2: "0 < k2" and r: "0 < r" and ab: "0 \<le> a" "a \<le> b"
  shows "pitot k1 k2 r b - pitot k1 k2 r a
           \<le> sqrt (r * max 1 r * k1 / k2) * (1 + (1 / 7) * k1 * b ^ 2) powr (5 / 2) * (b - a)"
proof (cases "a = b")
  case True
  then show ?thesis by simp
next
  case False
  then have lt: "a < b" using ab by simp
  define c where "c = sqrt (min 1 r * k1 / k2)"
  define L where "L = sqrt (r * max 1 r * k1 / k2)"
  define G where "G = (1 + (1 / 7) * k1 * b ^ 2) powr (5 / 2)"
  define Ta where "Ta = pitot k1 k2 r a"
  define Tb where "Tb = pitot k1 k2 r b"
  have c0: "0 < c" unfolding c_def using k1 k2 r by (simp add: min_def)
  have "L * c = sqrt ((r * max 1 r * k1 / k2) * (min 1 r * k1 / k2))"
    unfolding L_def c_def by (rule real_sqrt_mult [symmetric])
  also have "(r * max 1 r * k1 / k2) * (min 1 r * k1 / k2) = (r * k1 / k2) ^ 2"
    by (simp add: max_def min_def power2_eq_square)
  also have "sqrt ((r * k1 / k2) ^ 2) = r * k1 / k2"
    using k1 k2 r by simp
  finally have Lc: "L * c = r * k1 / k2" .
  have Tab: "Ta \<le> Tb" unfolding Ta_def Tb_def
    using k1 k2 r ab by (intro pitot_mono) simp_all
  have la: "c * a \<le> Ta" unfolding c_def Ta_def
    using k1 k2 r ab by (intro pitot_lower) simp_all
  have lb: "c * b \<le> Tb" unfolding c_def Tb_def
    using k1 k2 r ab by (intro pitot_lower) simp_all
  have "(Tb - Ta) * (c * (a + b)) \<le> (Tb - Ta) * (Tb + Ta)"
    using Tab la lb by (intro mult_left_mono) (simp_all add: algebra_simps)
  also have "\<dots> = Tb ^ 2 - Ta ^ 2" by (simp add: power2_eq_square algebra_simps)
  also have "\<dots> \<le> r * k1 / k2 * G * (b ^ 2 - a ^ 2)"
    unfolding Ta_def Tb_def G_def using k1 k2 r ab by (intro pitot_sq_diff) simp_all
  also have "\<dots> = (L * G * (b - a)) * (c * (a + b))"
    unfolding Lc [symmetric] by (simp add: power2_eq_square algebra_simps)
  finally have "(Tb - Ta) * (c * (a + b)) \<le> (L * G * (b - a)) * (c * (a + b))" .
  moreover have "0 < c * (a + b)" using c0 lt ab by (intro mult_pos_pos) simp_all
  ultimately have "Tb - Ta \<le> L * G * (b - a)" by (rule mult_right_le_imp_le)
  then show ?thesis unfolding Ta_def Tb_def L_def G_def .
qed

lemma six_fifths_powr: "(6 / 5 :: real) powr (5 / 2) \<le> 158 / 100"
proof -
  have p: "0 \<le> (6 / 5 :: real) powr (5 / 2)" by simp
  have "((6 / 5 :: real) powr (5 / 2)) ^ 2 = ((6 / 5) powr (5 / 2)) powr 2"
    using powr_numeral [OF p, of "Num.Bit0 Num.One"] by simp
  also have "\<dots> = (6 / 5) powr (5 / 2 * 2)" by (rule powr_powr)
  also have "\<dots> = (6 / 5) powr 5" by simp
  also have "\<dots> = (6 / 5) ^ 5" by (simp add: powr_numeral)
  also have "\<dots> \<le> (158 / 100) ^ 2" by (simp add: power2_eq_square power_def eval_nat_numeral)
  finally show ?thesis by (rule power2_le_imp_le) simp
qed

lemma pitot_abs_lipschitz:
  assumes k1: "0 < k1" and k2: "0 < k2" and r: "0 < r"
    and a: "0 \<le> a" "k1 * a ^ 2 \<le> 7 / 5" and b: "0 \<le> b" "k1 * b ^ 2 \<le> 7 / 5"
  shows "\<bar>pitot k1 k2 r a - pitot k1 k2 r b\<bar>
           \<le> 158 / 100 * sqrt (r * max 1 r * k1 / k2) * \<bar>a - b\<bar>"
proof -
  define L where "L = sqrt (r * max 1 r * k1 / k2)"
  have "0 \<le> r * max 1 r * k1 / k2"
    using k1 k2 r by (intro divide_nonneg_nonneg mult_nonneg_nonneg) simp_all
  then have L0: "0 \<le> L" unfolding L_def by simp
  have one: "pitot k1 k2 r y - pitot k1 k2 r x \<le> 158 / 100 * L * (y - x)"
    if x: "0 \<le> x" "x \<le> y" and y: "k1 * y ^ 2 \<le> 7 / 5" for x y
  proof -
    have "1 + (1 / 7) * k1 * y ^ 2 \<le> 6 / 5" using y by simp
    moreover have "0 \<le> 1 + (1 / 7) * k1 * y ^ 2" using k1 by simp
    ultimately have "(1 + (1 / 7) * k1 * y ^ 2) powr (5 / 2) \<le> (6 / 5) powr (5 / 2)"
      by (intro powr_mono2) simp_all
    then have G: "(1 + (1 / 7) * k1 * y ^ 2) powr (5 / 2) \<le> 158 / 100"
      using six_fifths_powr by linarith
    have "pitot k1 k2 r y - pitot k1 k2 r x
            \<le> L * (1 + (1 / 7) * k1 * y ^ 2) powr (5 / 2) * (y - x)"
      unfolding L_def by (rule pitot_lipschitz [OF k1 k2 r x])
    also have "\<dots> \<le> L * (158 / 100) * (y - x)"
      using G L0 x by (intro mult_right_mono mult_left_mono) simp_all
    finally show ?thesis by (simp add: mult.commute)
  qed
  have mono: "pitot k1 k2 r x \<le> pitot k1 k2 r y" if "0 \<le> x" "x \<le> y" for x y
    using k1 k2 r that by (intro pitot_mono) simp_all
  show ?thesis
  proof (cases "a \<le> b")
    case True
    have "pitot k1 k2 r b - pitot k1 k2 r a \<le> 158 / 100 * L * (b - a)"
      by (rule one [OF a(1) True b(2)])
    moreover have "pitot k1 k2 r a \<le> pitot k1 k2 r b" by (rule mono [OF a(1) True])
    ultimately show ?thesis unfolding L_def using True by simp
  next
    case False
    then have ba: "b \<le> a" by simp
    have "pitot k1 k2 r a - pitot k1 k2 r b \<le> 158 / 100 * L * (a - b)"
      by (rule one [OF b(1) ba a(2)])
    moreover have "pitot k1 k2 r b \<le> pitot k1 k2 r a" by (rule mono [OF b(1) ba])
    ultimately show ?thesis unfolding L_def using ba by simp
  qed
qed

lemma tas2cas_exact_lipschitz:
  assumes pos: "0 < pressure A 0" "0 < density A 0" "0 < pressure A h" "0 < density A h"
    and a: "0 \<le> a" "density A h * a ^ 2 \<le> 7 / 5 * pressure A h"
    and b: "0 \<le> b" "density A h * b ^ 2 \<le> 7 / 5 * pressure A h"
  shows "\<bar>tas2cas_exact A a h - tas2cas_exact A b h\<bar>
           \<le> 158 / 100
               * sqrt (density A h / density A 0 * max 1 (pressure A h / pressure A 0))
               * \<bar>a - b\<bar>"
proof -
  define k1 where "k1 = density A h / pressure A h"
  define k2 where "k2 = density A 0 / pressure A 0"
  define r where "r = pressure A h / pressure A 0"
  have k1: "0 < k1" and k2: "0 < k2" and r: "0 < r"
    unfolding k1_def k2_def r_def using pos by simp_all
  have sa: "k1 * a ^ 2 \<le> 7 / 5" unfolding k1_def using a(2) pos(3) by (simp add: field_simps)
  have sb: "k1 * b ^ 2 \<le> 7 / 5" unfolding k1_def using b(2) pos(3) by (simp add: field_simps)
  have e: "r * max 1 r * k1 / k2 = density A h / density A 0 * max 1 r"
    unfolding k1_def k2_def r_def using pos by (simp add: field_simps)
  have "\<bar>pitot k1 k2 r a - pitot k1 k2 r b\<bar>
           \<le> 158 / 100 * sqrt (r * max 1 r * k1 / k2) * \<bar>a - b\<bar>"
    by (rule pitot_abs_lipschitz [OF k1 k2 r a(1) sa b(1) sb])
  then show ?thesis
    unfolding e unfolding tas2cas_exact_pitot k1_def k2_def r_def .
qed

lemma cas2tas_exact_upper:
  assumes pos: "0 < pressure A 0" "0 < density A 0" "0 < pressure A h" "0 < density A h"
    and v: "0 \<le> v" and p: "pressure A h \<le> pressure A 0"
  shows "density A h / density A 0 * (cas2tas_exact A v h) ^ 2 \<le> v ^ 2"
proof -
  define t where "t = cas2tas_exact A v h"
  define k1 where "k1 = density A h / pressure A h"
  define k2 where "k2 = density A 0 / pressure A 0"
  define r where "r = pressure A h / pressure A 0"
  have t0: "0 \<le> t" unfolding t_def by (rule cas2tas_exact_nonneg [OF pos])
  have k1: "0 \<le> k1" and k2: "0 < k2" and r: "0 \<le> r" and r1: "r \<le> 1"
    unfolding k1_def k2_def r_def using pos p by simp_all
  have "sqrt (min 1 r * k1 / k2) * t \<le> pitot k1 k2 r t"
    by (rule pitot_lower [OF k1 k2 r t0])
  also have "pitot k1 k2 r t = tas2cas_exact A t h"
    unfolding tas2cas_exact_pitot k1_def k2_def r_def ..
  also have "\<dots> = v"
    unfolding t_def using tas2cas_cas2tas_exact [OF pos, of v] v by simp
  finally have le: "sqrt (min 1 r * k1 / k2) * t \<le> v" .
  have m: "min 1 r * k1 / k2 = density A h / density A 0"
    unfolding k1_def k2_def r_def using pos r1 [unfolded r_def]
    by (simp add: min_def field_simps)
  have s0: "0 \<le> density A h / density A 0" using pos by simp
  have "0 \<le> sqrt (density A h / density A 0) * t"
    using s0 t0 by (intro mult_nonneg_nonneg) simp_all
  moreover have "sqrt (density A h / density A 0) * t \<le> v"
    using le unfolding m .
  ultimately have "(sqrt (density A h / density A 0) * t) ^ 2 \<le> v ^ 2"
    by (intro power_mono)
  then show ?thesis
    using s0 unfolding t_def [symmetric] by (simp add: power_mult_distrib)
qed

lemma np_round_2_grid: "np_round 2 x = of_int (rint (x * 100)) / 100"
  by (simp add: np_round_def)

lemma grid_close:
  fixes m k :: int
  assumes "\<bar>of_int m / 100 - of_int k / (100::real)\<bar> \<le> 13 / 1000"
  shows "\<bar>of_int m / 100 - of_int k / (100::real)\<bar> \<le> 1 / 100"
proof -
  have "\<bar>of_int m - of_int k :: real\<bar> \<le> 13 / 10"
    using assms by (simp add: field_simps abs_le_iff)
  then have "\<bar>of_int (m - k) :: real\<bar> < 2" by simp
  then have "\<bar>m - k\<bar> < 2" by linarith
  then have "\<bar>m - k\<bar> \<le> 1" by simp
  then have "\<bar>of_int (m - k) :: real\<bar> \<le> 1" by linarith
  then show ?thesis by (simp add: field_simps abs_le_iff)
qed

lemma two_layer_air_simps [simp]:
  "pressure two_layer_air 0 = 101325" "density two_layer_air 0 = 1.225"
  "pressure two_layer_air 2000 = 79495" "density two_layer_air 2000 = 1.0065"
  by (simp_all add: two_layer_air_def)

lemma two_layer_air_tas_upper:
  "cas2tas_exact two_layer_air 130 2000 \<le> 144"
proof -
  define t where "t = cas2tas_exact two_layer_air 130 2000"
  have "density two_layer_air 2000 / density two_layer_air 0 * t ^ 2 \<le> 130 ^ 2"
    unfolding t_def by (rule cas2tas_exact_upper) simp_all
  then have "t ^ 2 \<le> 144 ^ 2" by simp
  then show ?thesis unfolding t_def [symmetric] by (rule power2_le_imp_le) simp
qed

text \<open>
  C3: for an altitude \<open>h\<close> that the atmosphere lookup accepts (at any other both
  conversions raise), a speed \<open>v \<ge> 0\<close>, positive pressures and densities, and a true
  airspeed at \<open>h\<close> that is subsonic before and after its rounding
  (\<open>rho \<cdot> v_tas\<^sup>2 \<le> 1.4 \<cdot> p\<close>, the speed of sound of the pitot formulas), \<open>tas2cas\<close>
  undoes \<open>cas2tas\<close> up to the rounding that each conversion applies. Each conversion is an exact formula followed by a rounding to 2
  decimals, which moves the value by at most 0.005, and the exact formulas are inverse to
  each other. The rounding of the true airspeed reaches the result through \<open>tas2cas\<close>,
  whose slope is at most \<open>1.58 \<cdot> sqrt(rho_h / rho_sl \<cdot> max(1, p_h / p_sl))\<close>, and the
  rounding of the result adds its own 0.005. So the round trip
  \<open>tas2cas(cas2tas(v, h), h)\<close> differs from \<open>v\<close> by at most
  \<open>0.005 \<cdot> (1 + 1.58 \<cdot> sqrt(rho_h / rho_sl \<cdot> max(1, p_h / p_sl)))\<close>; where the air at \<open>h\<close> is
  not denser and not under more pressure than at sea level that is at most 0.013, and
  for a \<open>v\<close> of at most 2 decimals the round trip is within 0.01 of \<open>v\<close>, one unit of the
  last decimal.
\<close>

theorem airspeed_round_trip:
  assumes "0 \<le> v"
    and "0 < pressure A 0" "0 < density A 0" "0 < pressure A h" "0 < density A h"
    and "density A h * (cas2tas_exact A v h) ^ 2 \<le> 7 / 5 * pressure A h"
    and "density A h * (cas2tas A v h) ^ 2 \<le> 7 / 5 * pressure A h"
    and "Atmosphere_accepts h"
  shows "tas2cas_exact A (cas2tas_exact A v h) h = v
   \<and> cas2tas A v h = np_round 2 (cas2tas_exact A v h)
   \<and> \<bar>cas2tas A v h - cas2tas_exact A v h\<bar> \<le> 5 / 1000
   \<and> tas2cas A t h = np_round 2 (tas2cas_exact A t h)
   \<and> \<bar>tas2cas A t h - tas2cas_exact A t h\<bar> \<le> 5 / 1000
   \<and> \<bar>tas2cas A (cas2tas A v h) h - v\<bar>
        \<le> 5 / 1000
            * (1 + 158 / 100
                    * sqrt (density A h / density A 0 * max 1 (pressure A h / pressure A 0)))
   \<and> (pressure A h \<le> pressure A 0 \<and> density A h \<le> density A 0
        \<longrightarrow> \<bar>tas2cas A (cas2tas A v h) h - v\<bar> \<le> 13 / 1000)
   \<and> (pressure A h \<le> pressure A 0 \<and> density A h \<le> density A 0 \<and> np_round 2 v = v
        \<longrightarrow> \<bar>tas2cas A (cas2tas A v h) h - v\<bar> \<le> 1 / 100)"
proof -
  note pos = assms(2-5)
  define te where "te = cas2tas_exact A v h"
  define tr where "tr = cas2tas A v h"
  define L where
    "L = sqrt (density A h / density A 0 * max 1 (pressure A h / pressure A 0))"
  have 1: "tas2cas_exact A te h = v"
    unfolding te_def using tas2cas_cas2tas_exact [OF pos, of v] assms(1) by simp
  have 2: "tr = np_round 2 te" unfolding tr_def te_def by (rule cas2tas_rounds)
  have 3: "\<bar>tr - te\<bar> \<le> 5 / 1000"
    unfolding 2 by (rule np_round_abs_error_2)
  have 4: "tas2cas A t h = np_round 2 (tas2cas_exact A t h)" by (rule tas2cas_rounds)
  have 5: "\<bar>tas2cas A t h - tas2cas_exact A t h\<bar> \<le> 5 / 1000"
    unfolding 4 by (rule np_round_abs_error_2)
  have te0: "0 \<le> te" unfolding te_def by (rule cas2tas_exact_nonneg [OF pos])
  have tr0: "0 \<le> tr" unfolding 2 using te0 by (rule np_round_nonneg)
  have "0 \<le> density A h / density A 0 * max 1 (pressure A h / pressure A 0)"
    using pos by (intro mult_nonneg_nonneg) simp_all
  then have L0: "0 \<le> L" unfolding L_def by simp
  have "\<bar>tas2cas_exact A tr h - tas2cas_exact A te h\<bar> \<le> 158 / 100 * L * \<bar>tr - te\<bar>"
    unfolding L_def
    using assms(6,7) unfolding te_def [symmetric] tr_def [symmetric]
    by (intro tas2cas_exact_lipschitz pos tr0 te0)
  also have "\<dots> \<le> 158 / 100 * L * (5 / 1000)"
    using 3 L0 by (intro mult_left_mono) simp_all
  finally have lip: "\<bar>tas2cas_exact A tr h - v\<bar> \<le> 158 / 100 * L * (5 / 1000)"
    unfolding 1 .
  have rnd: "\<bar>tas2cas A tr h - tas2cas_exact A tr h\<bar> \<le> 5 / 1000"
    unfolding tas2cas_rounds by (rule np_round_abs_error_2)
  have "\<bar>tas2cas A tr h - v\<bar>
          \<le> \<bar>tas2cas A tr h - tas2cas_exact A tr h\<bar> + \<bar>tas2cas_exact A tr h - v\<bar>"
    by linarith
  also have "\<dots> \<le> 5 / 1000 + 158 / 100 * L * (5 / 1000)"
    by (rule add_mono [OF rnd lip])
  also have "\<dots> = 5 / 1000 * (1 + 158 / 100 * L)"
    by (simp add: algebra_simps)
  finally have 6: "\<bar>tas2cas A tr h - v\<bar> \<le> 5 / 1000 * (1 + 158 / 100 * L)" .
  have 7: "\<bar>tas2cas A tr h - v\<bar> \<le> 13 / 1000"
    if c: "pressure A h \<le> pressure A 0 \<and> density A h \<le> density A 0"
  proof -
    have "pressure A h / pressure A 0 \<le> 1" using c pos by simp
    then have m: "max 1 (pressure A h / pressure A 0) = 1" by simp
    have "density A h / density A 0 \<le> 1" using c pos by simp
    then have "L \<le> 1" unfolding L_def m by simp
    then show ?thesis using 6 by simp
  qed
  have 8: "\<bar>tas2cas A tr h - v\<bar> \<le> 1 / 100"
    if c: "pressure A h \<le> pressure A 0 \<and> density A h \<le> density A 0 \<and> np_round 2 v = v"
  proof -
    have b: "\<bar>tas2cas A tr h - v\<bar> \<le> 13 / 1000" using 7 c by blast
    define m where "m = rint (tas2cas_exact A tr h * 100)"
    define k where "k = rint (v * 100)"
    have g1: "of_int m / 100 = tas2cas A tr h"
      unfolding tas2cas_rounds m_def by (rule np_round_2_grid [symmetric])
    have g2: "of_int k / 100 = v"
      unfolding k_def using c np_round_2_grid [of v] by simp
    have "\<bar>of_int m / 100 - of_int k / (100::real)\<bar> \<le> 13 / 1000"
      unfolding g1 g2 by (rule b)
    then have "\<bar>of_int m / 100 - of_int k / (100::real)\<bar> \<le> 1 / 100"
      by (rule grid_close)
    then show ?thesis unfolding g1 g2 .
  qed
  show ?thesis
    using 1 2 3 4 5 6 7 8
    unfolding te_def tr_def L_def by blast
qed

theorem airspeed_round_trip_witness:
  "(0::real) \<le> 130 \<and> 0 < pressure two_layer_air 0 \<and> 0 < density two_layer_air 0
   \<and> 0 < pressure two_layer_air 2000 \<and> 0 < density two_layer_air 2000
   \<and> Atmosphere_accepts 2000
   \<and> density two_layer_air 2000 * (cas2tas_exact two_layer_air 130 2000) ^ 2
        \<le> 7 / 5 * pressure two_layer_air 2000
   \<and> density two_layer_air 2000 * (cas2tas two_layer_air 130 2000) ^ 2
        \<le> 7 / 5 * pressure two_layer_air 2000
   \<and> pressure two_layer_air 2000 \<le> pressure two_layer_air 0
   \<and> density two_layer_air 2000 \<le> density two_layer_air 0
   \<and> np_round 2 130 = 130
   \<and> tas2cas_exact two_layer_air (cas2tas_exact two_layer_air 130 2000) 2000 = 130
   \<and> \<bar>tas2cas two_layer_air (cas2tas two_layer_air 130 2000) 2000 - 130\<bar> \<le> 1 / 100"
proof -
  define te where "te = cas2tas_exact two_layer_air 130 2000"
  define tr where "tr = cas2tas two_layer_air 130 2000"
  have a: "(0::real) \<le> 130" "0 < pressure two_layer_air 0" "0 < density two_layer_air 0"
    "0 < pressure two_layer_air 2000" "0 < density two_layer_air 2000"
    by simp_all
  have te0: "0 \<le> te" unfolding te_def by (rule cas2tas_exact_nonneg) simp_all
  have te1: "te \<le> 144" unfolding te_def by (rule two_layer_air_tas_upper)
  have "tr = np_round 2 te" unfolding tr_def te_def by (rule cas2tas_rounds)
  then have "\<bar>tr - te\<bar> \<le> 5 / 1000" "0 \<le> tr"
    using np_round_abs_error_2 [of te] np_round_nonneg [OF te0, of 2] by simp_all
  then have tr0: "0 \<le> tr" and tr1: "tr \<le> 145" using te1 by linarith+
  have "te ^ 2 \<le> 144 ^ 2" using te0 te1 by (intro power_mono)
  then have s1: "density two_layer_air 2000 * te ^ 2 \<le> 7 / 5 * pressure two_layer_air 2000"
    by simp
  have "tr ^ 2 \<le> 145 ^ 2" using tr0 tr1 by (intro power_mono)
  then have s2: "density two_layer_air 2000 * tr ^ 2 \<le> 7 / 5 * pressure two_layer_air 2000"
    by simp
  have c: "pressure two_layer_air 2000 \<le> pressure two_layer_air 0"
    "density two_layer_air 2000 \<le> density two_layer_air 0" "np_round 2 130 = 130"
    by (simp_all add: np_round_2_130)
  have acc: "Atmosphere_accepts 2000" by (simp add: Atmosphere_accepts_def)
  note t = airspeed_round_trip [OF a s1 [unfolded te_def] s2 [unfolded tr_def] acc]
  show ?thesis
    using t a s1 s2 c acc unfolding te_def tr_def by blast
qed

end
